theory Spec2Isabelle
  imports Complex_Main
begin

section \<open>Errors\<close>

text \<open>
  Every exception the Python code or one of its library calls can raise is a value:
  \<open>AssertionError\<close> for a failed \<^verbatim>\<open>assert\<close>, \<open>KeyError\<close> for a feature name missing
  from a feature dictionary, \<open>RuntimeError\<close> for a tensor shape mismatch raised by the
  tensor library, \<open>ValueError\<close> for a tuple unpacking of the wrong length and
  \<open>DGLError\<close> for a request the graph library refuses.
\<close>

datatype error = AssertionError | KeyError string | RuntimeError | ValueError | DGLError

definition rbind :: "error + 'a \<Rightarrow> ('a \<Rightarrow> error + 'b) \<Rightarrow> error + 'b" where
  "rbind m f = (case m of Inl e \<Rightarrow> Inl e | Inr x \<Rightarrow> f x)"

section \<open>Tensors\<close>

text \<open>
  A tensor is its shape and its elements in row-major order. Elements are real numbers:
  the claims verified below are about which elements are read, written and combined,
  not about rounding.
\<close>

datatype tensor = Tensor (shape: "nat list") (vals: "real list")

definition elt :: "tensor \<Rightarrow> nat \<Rightarrow> real" where
  "elt t i = vals t ! i"

definition mk :: "nat list \<Rightarrow> (nat \<Rightarrow> real) \<Rightarrow> tensor" where
  "mk sh f = Tensor sh (map f [0..<prod_list sh])"

text \<open>\<^verbatim>\<open>torch.zeros(*sh)\<close>\<close>

definition zeros :: "nat list \<Rightarrow> tensor" where
  "zeros sh = mk sh (\<lambda>i. 0)"

text \<open>The number of elements of one entry along the first dimension.\<close>

definition row_sz :: "tensor \<Rightarrow> nat" where
  "row_sz t = prod_list (tl (shape t))"

text \<open>Row \<open>r\<close> of a tensor, read along its first dimension.\<close>

definition row :: "tensor \<Rightarrow> nat \<Rightarrow> real list" where
  "row t r = map (\<lambda>c. elt t (r * row_sz t + c)) [0..<row_sz t]"

subsection \<open>Reshape\<close>

text \<open>
  \<^verbatim>\<open>t.reshape(d1, ..., dk)\<close>: a dimension written \<^verbatim>\<open>-1\<close> is \<open>Infer\<close>. At most one
  dimension may be inferred; it is the element count divided by the product of the others,
  which must be nonzero and divide the count. Without an inferred dimension the product
  must equal the element count. The elements keep their row-major order.
\<close>

datatype dim = Infer | D nat

fun known :: "dim list \<Rightarrow> nat list" where
  "known [] = []"
| "known (Infer # ds) = known ds"
| "known (D n # ds) = n # known ds"

definition reshape :: "tensor \<Rightarrow> dim list \<Rightarrow> error + tensor" where
  "reshape t ds =
     (let n = prod_list (shape t); k = prod_list (known ds); c = length (filter (\<lambda>d. d = Infer) ds) in
      if c > 1 then Inl RuntimeError
      else if c = 1 then
        (if k = 0 \<or> n mod k \<noteq> 0 then Inl RuntimeError
         else Inr (Tensor (map (\<lambda>d. case d of Infer \<Rightarrow> n div k | D m \<Rightarrow> m) ds) (vals t)))
      else if k \<noteq> n then Inl RuntimeError
      else Inr (Tensor (known ds) (vals t)))"

subsection \<open>Slicing, splitting and concatenating along dimension 1\<close>

text \<open>
  A tensor of shape \<open>d0 # d1 # rest\<close> is read as \<open>d0\<close> rows of \<open>d1\<close> blocks of
  \<open>prod_list rest\<close> elements. \<open>narrow1 t off len\<close> keeps blocks \<open>off ..< off + len\<close> of
  every row.
\<close>

definition narrow1 :: "tensor \<Rightarrow> nat \<Rightarrow> nat \<Rightarrow> tensor" where
  "narrow1 t off len =
     (let d0 = shape t ! 0; d1 = shape t ! 1; rest = drop 2 (shape t); inner = prod_list rest in
      mk (d0 # len # rest)
         (\<lambda>i. elt t ((i div (len * inner)) * (d1 * inner) + off * inner + i mod (len * inner))))"

text \<open>
  \<^verbatim>\<open>t[:, a:b]\<close> with Python's slice clamping: both bounds are cut to the width, and an
  upper bound below the lower one gives no column.
\<close>

definition slice_cols :: "tensor \<Rightarrow> nat \<Rightarrow> nat \<Rightarrow> error + tensor" where
  "slice_cols t a b =
     (if length (shape t) < 2 then Inl RuntimeError
      else let d1 = shape t ! 1; a' = min a d1; b' = max a' (min b d1) in
           Inr (narrow1 t a' (b' - a')))"

text \<open>\<^verbatim>\<open>torch.split(t, sizes, dim=1)\<close>: the sizes must add up to the extent of dimension 1.\<close>

fun split_parts :: "tensor \<Rightarrow> nat \<Rightarrow> nat list \<Rightarrow> tensor list" where
  "split_parts t off [] = []"
| "split_parts t off (s # ss) = narrow1 t off s # split_parts t (off + s) ss"

definition split1 :: "tensor \<Rightarrow> nat list \<Rightarrow> error + tensor list" where
  "split1 t sizes =
     (if length (shape t) < 2 \<or> sum_list sizes \<noteq> shape t ! 1 then Inl RuntimeError
      else Inr (split_parts t 0 sizes))"

text \<open>
  \<^verbatim>\<open>torch.cat(ts, dim=1)\<close>: all tensors have rank at least 2 and agree on every dimension
  but dimension 1. Element \<open>c\<close> of row \<open>r\<close> of the result is found by walking the list.
\<close>

definition blk :: "tensor \<Rightarrow> nat" where
  "blk t = prod_list (drop 1 (shape t))"

fun cat_pick :: "tensor list \<Rightarrow> nat \<Rightarrow> nat \<Rightarrow> real" where
  "cat_pick [] r c = 0"
| "cat_pick (t # ts) r c = (if c < blk t then elt t (r * blk t + c) else cat_pick ts r (c - blk t))"

definition cat1 :: "tensor list \<Rightarrow> error + tensor" where
  "cat1 ts =
     (case ts of
        [] \<Rightarrow> Inl RuntimeError
      | t # _ \<Rightarrow>
          if \<not> (\<forall>u \<in> set ts. length (shape u) \<ge> 2 \<and> shape u ! 0 = shape t ! 0
                               \<and> drop 2 (shape u) = drop 2 (shape t))
          then Inl RuntimeError
          else let w = sum_list (map blk ts) in
               Inr (mk (shape t ! 0 # sum_list (map (\<lambda>u. shape u ! 1) ts) # drop 2 (shape t))
                       (\<lambda>i. cat_pick ts (i div w) (i mod w))))"

text \<open>
  \<^verbatim>\<open>t.repeat(r0, r1)\<close> on a matrix: the matrix is tiled \<open>r0\<close> times downwards and \<open>r1\<close>
  times to the right.
\<close>

definition repeat :: "tensor \<Rightarrow> nat \<Rightarrow> nat \<Rightarrow> error + tensor" where
  "repeat t r0 r1 =
     (if length (shape t) \<noteq> 2 then Inl RuntimeError
      else let n = shape t ! 0; w = shape t ! 1 in
           Inr (mk [n * r0, w * r1]
                   (\<lambda>i. elt t (((i div (w * r1)) mod n) * w + (i mod (w * r1)) mod w))))"

subsection \<open>Broadcasting\<close>

text \<open>
  Two shapes broadcast when, aligned at their last dimension, every pair of extents is
  equal or has a 1; the result takes the other extent. A missing leading dimension counts
  as 1.
\<close>

fun broadcast_rev :: "nat list \<Rightarrow> nat list \<Rightarrow> nat list option" where
  "broadcast_rev [] ys = Some ys"
| "broadcast_rev (x # xs) [] = Some (x # xs)"
| "broadcast_rev (x # xs) (y # ys) =
     (if x = y \<or> y = 1 then map_option ((#) x) (broadcast_rev xs ys)
      else if x = 1 then map_option ((#) y) (broadcast_rev xs ys)
      else None)"

definition broadcast_shapes :: "nat list \<Rightarrow> nat list \<Rightarrow> nat list option" where
  "broadcast_shapes xs ys = map_option rev (broadcast_rev (rev xs) (rev ys))"

text \<open>The multi-index of a row-major offset.\<close>

fun unravel :: "nat list \<Rightarrow> nat \<Rightarrow> nat list" where
  "unravel [] i = []"
| "unravel (d # ds) i = i div prod_list ds # unravel ds (i mod prod_list ds)"

text \<open>
  The row-major offset, in an operand of shape \<open>sh\<close>, of the element that a multi-index
  of the broadcast result reads: a dimension of extent 1 is read at 0, and leading
  dimensions the operand lacks are dropped.
\<close>

fun ravel :: "nat list \<Rightarrow> nat list \<Rightarrow> nat" where
  "ravel (d # ds) (i # ix) = (if d = 1 then 0 else i) * prod_list ds + ravel ds ix"
| "ravel _ _ = 0"

definition bc_offset :: "nat list \<Rightarrow> nat list \<Rightarrow> nat" where
  "bc_offset sh ix = ravel sh (drop (length ix - length sh) ix)"

text \<open>An elementwise binary operation with broadcasting: \<^verbatim>\<open>a * b\<close>, \<^verbatim>\<open>a + b\<close>.\<close>

definition bop :: "(real \<Rightarrow> real \<Rightarrow> real) \<Rightarrow> tensor \<Rightarrow> tensor \<Rightarrow> error + tensor" where
  "bop f a b =
     (case broadcast_shapes (shape a) (shape b) of
        None \<Rightarrow> Inl RuntimeError
      | Some sh \<Rightarrow>
          Inr (mk sh (\<lambda>i. let ix = unravel sh i in
                           f (elt a (bc_offset (shape a) ix)) (elt b (bc_offset (shape b) ix)))))"

definition tmul :: "tensor \<Rightarrow> tensor \<Rightarrow> error + tensor" where
  "tmul a b = bop (*) a b"

definition tadd :: "tensor \<Rightarrow> tensor \<Rightarrow> error + tensor" where
  "tadd a b = bop (+) a b"

text \<open>\<^verbatim>\<open>torch.sigmoid\<close>\<close>

definition sigmoid :: "tensor \<Rightarrow> tensor" where
  "sigmoid t = Tensor (shape t) (map (\<lambda>x. 1 / (1 + exp (- x))) (vals t))"

subsection \<open>Batched matrix product\<close>

text \<open>
  \<^verbatim>\<open>torch.matmul(a, b)\<close> for operands of rank at least 2, the only ones this program
  passes: the last two dimensions are multiplied as matrices, the leading (batch)
  dimensions are broadcast.
\<close>

definition matmul :: "tensor \<Rightarrow> tensor \<Rightarrow> error + tensor" where
  "matmul a b =
     (let sa = shape a; sb = shape b; ra = length sa; rb = length sb in
      if ra < 2 \<or> rb < 2 then Inl RuntimeError
      else let n = sa ! (ra - 2); m = sa ! (ra - 1); m' = sb ! (rb - 2); p = sb ! (rb - 1);
               ba = take (ra - 2) sa; bb = take (rb - 2) sb in
           if m \<noteq> m' then Inl RuntimeError
           else case broadcast_shapes ba bb of
                  None \<Rightarrow> Inl RuntimeError
                | Some bo \<Rightarrow>
                    Inr (mk (bo @ [n, p])
                      (\<lambda>i. let ix = unravel bo (i div (n * p));
                               oa = bc_offset ba ix; ob = bc_offset bb ix;
                               r = (i mod (n * p)) div p; c = i mod p in
                           sum_list (map (\<lambda>k. elt a (oa * (n * m) + r * m + k)
                                              * elt b (ob * (m * p) + k * p + c)) [0..<m]))))"

section \<open>MLP\<close>

text \<open>
  The layers \<^verbatim>\<open>MLP.__init__\<close> builds with \<^verbatim>\<open>dropout=False\<close> and \<^verbatim>\<open>batchnorm=False\<close>,
  the only way this program calls it. The learned parameters of the linear layers are
  given by \<open>wt\<close>: weight \<open>W wt l o c\<close> of linear layer \<open>l\<close>, output \<open>o\<close>, input \<open>c\<close>, and
  bias \<open>B wt l o\<close>.
\<close>

record weights =
  W :: "nat \<Rightarrow> nat \<Rightarrow> nat \<Rightarrow> real"
  B :: "nat \<Rightarrow> nat \<Rightarrow> real"

datatype layer =
    Linear (in_features: nat) (out_features: nat) (weight: "nat \<Rightarrow> nat \<Rightarrow> real") (bias: "nat \<Rightarrow> real")
  | LeakyReLU (negative_slope: real)

type_synonym mlp = "layer list"

fun mlp_layers :: "weights \<Rightarrow> nat \<Rightarrow> nat list \<Rightarrow> layer list" where
  "mlp_layers wt i (a # b # []) = [Linear a b (W wt i) (B wt i)]"
| "mlp_layers wt i (a # b # c # rest) =
     Linear a b (W wt i) (B wt i) # LeakyReLU 0.2 # mlp_layers wt (Suc i) (b # c # rest)"
| "mlp_layers wt i _ = []"

definition MLP :: "nat list \<Rightarrow> weights \<Rightarrow> mlp" where
  "MLP sizes wt = mlp_layers wt 1 sizes"

text \<open>
  \<^verbatim>\<open>torch.nn.Linear\<close> maps the last dimension: \<^verbatim>\<open>y[.., o] = sum_c x[.., c] * W[o, c] + b[o]\<close>.
  \<^verbatim>\<open>LeakyReLU\<close> is elementwise.
\<close>

fun layer_forward :: "layer \<Rightarrow> tensor \<Rightarrow> error + tensor" where
  "layer_forward (Linear n_in n_out w b) x =
     (if shape x = [] \<or> last (shape x) \<noteq> n_in then Inl RuntimeError
      else Inr (mk (butlast (shape x) @ [n_out])
                   (\<lambda>j. sum_list (map (\<lambda>c. elt x ((j div n_out) * n_in + c) * w (j mod n_out) c)
                                      [0..<n_in])
                        + b (j mod n_out))))"
| "layer_forward (LeakyReLU s) x =
     Inr (Tensor (shape x) (map (\<lambda>v. if v \<ge> 0 then v else s * v) (vals x)))"

fun mlp_forward :: "mlp \<Rightarrow> tensor \<Rightarrow> error + tensor" where
  "mlp_forward [] x = Inr x"
| "mlp_forward (l # ls) x = rbind (layer_forward l x) (mlp_forward ls)"

section \<open>Graphs with feature frames\<close>

text \<open>
  What the program uses of the graph library (DGL): a graph with one node type, named
  edge types, and a feature frame for the nodes and for each edge type. A frame maps a
  feature name to a tensor whose first dimension runs over the nodes (or the edges of the
  type, in edge-id order). The edge list of a type gives (source, destination) by edge id.
\<close>

type_synonym frame = "string \<rightharpoonup> tensor"

record graph =
  num_nodes :: nat
  etypes :: "string list"
  elist :: "string \<Rightarrow> (nat \<times> nat) list"
  ndata :: frame
  edata :: "string \<Rightarrow> frame"

text \<open>Reading a feature dictionary: \<^verbatim>\<open>d[k]\<close> raises \<^verbatim>\<open>KeyError\<close> on a missing name.\<close>

definition getitem :: "frame \<Rightarrow> string \<Rightarrow> error + tensor" where
  "getitem d k = (case d k of None \<Rightarrow> Inl (KeyError k) | Some t \<Rightarrow> Inr t)"

text \<open>
  An edge type given by name must exist; an omitted edge type (\<open>None\<close>) is accepted only
  when the graph has exactly one.
\<close>

definition get_etype :: "graph \<Rightarrow> string option \<Rightarrow> error + string" where
  "get_etype g etype =
     (case etype of
        None \<Rightarrow> (if length (etypes g) = 1 then Inr (hd (etypes g)) else Inl DGLError)
      | Some e \<Rightarrow> (if e \<in> set (etypes g) then Inr e else Inl DGLError))"

subsection \<open>Rows of a frame\<close>

definition index_rows :: "tensor \<Rightarrow> nat list \<Rightarrow> tensor" where
  "index_rows t ids =
     mk (length ids # tl (shape t))
        (\<lambda>i. elt t ((ids ! (i div row_sz t)) * row_sz t + i mod row_sz t))"

definition subframe :: "frame \<Rightarrow> nat list \<Rightarrow> frame" where
  "subframe fr ids = (\<lambda>k. map_option (\<lambda>t. index_rows t ids) (fr k))"

fun index_of :: "'a \<Rightarrow> 'a list \<Rightarrow> nat option" where
  "index_of x [] = None"
| "index_of x (y # ys) = (if x = y then Some 0 else map_option Suc (index_of x ys))"

text \<open>
  Writing rows \<open>ids\<close> of a column out of place: row \<open>ids ! k\<close> becomes row \<open>k\<close> of \<open>v\<close>,
  every other row is kept.
\<close>

definition scatter_row :: "tensor \<Rightarrow> nat list \<Rightarrow> tensor \<Rightarrow> tensor" where
  "scatter_row t ids v =
     mk (shape t)
        (\<lambda>i. case index_of (i div row_sz t) ids of
                None \<Rightarrow> elt t i
              | Some k \<Rightarrow> elt v (k * row_sz t + i mod row_sz t))"

text \<open>
  Writing some rows of feature \<open>k\<close> in a frame of \<open>n\<close> rows. A column that does not exist
  yet is created filled with zeros (the library's default initializer) before the rows are
  written.
\<close>

definition update_rows :: "nat \<Rightarrow> frame \<Rightarrow> nat list \<Rightarrow> string \<Rightarrow> tensor \<Rightarrow> error + frame" where
  "update_rows n fr ids k v =
     (if shape v = [] \<or> hd (shape v) \<noteq> length ids then Inl DGLError
      else let t = (case fr k of None \<Rightarrow> zeros (n # tl (shape v)) | Some t \<Rightarrow> t) in
           if shape t = [] \<or> tl (shape t) \<noteq> tl (shape v) then Inl RuntimeError
           else Inr (fr(k \<mapsto> scatter_row t ids v)))"

text \<open>Writing a whole column: the tensor must have one row per node (or edge).\<close>

definition set_column :: "nat \<Rightarrow> frame \<Rightarrow> string \<Rightarrow> tensor \<Rightarrow> error + frame" where
  "set_column n fr k v =
     (if shape v = [] \<or> hd (shape v) \<noteq> n then Inl DGLError else Inr (fr(k \<mapsto> v)))"

fun write_rows :: "nat \<Rightarrow> frame \<Rightarrow> nat list \<Rightarrow> (string \<times> tensor) list \<Rightarrow> error + frame" where
  "write_rows n fr ids [] = Inr fr"
| "write_rows n fr ids ((k, v) # kvs) =
     rbind (update_rows n fr ids k v) (\<lambda>fr'. write_rows n fr' ids kvs)"

fun write_all :: "nat \<Rightarrow> frame \<Rightarrow> (string \<times> tensor) list \<Rightarrow> error + frame" where
  "write_all n fr [] = Inr fr"
| "write_all n fr ((k, v) # kvs) =
     rbind (set_column n fr k v) (\<lambda>fr'. write_all n fr' kvs)"

text \<open>\<^verbatim>\<open>g.ndata[k] = t\<close>\<close>

definition set_ndata :: "graph \<Rightarrow> string \<Rightarrow> tensor \<Rightarrow> error + graph" where
  "set_ndata g k t =
     rbind (set_column (num_nodes g) (ndata g) k t) (\<lambda>fr. Inr (g\<lparr>ndata := fr\<rparr>))"

subsection \<open>User-defined functions on node and edge batches\<close>

text \<open>
  A node batch gives \<^verbatim>\<open>nodes.data\<close>; an edge batch gives \<^verbatim>\<open>edges.src\<close>, \<^verbatim>\<open>edges.dst\<close>,
  \<^verbatim>\<open>edges.data\<close> and \<^verbatim>\<open>len(edges)\<close>, each feature restricted to the rows of the batch.
  A user-defined function returns a dictionary of new features.
\<close>

record node_batch =
  node_data :: frame

record edge_batch =
  src :: frame
  dst :: frame
  data :: frame
  len :: nat

type_synonym dict = "(string \<times> tensor) list"

definition edge_batch_of :: "graph \<Rightarrow> string \<Rightarrow> nat list \<Rightarrow> edge_batch" where
  "edge_batch_of g et es =
     \<lparr>src = subframe (ndata g) (map (\<lambda>e. fst (elist g et ! e)) es),
      dst = subframe (ndata g) (map (\<lambda>e. snd (elist g et ! e)) es),
      data = subframe (edata g et) es,
      len = length es\<rparr>"

text \<open>
  \<^verbatim>\<open>g.apply_nodes(func, v)\<close>: run \<open>func\<close> on the batch of nodes \<open>v\<close> and write the
  returned features to the rows \<open>v\<close> of the node frame.
\<close>

definition apply_nodes :: "graph \<Rightarrow> (node_batch \<Rightarrow> error + dict) \<Rightarrow> nat list \<Rightarrow> error + graph" where
  "apply_nodes g func v =
     (if \<exists>u \<in> set v. u \<ge> num_nodes g then Inl DGLError
      else rbind (func \<lparr>node_data = subframe (ndata g) v\<rparr>) (\<lambda>res.
           rbind (write_rows (num_nodes g) (ndata g) v res) (\<lambda>fr.
           Inr (g\<lparr>ndata := fr\<rparr>))))"

text \<open>
  \<^verbatim>\<open>g.apply_edges(func, es, etype=...)\<close>: run \<open>func\<close> on the batch of edges \<open>es\<close> (all
  edges of the type when \<open>es\<close> is omitted) and write the returned features to the edge
  frame of the type.
\<close>

definition apply_edges ::
  "graph \<Rightarrow> (edge_batch \<Rightarrow> error + dict) \<Rightarrow> nat list option \<Rightarrow> string option \<Rightarrow> error + graph" where
  "apply_edges g func es etype =
     rbind (get_etype g etype) (\<lambda>et.
       let m = length (elist g et) in
       case es of
         None \<Rightarrow>
           rbind (func (edge_batch_of g et [0..<m])) (\<lambda>res.
           rbind (write_all m (edata g et) res) (\<lambda>fr.
           Inr (g\<lparr>edata := (edata g)(et := fr)\<rparr>)))
       | Some ids \<Rightarrow>
           if \<exists>e \<in> set ids. e \<ge> m then Inl DGLError
           else rbind (func (edge_batch_of g et ids)) (\<lambda>res.
                rbind (write_rows m (edata g et) ids res) (\<lambda>fr.
                Inr (g\<lparr>edata := (edata g)(et := fr)\<rparr>))))"

subsection \<open>Message passing\<close>

text \<open>
  A message function is a user-defined function on the edge batch or the built-in
  \<^verbatim>\<open>fn.copy_e(e, out)\<close>; a reduce function is the built-in \<^verbatim>\<open>fn.sum(msg, out)\<close> or
  \<^verbatim>\<open>fn.max(msg, out)\<close>. The built-in reducers give a node without incoming message the
  value zero (for \<^verbatim>\<open>fn.max\<close> the library replaces the infinite identity by zero).
\<close>

datatype msgfn = UDF "edge_batch \<Rightarrow> error + dict" | fn_copy_e string string

datatype redfn = fn_sum string string | fn_max string string

fun msg_field :: "redfn \<Rightarrow> string" where
  "msg_field (fn_sum m out) = m"
| "msg_field (fn_max m out) = m"

fun out_field :: "redfn \<Rightarrow> string" where
  "out_field (fn_sum m out) = out"
| "out_field (fn_max m out) = out"

fun reduce_vals :: "redfn \<Rightarrow> real list \<Rightarrow> real" where
  "reduce_vals (fn_sum m out) xs = sum_list xs"
| "reduce_vals (fn_max m out) [] = 0"
| "reduce_vals (fn_max m out) (x # xs) = fold max xs x"

definition messages :: "msgfn \<Rightarrow> edge_batch \<Rightarrow> error + dict" where
  "messages mf eb =
     (case mf of
        UDF f \<Rightarrow> f eb
      | fn_copy_e e out \<Rightarrow> rbind (getitem (data eb) e) (\<lambda>t. Inr [(out, t)]))"

text \<open>
  Reducing the messages of a batch of edges at the receiving nodes \<open>vs\<close>: \<open>dsts ! k\<close> is
  the destination of the \<open>k\<close>-th edge of the batch, whose message is row \<open>k\<close> of \<open>m\<close>.
\<close>

definition reduce_msgs :: "redfn \<Rightarrow> nat list \<Rightarrow> nat list \<Rightarrow> tensor \<Rightarrow> tensor" where
  "reduce_msgs rf dsts vs m =
     mk (length vs # tl (shape m))
        (\<lambda>i. let v = vs ! (i div row_sz m); c = i mod row_sz m in
             reduce_vals rf (map (\<lambda>k. elt m (k * row_sz m + c))
                                 (filter (\<lambda>k. dsts ! k = v) [0..<length dsts])))"

definition message_passing ::
  "graph \<Rightarrow> string \<Rightarrow> nat list \<Rightarrow> nat list \<Rightarrow> msgfn \<Rightarrow> redfn \<Rightarrow> error + tensor" where
  "message_passing g et es vs mf rf =
     rbind (messages mf (edge_batch_of g et es)) (\<lambda>msgs.
     rbind (getitem (map_of msgs) (msg_field rf)) (\<lambda>m.
     if shape m = [] \<or> hd (shape m) \<noteq> length es then Inl DGLError
     else Inr (reduce_msgs rf (map (\<lambda>e. snd (elist g et ! e)) es) vs m)))"

text \<open>
  \<^verbatim>\<open>g.update_all(mf, rf, etype=...)\<close>: messages on all edges of the type, reduced at
  every node; the result replaces the whole column.
\<close>

definition update_all :: "graph \<Rightarrow> msgfn \<Rightarrow> redfn \<Rightarrow> string option \<Rightarrow> error + graph" where
  "update_all g mf rf etype =
     rbind (get_etype g etype) (\<lambda>et.
     rbind (message_passing g et [0..<length (elist g et)] [0..<num_nodes g] mf rf) (\<lambda>t.
     Inr (g\<lparr>ndata := (ndata g)(out_field rf \<mapsto> t)\<rparr>)))"

text \<open>
  The ids of the edges of a type whose destination is in \<open>v\<close>. Frontiers are taken
  without repeated nodes, as the levels of a schedule are.
\<close>

definition in_edge_ids :: "graph \<Rightarrow> nat list \<Rightarrow> string \<Rightarrow> nat list" where
  "in_edge_ids g v et =
     filter (\<lambda>e. snd (elist g et ! e) \<in> set v) [0..<length (elist g et)]"

text \<open>
  \<^verbatim>\<open>g.in_edges(v, etype=...)\<close> returns these edges in its default form, as (source,
  destination) pairs. Where the program passes such pairs on as an edge set, the library
  resolves each pair to the id of an edge with these end points (\<open>edge_ids\<close>; the first
  such edge here).
\<close>

definition in_edges :: "graph \<Rightarrow> nat list \<Rightarrow> string option \<Rightarrow> error + (nat \<times> nat) list" where
  "in_edges g v etype =
     rbind (get_etype g etype) (\<lambda>et.
       if \<exists>u \<in> set v. u \<ge> num_nodes g then Inl DGLError
       else Inr (map (\<lambda>e. elist g et ! e) (in_edge_ids g v et)))"

fun edge_ids_of :: "(nat \<times> nat) list \<Rightarrow> (nat \<times> nat) list \<Rightarrow> error + nat list" where
  "edge_ids_of el [] = Inr []"
| "edge_ids_of el (p # ps) =
     (case index_of p el of
        None \<Rightarrow> Inl DGLError
      | Some e \<Rightarrow> rbind (edge_ids_of el ps) (\<lambda>es. Inr (e # es)))"

definition edge_ids :: "graph \<Rightarrow> (nat \<times> nat) list \<Rightarrow> string option \<Rightarrow> error + nat list" where
  "edge_ids g uv etype = rbind (get_etype g etype) (\<lambda>et. edge_ids_of (elist g et) uv)"

text \<open>
  \<^verbatim>\<open>g.pull(v, mf, rf, etype=...)\<close>: messages on the incoming edges of \<open>v\<close>, reduced at
  the nodes \<open>v\<close>; only the rows \<open>v\<close> of the output column are written. Nothing happens for
  an empty \<open>v\<close>.
\<close>

definition pull :: "graph \<Rightarrow> nat list \<Rightarrow> msgfn \<Rightarrow> redfn \<Rightarrow> string option \<Rightarrow> error + graph" where
  "pull g v mf rf etype =
     rbind (get_etype g etype) (\<lambda>et.
       if v = [] then Inr g
       else if \<exists>u \<in> set v. u \<ge> num_nodes g then Inl DGLError
       else rbind (message_passing g et (in_edge_ids g v et) v mf rf) (\<lambda>t.
            rbind (update_rows (num_nodes g) (ndata g) v (out_field rf) t) (\<lambda>fr.
            Inr (g\<lparr>ndata := fr\<rparr>))))"

text \<open>
  \<^verbatim>\<open>g.send_and_recv(es, mf, rf, etype=...)\<close>: messages on the edges \<open>es\<close>, reduced at
  their destinations; only the rows of these destinations are written. Nothing happens
  for an empty \<open>es\<close>.
\<close>

definition send_and_recv ::
  "graph \<Rightarrow> nat list \<Rightarrow> msgfn \<Rightarrow> redfn \<Rightarrow> string option \<Rightarrow> error + graph" where
  "send_and_recv g es mf rf etype =
     rbind (get_etype g etype) (\<lambda>et.
       if es = [] then Inr g
       else if \<exists>e \<in> set es. e \<ge> length (elist g et) then Inl DGLError
       else let vs = remdups (map (\<lambda>e. snd (elist g et ! e)) es) in
            rbind (message_passing g et es vs mf rf) (\<lambda>t.
            rbind (update_rows (num_nodes g) (ndata g) vs (out_field rf) t) (\<lambda>fr.
            Inr (g\<lparr>ndata := fr\<rparr>))))"

text \<open>
  \<^verbatim>\<open>with g.local_scope():\<close> the body works on the graph's frames; on exit, by return or
  by exception, the frames the graph had on entry are put back.
\<close>

definition local_scope :: "graph \<Rightarrow> (graph \<Rightarrow> error + 'a \<times> graph) \<Rightarrow> (error + 'a) \<times> graph" where
  "local_scope g body =
     (case body g of
        Inl e \<Rightarrow> (Inl e, g)
      | Inr (r, g') \<Rightarrow> (Inr r, g'\<lparr>ndata := ndata g, edata := edata g\<rparr>))"

text \<open>The schedule \<^verbatim>\<open>ts\<close>: the named node subsets and the topological levels.\<close>

record schedule =
  topo :: "nat list list"
  pi_nodes :: "nat list"
  input_nodes :: "nat list"
  output_nodes :: "nat list"
  output_nodes_nonpi :: "nat list"

section \<open>NetConv\<close>

text \<open>
  The parameters of a module are given per MLP, by the MLP's attribute name.
\<close>

record NetConv =
  nc_in_nf :: nat
  nc_in_ef :: nat
  nc_out_nf :: nat
  nc_h1 :: nat
  nc_h2 :: nat
  nc_MLP_msg_i2o :: mlp
  nc_MLP_reduce_o :: mlp
  nc_MLP_msg_o2i :: mlp

definition NetConv_init ::
  "nat \<Rightarrow> nat \<Rightarrow> nat \<Rightarrow> nat \<Rightarrow> nat \<Rightarrow> (string \<Rightarrow> weights) \<Rightarrow> NetConv" where
  "NetConv_init in_nf in_ef out_nf h1 h2 wts =
     \<lparr>nc_in_nf = in_nf, nc_in_ef = in_ef, nc_out_nf = out_nf, nc_h1 = h1, nc_h2 = h2,
      nc_MLP_msg_i2o = MLP [in_nf * 2 + in_ef, 64, 64, 64, 1 + h1 + h2] (wts ''MLP_msg_i2o''),
      nc_MLP_reduce_o = MLP [in_nf + h1 + h2, 64, 64, 64, out_nf] (wts ''MLP_reduce_o''),
      nc_MLP_msg_o2i = MLP [in_nf * 2 + in_ef, 64, 64, 64, 64, out_nf] (wts ''MLP_msg_o2i'')\<rparr>"

definition nc_edge_msg_i :: "NetConv \<Rightarrow> edge_batch \<Rightarrow> error + dict" where
  "nc_edge_msg_i nc edges =
     rbind (getitem (src edges) ''nf'') (\<lambda>a.
     rbind (getitem (dst edges) ''nf'') (\<lambda>b.
     rbind (getitem (data edges) ''ef'') (\<lambda>c.
     rbind (cat1 [a, b, c]) (\<lambda>x.
     rbind (mlp_forward (nc_MLP_msg_o2i nc) x) (\<lambda>x.
     Inr [(''efi'', x)])))))"

definition nc_edge_msg_o :: "NetConv \<Rightarrow> edge_batch \<Rightarrow> error + dict" where
  "nc_edge_msg_o nc edges =
     rbind (getitem (src edges) ''nf'') (\<lambda>a.
     rbind (getitem (dst edges) ''nf'') (\<lambda>b.
     rbind (getitem (data edges) ''ef'') (\<lambda>c.
     rbind (cat1 [a, b, c]) (\<lambda>x.
     rbind (mlp_forward (nc_MLP_msg_i2o nc) x) (\<lambda>x.
     rbind (split1 x [1, nc_h1 nc, nc_h2 nc]) (\<lambda>parts.
     case parts of
       [k, f1, f2] \<Rightarrow>
         (let k = sigmoid k in
          rbind (tmul f1 k) (\<lambda>m1.
          rbind (tmul f2 k) (\<lambda>m2.
          Inr [(''efo1'', m1), (''efo2'', m2)])))
     | _ \<Rightarrow> Inl ValueError))))))"

definition nc_node_reduce_o :: "NetConv \<Rightarrow> node_batch \<Rightarrow> error + dict" where
  "nc_node_reduce_o nc nodes =
     rbind (getitem (node_data nodes) ''nf'') (\<lambda>a.
     rbind (getitem (node_data nodes) ''nfo1'') (\<lambda>b.
     rbind (getitem (node_data nodes) ''nfo2'') (\<lambda>c.
     rbind (cat1 [a, b, c]) (\<lambda>x.
     rbind (mlp_forward (nc_MLP_reduce_o nc) x) (\<lambda>x.
     Inr [(''new_nf'', x)])))))"

text \<open>
  The statements of \<^verbatim>\<open>NetConv.forward\<close> up to and including the two reductions of the
  sink messages at the drive pins (lines 68 to 78), on the graph inside the local scope.
\<close>

definition NetConv_aggregate :: "NetConv \<Rightarrow> graph \<Rightarrow> tensor \<Rightarrow> error + graph" where
  "NetConv_aggregate nc g nf =
     rbind (set_ndata g ''nf'' nf) (\<lambda>g.
     rbind (update_all g (UDF (nc_edge_msg_i nc)) (fn_sum ''efi'' ''new_nf'') (Some ''net_out'')) (\<lambda>g.
     rbind (apply_edges g (nc_edge_msg_o nc) None (Some ''net_in'')) (\<lambda>g.
     rbind (update_all g (fn_copy_e ''efo1'' ''efo1'') (fn_sum ''efo1'' ''nfo1'') (Some ''net_in'')) (\<lambda>g.
     update_all g (fn_copy_e ''efo2'' ''efo2'') (fn_max ''efo2'' ''nfo2'') (Some ''net_in'')))))"

definition NetConv_body :: "NetConv \<Rightarrow> schedule \<Rightarrow> tensor \<Rightarrow> graph \<Rightarrow> error + tensor \<times> graph" where
  "NetConv_body nc ts nf g =
     rbind (NetConv_aggregate nc g nf) (\<lambda>g.
     rbind (apply_nodes g (nc_node_reduce_o nc) (output_nodes ts)) (\<lambda>g.
     rbind (getitem (ndata g) ''new_nf'') (\<lambda>r.
     Inr (r, g))))"

definition NetConv_forward ::
  "NetConv \<Rightarrow> graph \<Rightarrow> schedule \<Rightarrow> tensor \<Rightarrow> (error + tensor) \<times> graph" where
  "NetConv_forward nc g ts nf = local_scope g (NetConv_body nc ts nf)"

section \<open>SignalProp\<close>

record SignalProp =
  sp_in_nf :: nat
  sp_in_cell_num_luts :: nat
  sp_in_cell_lut_sz :: nat
  sp_out_nf :: nat
  sp_out_cef :: nat
  sp_h1 :: nat
  sp_h2 :: nat
  sp_lut_dup :: nat
  sp_MLP_netprop :: mlp
  sp_MLP_lut_query :: mlp
  sp_MLP_lut_attention :: mlp
  sp_MLP_cellarc_msg :: mlp
  sp_MLP_cellreduce :: mlp

definition SignalProp_init ::
  "nat \<Rightarrow> nat \<Rightarrow> nat \<Rightarrow> nat \<Rightarrow> nat \<Rightarrow> nat \<Rightarrow> nat \<Rightarrow> nat \<Rightarrow> (string \<Rightarrow> weights) \<Rightarrow> SignalProp" where
  "SignalProp_init in_nf in_cell_num_luts in_cell_lut_sz out_nf out_cef h1 h2 lut_dup wts =
     \<lparr>sp_in_nf = in_nf, sp_in_cell_num_luts = in_cell_num_luts,
      sp_in_cell_lut_sz = in_cell_lut_sz, sp_out_nf = out_nf, sp_out_cef = out_cef,
      sp_h1 = h1, sp_h2 = h2, sp_lut_dup = lut_dup,
      sp_MLP_netprop = MLP [out_nf + 2 * in_nf, 64, 64, 64, 64, out_nf] (wts ''MLP_netprop''),
      sp_MLP_lut_query =
        MLP [out_nf + 2 * in_nf, 64, 64, 64, in_cell_num_luts * lut_dup * 2] (wts ''MLP_lut_query''),
      sp_MLP_lut_attention =
        MLP [1 + 2 + in_cell_lut_sz * 2, 64, 64, 64, in_cell_lut_sz * 2] (wts ''MLP_lut_attention''),
      sp_MLP_cellarc_msg =
        MLP [out_nf + 2 * in_nf + in_cell_num_luts * lut_dup, 64, 64, 64, 1 + h1 + h2 + out_cef]
            (wts ''MLP_cellarc_msg''),
      sp_MLP_cellreduce = MLP [in_nf + h1 + h2, 64, 64, 64, out_nf] (wts ''MLP_cellreduce'')\<rparr>"

definition edge_msg_net :: "SignalProp \<Rightarrow> edge_batch \<Rightarrow> bool \<Rightarrow> error + dict" where
  "edge_msg_net sp edges groundtruth =
     rbind (if groundtruth then getitem (src edges) ''n_atslew''
            else getitem (src edges) ''new_nf'') (\<lambda>last_nf.
     rbind (getitem (src edges) ''nf'') (\<lambda>a.
     rbind (getitem (dst edges) ''nf'') (\<lambda>b.
     rbind (cat1 [last_nf, a, b]) (\<lambda>x.
     rbind (mlp_forward (sp_MLP_netprop sp) x) (\<lambda>x.
     Inr [(''efn'', x)])))))"

text \<open>
  \<^verbatim>\<open>edge_msg_cell\<close> in three parts. First the axis query and its answer (lines 119 to
  138): the result is \<^verbatim>\<open>last_nf\<close> and the output \<^verbatim>\<open>a\<close> of the attention MLP, one row
  per edge, lookup table and duplicate query.
\<close>

definition axis_len :: "SignalProp \<Rightarrow> nat" where
  "axis_len sp = sp_in_cell_num_luts sp * (1 + 2 * sp_in_cell_lut_sz sp)"

definition tables_len :: "SignalProp \<Rightarrow> nat" where
  "tables_len sp = sp_in_cell_num_luts sp * sp_in_cell_lut_sz sp ^ 2"

definition lut_attention :: "SignalProp \<Rightarrow> edge_batch \<Rightarrow> bool \<Rightarrow> error + tensor \<times> tensor" where
  "lut_attention sp edges groundtruth =
     rbind (if groundtruth then getitem (src edges) ''n_atslew''
            else getitem (src edges) ''new_nf'') (\<lambda>last_nf.
     rbind (getitem (src edges) ''nf'') (\<lambda>snf.
     rbind (getitem (dst edges) ''nf'') (\<lambda>dnf.
     rbind (cat1 [last_nf, snf, dnf]) (\<lambda>q.
     rbind (mlp_forward (sp_MLP_lut_query sp) q) (\<lambda>q.
     rbind (reshape q [Infer, D 2]) (\<lambda>q.
     rbind (getitem (data edges) ''ef'') (\<lambda>ef.
     rbind (slice_cols ef 0 (axis_len sp)) (\<lambda>axis.
     rbind (reshape axis [Infer, D (1 + 2 * sp_in_cell_lut_sz sp)]) (\<lambda>axis.
     rbind (repeat axis 1 (sp_lut_dup sp)) (\<lambda>axis.
     rbind (reshape axis [Infer, D (1 + 2 * sp_in_cell_lut_sz sp)]) (\<lambda>axis.
     rbind (cat1 [q, axis]) (\<lambda>qa.
     rbind (mlp_forward (sp_MLP_lut_attention sp) qa) (\<lambda>a.
     Inr (last_nf, a))))))))))))))"

text \<open>
  Then the table lookup (lines 141 to 151): from the attention output \<^verbatim>\<open>a\<close> to the
  lookup results \<^verbatim>\<open>r\<close>. The second operand of the last product is reshaped with the
  literal 4 of line 148.
\<close>

definition lut_lookup :: "SignalProp \<Rightarrow> edge_batch \<Rightarrow> tensor \<Rightarrow> error + tensor" where
  "lut_lookup sp edges a =
     (let sz = sp_in_cell_lut_sz sp in
      rbind (reshape a [Infer, D 2, D sz]) (\<lambda>a.
      rbind (split1 a [1, 1]) (\<lambda>parts.
      case parts of
        [ax, ay] \<Rightarrow>
          rbind (reshape ax [Infer, D sz, D 1]) (\<lambda>ax.
          rbind (reshape ay [Infer, D 1, D sz]) (\<lambda>ay.
          rbind (matmul ax ay) (\<lambda>a.
          rbind (getitem (data edges) ''ef'') (\<lambda>ef.
          rbind (slice_cols ef (axis_len sp) (axis_len sp + tables_len sp)) (\<lambda>tables.
          rbind (reshape tables [Infer, D 1, D 1, D (sz ^ 2)]) (\<lambda>tables.
          rbind (reshape a [Infer, D 4, D (sz ^ 2), D 1]) (\<lambda>a.
          rbind (matmul tables a) (\<lambda>r.
          reshape r [D (len edges), D (sp_in_cell_num_luts sp * sp_lut_dup sp)]))))))))
      | _ \<Rightarrow> Inl ValueError)))"

text \<open>Last the cell-arc message (lines 153 to 163), and the whole function.\<close>

definition cellarc_msg :: "SignalProp \<Rightarrow> edge_batch \<Rightarrow> tensor \<Rightarrow> tensor \<Rightarrow> error + dict" where
  "cellarc_msg sp edges last_nf r =
     rbind (getitem (src edges) ''nf'') (\<lambda>snf.
     rbind (getitem (dst edges) ''nf'') (\<lambda>dnf.
     rbind (cat1 [last_nf, snf, dnf, r]) (\<lambda>x.
     rbind (mlp_forward (sp_MLP_cellarc_msg sp) x) (\<lambda>x.
     rbind (split1 x [1, sp_h1 sp, sp_h2 sp, sp_out_cef sp]) (\<lambda>parts.
     case parts of
       [k, f1, f2, cef] \<Rightarrow>
         (let k = sigmoid k in
          rbind (tmul f1 k) (\<lambda>m1.
          rbind (tmul f2 k) (\<lambda>m2.
          Inr [(''efc1'', m1), (''efc2'', m2), (''efce'', cef)])))
     | _ \<Rightarrow> Inl ValueError)))))"

definition edge_msg_cell :: "SignalProp \<Rightarrow> edge_batch \<Rightarrow> bool \<Rightarrow> error + dict" where
  "edge_msg_cell sp edges groundtruth =
     rbind (lut_attention sp edges groundtruth) (\<lambda>(last_nf, a).
     rbind (lut_lookup sp edges a) (\<lambda>r.
     cellarc_msg sp edges last_nf r))"

definition sp_node_reduce_o :: "SignalProp \<Rightarrow> node_batch \<Rightarrow> error + dict" where
  "sp_node_reduce_o sp nodes =
     rbind (getitem (node_data nodes) ''nf'') (\<lambda>a.
     rbind (getitem (node_data nodes) ''nfc1'') (\<lambda>b.
     rbind (getitem (node_data nodes) ''nfc2'') (\<lambda>c.
     rbind (cat1 [a, b, c]) (\<lambda>x.
     rbind (mlp_forward (sp_MLP_cellreduce sp) x) (\<lambda>x.
     Inr [(''new_nf'', x)])))))"

definition node_skip_level_o :: "node_batch \<Rightarrow> error + dict" where
  "node_skip_level_o nodes =
     rbind (getitem (node_data nodes) ''n_atslew'') (\<lambda>x. Inr [(''new_nf'', x)])"

definition prop_net :: "SignalProp \<Rightarrow> graph \<Rightarrow> nat list \<Rightarrow> bool \<Rightarrow> error + graph" where
  "prop_net sp g nodes groundtruth =
     pull g nodes (UDF (\<lambda>edges. edge_msg_net sp edges groundtruth))
          (fn_sum ''efn'' ''new_nf'') (Some ''net_out'')"

definition prop_cell :: "SignalProp \<Rightarrow> graph \<Rightarrow> nat list \<Rightarrow> bool \<Rightarrow> error + graph" where
  "prop_cell sp g nodes groundtruth =
     rbind (in_edges g nodes (Some ''cell_out'')) (\<lambda>uv.
     rbind (edge_ids g uv (Some ''cell_out'')) (\<lambda>es.
     rbind (apply_edges g (\<lambda>edges. edge_msg_cell sp edges groundtruth) (Some es)
                        (Some ''cell_out'')) (\<lambda>g.
     rbind (send_and_recv g es (fn_copy_e ''efc1'' ''efc1'') (fn_sum ''efc1'' ''nfc1'')
                          (Some ''cell_out'')) (\<lambda>g.
     rbind (send_and_recv g es (fn_copy_e ''efc2'' ''efc2'') (fn_max ''efc2'' ''nfc2'')
                          (Some ''cell_out'')) (\<lambda>g.
     apply_nodes g (sp_node_reduce_o sp) nodes)))))"

text \<open>
  The loop \<^verbatim>\<open>for i in range(1, len(ts['topo']))\<close> of the autoregressive mode, from
  index \<open>i\<close> on.
\<close>

function propagate :: "SignalProp \<Rightarrow> graph \<Rightarrow> nat list list \<Rightarrow> nat \<Rightarrow> error + graph" where
  "propagate sp g tp i =
     (if i < length tp then
        rbind (if i mod 2 = 1 then prop_net sp g (tp ! i) False
               else prop_cell sp g (tp ! i) False)
              (\<lambda>g'. propagate sp g' tp (i + 1))
      else Inr g)"
  by pat_completeness auto
termination
  by (relation "measure (\<lambda>(sp, g, tp, i). length tp - i)") auto

declare propagate.simps [simp del]

text \<open>
  The body of the local scope of \<^verbatim>\<open>SignalProp.forward\<close>: the initialisation (lines 179 to
  183), the propagation in one of the two modes (lines 199 to 212) and the returned pair
  (line 215).
\<close>

definition SignalProp_start :: "SignalProp \<Rightarrow> schedule \<Rightarrow> tensor \<Rightarrow> graph \<Rightarrow> error + graph" where
  "SignalProp_start sp ts nf g =
     rbind (set_ndata g ''nf'' nf) (\<lambda>g.
     rbind (set_ndata g ''new_nf'' (zeros [num_nodes g, sp_out_nf sp])) (\<lambda>g.
     apply_nodes g node_skip_level_o (pi_nodes ts)))"

definition SignalProp_result :: "graph \<Rightarrow> error + (tensor \<times> tensor) \<times> graph" where
  "SignalProp_result g =
     rbind (getitem (ndata g) ''new_nf'') (\<lambda>new_nf.
     rbind (get_etype g (Some ''cell_out'')) (\<lambda>et.
     rbind (getitem (edata g et) ''efce'') (\<lambda>efce.
     Inr ((new_nf, efce), g))))"

definition SignalProp_body ::
  "SignalProp \<Rightarrow> schedule \<Rightarrow> tensor \<Rightarrow> bool \<Rightarrow> graph \<Rightarrow> error + (tensor \<times> tensor) \<times> graph" where
  "SignalProp_body sp ts nf groundtruth g =
     rbind (SignalProp_start sp ts nf g) (\<lambda>g.
     rbind (if groundtruth then
              rbind (prop_net sp g (input_nodes ts) groundtruth) (\<lambda>g.
              prop_cell sp g (output_nodes_nonpi ts) groundtruth)
            else propagate sp g (topo ts) 1)
     SignalProp_result)"

definition SignalProp_forward ::
  "SignalProp \<Rightarrow> graph \<Rightarrow> schedule \<Rightarrow> tensor \<Rightarrow> bool \<Rightarrow> (error + tensor \<times> tensor) \<times> graph" where
  "SignalProp_forward sp g ts nf groundtruth =
     (if length (topo ts) mod 2 \<noteq> 0 then (Inl AssertionError, g)
      else local_scope g (SignalProp_body sp ts nf groundtruth))"

section \<open>AllConv and DeepGCNII\<close>

record AllConv =
  ac_h1 :: nat
  ac_h2 :: nat
  ac_MLP_msg :: mlp
  ac_MLP_reduce :: mlp

definition AllConv_init :: "nat \<Rightarrow> nat \<Rightarrow> nat \<Rightarrow> nat \<Rightarrow> nat \<Rightarrow> (string \<Rightarrow> weights) \<Rightarrow> AllConv" where
  "AllConv_init in_nf out_nf in_ef h1 h2 wts =
     \<lparr>ac_h1 = h1, ac_h2 = h2,
      ac_MLP_msg = MLP [in_nf * 2 + in_ef, 32, 32, 32, 1 + h1 + h2] (wts ''MLP_msg''),
      ac_MLP_reduce = MLP [in_nf + h1 + h2, 32, 32, 32, out_nf] (wts ''MLP_reduce'')\<rparr>"

definition edge_udf :: "AllConv \<Rightarrow> edge_batch \<Rightarrow> error + dict" where
  "edge_udf ac edges =
     rbind (getitem (src edges) ''nf'') (\<lambda>a.
     rbind (getitem (dst edges) ''nf'') (\<lambda>b.
     rbind (getitem (data edges) ''ef'') (\<lambda>c.
     rbind (cat1 [a, b, c]) (\<lambda>x.
     rbind (mlp_forward (ac_MLP_msg ac) x) (\<lambda>x.
     rbind (split1 x [1, ac_h1 ac, ac_h2 ac]) (\<lambda>parts.
     case parts of
       [k, f1, f2] \<Rightarrow>
         (let k = sigmoid k in
          rbind (tmul f1 k) (\<lambda>m1.
          rbind (tmul f2 k) (\<lambda>m2.
          Inr [(''ef1'', m1), (''ef2'', m2)])))
     | _ \<Rightarrow> Inl ValueError))))))"

definition AllConv_body :: "AllConv \<Rightarrow> tensor \<Rightarrow> graph \<Rightarrow> error + tensor \<times> graph" where
  "AllConv_body ac nf g =
     rbind (set_ndata g ''nf'' nf) (\<lambda>g.
     rbind (apply_edges g (edge_udf ac) None None) (\<lambda>g.
     rbind (update_all g (fn_copy_e ''ef1'' ''ef1'') (fn_sum ''ef1'' ''nf1'') None) (\<lambda>g.
     rbind (update_all g (fn_copy_e ''ef2'' ''ef2'') (fn_max ''ef2'' ''nf2'') None) (\<lambda>g.
     rbind (getitem (ndata g) ''nf'') (\<lambda>a.
     rbind (getitem (ndata g) ''nf1'') (\<lambda>b.
     rbind (getitem (ndata g) ''nf2'') (\<lambda>c.
     rbind (cat1 [a, b, c]) (\<lambda>x.
     rbind (mlp_forward (ac_MLP_reduce ac) x) (\<lambda>x.
     Inr (x, g))))))))))"

definition AllConv_forward :: "AllConv \<Rightarrow> graph \<Rightarrow> tensor \<Rightarrow> (error + tensor) \<times> graph" where
  "AllConv_forward ac g nf = local_scope g (AllConv_body ac nf)"

text \<open>
  \<^verbatim>\<open>DeepGCNII.__init__\<close>: \<^verbatim>\<open>range(n_layers - 2)\<close> is empty for \<^verbatim>\<open>n_layers\<close> below 2.
  The parameters are given per layer.
\<close>

record DeepGCNII =
  n_layers :: int
  out_nf :: nat
  layer0 :: AllConv
  layers :: "AllConv list"
  layern :: AllConv

definition DeepGCNII_init ::
  "int \<Rightarrow> nat \<Rightarrow> (string \<Rightarrow> weights) \<Rightarrow> (nat \<Rightarrow> string \<Rightarrow> weights) \<Rightarrow> (string \<Rightarrow> weights)
   \<Rightarrow> DeepGCNII" where
  "DeepGCNII_init n out w0 wl wn =
     \<lparr>n_layers = n, out_nf = out,
      layer0 = AllConv_init 10 16 12 10 10 w0,
      layers = map (\<lambda>i. AllConv_init 26 16 12 10 10 (wl i)) [0..<nat (n - 2)],
      layern = AllConv_init 16 out 12 10 10 wn\<rparr>"

text \<open>
  Calls that each return a value or raise, on a graph that every call hands on to the
  next.
\<close>

definition sbind ::
  "(error + 'a) \<times> graph \<Rightarrow> ('a \<Rightarrow> graph \<Rightarrow> (error + 'b) \<times> graph) \<Rightarrow> (error + 'b) \<times> graph" where
  "sbind m f = (case m of (Inl e, g) \<Rightarrow> (Inl e, g) | (Inr x, g) \<Rightarrow> f x g)"

text \<open>
  The loop \<^verbatim>\<open>for layer in self.layers: x = layer(g, torch.cat([x, g.ndata['nf']], dim=1)) + x\<close>.
\<close>

fun residual_layers :: "AllConv list \<Rightarrow> graph \<Rightarrow> tensor \<Rightarrow> (error + tensor) \<times> graph" where
  "residual_layers [] g x = (Inr x, g)"
| "residual_layers (layer # ls) g x =
     sbind (rbind (getitem (ndata g) ''nf'') (\<lambda>nf. cat1 [x, nf]), g) (\<lambda>xin g.
     sbind (AllConv_forward layer g xin) (\<lambda>y g.
     sbind (tadd y x, g) (\<lambda>x g.
     residual_layers ls g x)))"

definition DeepGCNII_forward :: "DeepGCNII \<Rightarrow> graph \<Rightarrow> (error + tensor) \<times> graph" where
  "DeepGCNII_forward m g =
     sbind (getitem (ndata g) ''nf'', g) (\<lambda>nf g.
     sbind (AllConv_forward (layer0 m) g nf) (\<lambda>x g.
     sbind (residual_layers (layers m) g x) (\<lambda>x g.
     AllConv_forward (layern m) g x)))"

section \<open>Auxiliary notions\<close>

text \<open>Two graphs that differ at most in their feature frames.\<close>

definition frames_only :: "graph \<Rightarrow> graph \<Rightarrow> bool" where
  "frames_only g g' \<longleftrightarrow> (\<exists>n e. g' = g\<lparr>ndata := n, edata := e\<rparr>)"


text \<open>
  One residual layer as the specification words it: the layer is applied to the
  concatenation of the running feature \<open>x\<close> and the original node feature \<open>nf0\<close>, and the
  running feature is added to its output. A chain applies one such step per layer.
\<close>

definition residual_step :: "AllConv \<Rightarrow> graph \<Rightarrow> tensor \<Rightarrow> tensor \<Rightarrow> error + tensor" where
  "residual_step layer g nf0 x =
     rbind (cat1 [x, nf0]) (\<lambda>xin.
     rbind (fst (AllConv_forward layer g xin)) (\<lambda>y.
     tadd y x))"

fun residual_chain :: "AllConv list \<Rightarrow> graph \<Rightarrow> tensor \<Rightarrow> tensor \<Rightarrow> error + tensor" where
  "residual_chain [] g nf0 x = Inr x"
| "residual_chain (l # ls) g nf0 x = rbind (residual_step l g nf0 x) (residual_chain ls g nf0)"

text \<open>Concrete inputs on which the theorems below are instantiated.\<close>

definition w_zero :: weights where
  "w_zero = \<lparr>W = (\<lambda>l r c. 0), B = (\<lambda>l r. 0)\<rparr>"

definition sp_ex :: SignalProp where
  "sp_ex = SignalProp_init 1 1 2 1 1 1 1 4 (\<lambda>_. w_zero)"

definition nc_ex :: NetConv where
  "nc_ex = NetConv_init 1 1 1 1 1 (\<lambda>_. w_zero)"

definition g_ex :: graph where
  "g_ex =
     \<lparr>num_nodes = 3,
      etypes = [''net_out'', ''net_in'', ''cell_out''],
      elist = (\<lambda>et. if et = ''net_out'' then [(0, 1)]
                     else if et = ''net_in'' then [(1, 0)]
                     else if et = ''cell_out'' then [(1, 2)] else []),
      ndata = [''nf'' \<mapsto> Tensor [3, 1] [1, 0, 1], ''n_atslew'' \<mapsto> Tensor [3, 1] [5, 6, 7]],
      edata = (\<lambda>et. if et = ''cell_out''
                     then [''ef'' \<mapsto> Tensor [1, 9] [2, 0, 1, 0, 1, 10, 20, 30, 40],
                           ''efce'' \<mapsto> Tensor [1, 1] [0]]
                     else [''ef'' \<mapsto> Tensor [1, 1] [1]])\<rparr>"

definition nf_ex :: tensor where
  "nf_ex = Tensor [3, 1] [1, 0, 1]"

definition ts_odd :: schedule where
  "ts_odd = \<lparr>topo = [[0]], pi_nodes = [0], input_nodes = [1], output_nodes = [0, 2],
             output_nodes_nonpi = [2]\<rparr>"

definition ts_w :: schedule where
  "ts_w = \<lparr>topo = [[0], []], pi_nodes = [0], input_nodes = [], output_nodes = [0, 2],
           output_nodes_nonpi = []\<rparr>"

definition ts_ex :: schedule where
  "ts_ex = \<lparr>topo = [[0], [1], [2], []], pi_nodes = [0], input_nodes = [1], output_nodes = [0, 2],
            output_nodes_nonpi = [2]\<rparr>"

text \<open>
  The schedule as the specification describes it: the levels from index 1 on, each with
  its index, processed one after the other; a level of odd index by the net stage, a
  level of even index by the cell stage, each on the graph the previous level left.
\<close>

fun run_levels :: "SignalProp \<Rightarrow> graph \<Rightarrow> (nat \<times> nat list) list \<Rightarrow> error + graph" where
  "run_levels sp g [] = Inr g"
| "run_levels sp g ((i, nodes) # rest) =
     rbind (if odd i then prop_net sp g nodes False else prop_cell sp g nodes False)
           (\<lambda>g'. run_levels sp g' rest)"

definition levels_from :: "nat \<Rightarrow> nat list list \<Rightarrow> (nat \<times> nat list) list" where
  "levels_from i tp = map (\<lambda>j. (j, tp ! j)) [i..<length tp]"

text \<open>What the caller receives of a successful body: the returned pair.\<close>

definition returned :: "error + 'a \<times> graph \<Rightarrow> error + 'a" where
  "returned m = rbind m (\<lambda>(r, g). Inr r)"

text \<open>
  A frame \<open>fr'\<close> keeps feature \<open>k\<close> of a frame \<open>fr\<close> outside the rows \<open>S\<close>: if \<open>fr\<close> has
  the feature, \<open>fr'\<close> has it with the same shape and the same rows outside \<open>S\<close>.
\<close>

definition keeps :: "nat set \<Rightarrow> string \<Rightarrow> frame \<Rightarrow> frame \<Rightarrow> bool" where
  "keeps S k fr fr' \<longleftrightarrow>
     (\<forall>t. fr k = Some t \<longrightarrow>
        (\<exists>t'. fr' k = Some t' \<and> shape t' = shape t
            \<and> (\<forall>r. r \<notin> S \<longrightarrow> r < hd (shape t) \<longrightarrow> row t' r = row t r)))"

text \<open>
  The two operands of the table lookup, named. For an attention output \<open>a\<close> whose row
  \<open>\<rho>\<close> holds the x-axis attention vector in its first \<open>sz\<close> entries and the y-axis
  attention vector in the next \<open>sz\<close>, the attention matrices are the outer products:
  entry \<open>(x, y)\<close> of matrix \<open>\<rho>\<close> is \<open>a[\<rho>, x] * a[\<rho>, sz + y]\<close>. The value grids are the
  table block of the edge feature, one row of \<open>sz\<^sup>2\<close> values per edge and lookup table.
\<close>

definition attention_matrix :: "nat \<Rightarrow> tensor \<Rightarrow> tensor" where
  "attention_matrix sz a =
     mk [hd (shape a), sz, sz]
        (\<lambda>i. elt a ((i div (sz * sz)) * (2 * sz) + (i mod (sz * sz)) div sz)
            * elt a ((i div (sz * sz)) * (2 * sz) + sz + i mod sz))"

definition value_grids :: "SignalProp \<Rightarrow> tensor \<Rightarrow> tensor" where
  "value_grids sp ef =
     mk [hd (shape ef) * sp_in_cell_num_luts sp, 1, 1, sp_in_cell_lut_sz sp ^ 2]
        (\<lambda>i. elt ef ((i div tables_len sp) * (shape ef ! 1) + axis_len sp + i mod tables_len sp))"

text \<open>
  A configuration whose attention MLP has zero weights and a last bias that is one-hot on
  each axis (x at 0, y at 1), a configuration with \<^verbatim>\<open>lut_dup = 2\<close>, and a batch of one
  \<^verbatim>\<open>cell_out\<close> edge carrying one 2 by 2 lookup table.
\<close>

definition w_hot :: weights where
  "w_hot = \<lparr>W = (\<lambda>l r c. 0), B = (\<lambda>l r. if l = 4 \<and> (r = 0 \<or> r = 3) then 1 else 0)\<rparr>"

definition sp_hot :: SignalProp where
  "sp_hot = SignalProp_init 1 1 2 1 1 1 1 4 (\<lambda>_. w_hot)"

definition sp_dup2 :: SignalProp where
  "sp_dup2 = SignalProp_init 1 1 2 1 1 1 1 2 (\<lambda>_. w_zero)"

definition ef_one :: tensor where
  "ef_one = Tensor [1, 9] [2, 0, 1, 0, 1, 10, 20, 30, 40]"

definition eb_one :: edge_batch where
  "eb_one =
     \<lparr>src = [''new_nf'' \<mapsto> Tensor [1, 1] [5], ''nf'' \<mapsto> Tensor [1, 1] [1]],
      dst = [''nf'' \<mapsto> Tensor [1, 1] [0]],
      data = [''ef'' \<mapsto> ef_one],
      len = 1\<rparr>"

text \<open>
  A schedule of two levels whose level 1 holds the primary input again, and the graph after
  the initialisation and after the net stage of that level.
\<close>

definition ts_pi_twice :: schedule where
  "ts_pi_twice = \<lparr>topo = [[0], [0]], pi_nodes = [0], input_nodes = [1], output_nodes = [0, 2],
                  output_nodes_nonpi = [2]\<rparr>"

definition g_pi_start :: graph where
  "g_pi_start =
     g_ex\<lparr>ndata := (ndata g_ex)(''nf'' \<mapsto> nf_ex, ''new_nf'' \<mapsto> Tensor [3, 1] [5, 0, 0])\<rparr>"

definition g_pi_net :: graph where
  "g_pi_net =
     g_ex\<lparr>ndata := (ndata g_ex)(''nf'' \<mapsto> nf_ex, ''new_nf'' \<mapsto> Tensor [3, 1] [0, 0, 0])\<rparr>"

text \<open>
  Notions for what a level reads. \<open>with_col k y g\<close> is the graph \<open>g\<close> with column \<open>k\<close> of
  the node frame replaced by \<open>y\<close>; \<open>in_sources g et nodes\<close> lists the sources of the edges
  of type \<open>et\<close> that enter a node of \<open>nodes\<close>; two tensors agree on a list of nodes when
  they have the same shape and the same rows there; and two graphs are the same after a
  stage over \<open>nodes\<close> when they differ at most in the column \<^verbatim>\<open>new_nf\<close>, which agrees on
  \<open>nodes\<close>.
\<close>

definition with_col :: "string \<Rightarrow> tensor option \<Rightarrow> graph \<Rightarrow> graph" where
  "with_col k y g = g\<lparr>ndata := (ndata g)(k := y)\<rparr>"

definition in_sources :: "graph \<Rightarrow> string \<Rightarrow> nat list \<Rightarrow> nat list" where
  "in_sources g et nodes = map fst (filter (\<lambda>p. snd p \<in> set nodes) (elist g et))"

definition agree_on :: "nat list \<Rightarrow> tensor \<Rightarrow> tensor \<Rightarrow> bool" where
  "agree_on us a b \<longleftrightarrow> shape a = shape b \<and> (\<forall>u \<in> set us. row a u = row b u)"

definition same_stage :: "nat list \<Rightarrow> graph \<Rightarrow> graph \<Rightarrow> bool" where
  "same_stage nodes g1 g2 \<longleftrightarrow>
     (case (ndata g1 ''new_nf'', ndata g2 ''new_nf'') of
        (Some a, Some b) \<Rightarrow> g2 = with_col ''new_nf'' (Some b) g1 \<and> agree_on nodes a b
      | _ \<Rightarrow> False)"

section \<open>Basic facts\<close>

lemma rbind_Inr [simp]: "rbind (Inr x) f = f x"
  by (simp add: rbind_def)

lemma rbind_Inl [simp]: "rbind (Inl e) f = Inl e"
  by (simp add: rbind_def)

lemma rbind_eq_Inr: "rbind m f = Inr y \<longleftrightarrow> (\<exists>x. m = Inr x \<and> f x = Inr y)"
  by (cases m) simp_all

lemma frames_only_refl [simp]: "frames_only g g"
  unfolding frames_only_def by (rule exI [of _ "ndata g"], rule exI [of _ "edata g"]) simp

lemma frames_only_trans: "frames_only g g' \<Longrightarrow> frames_only g' g'' \<Longrightarrow> frames_only g g''"
  unfolding frames_only_def by (elim exE) (simp, intro exI, rule refl)

lemma frames_only_ndata [simp]: "frames_only g (g\<lparr>ndata := n\<rparr>)"
  unfolding frames_only_def by (rule exI [of _ n], rule exI [of _ "edata g"]) simp

lemma frames_only_edata [simp]: "frames_only g (g\<lparr>edata := e\<rparr>)"
  unfolding frames_only_def by (rule exI [of _ "ndata g"], rule exI [of _ e]) simp

lemma frames_only_restore: "frames_only g g' \<Longrightarrow> g'\<lparr>ndata := ndata g, edata := edata g\<rparr> = g"
  unfolding frames_only_def by auto

lemma frames_only_struct:
  "frames_only g g' \<Longrightarrow> num_nodes g' = num_nodes g \<and> etypes g' = etypes g \<and> elist g' = elist g"
  unfolding frames_only_def by auto

lemma set_ndata_frames: "set_ndata g k t = Inr g' \<Longrightarrow> frames_only g g'"
  by (auto simp: set_ndata_def rbind_eq_Inr)

lemma apply_nodes_frames: "apply_nodes g f v = Inr g' \<Longrightarrow> frames_only g g'"
  by (auto simp: apply_nodes_def rbind_eq_Inr split: if_splits)

lemma apply_edges_frames: "apply_edges g f es et = Inr g' \<Longrightarrow> frames_only g g'"
  by (auto simp: apply_edges_def rbind_eq_Inr Let_def split: if_splits option.splits)

lemma update_all_frames: "update_all g mf rf et = Inr g' \<Longrightarrow> frames_only g g'"
  by (auto simp: update_all_def rbind_eq_Inr)

lemma pull_frames: "pull g v mf rf et = Inr g' \<Longrightarrow> frames_only g g'"
  by (auto simp: pull_def rbind_eq_Inr split: if_splits)

lemma send_and_recv_frames: "send_and_recv g es mf rf et = Inr g' \<Longrightarrow> frames_only g g'"
  by (auto simp: send_and_recv_def rbind_eq_Inr Let_def split: if_splits)

lemma prop_net_frames: "prop_net sp g v gt = Inr g' \<Longrightarrow> frames_only g g'"
  unfolding prop_net_def by (rule pull_frames)

lemma prop_cell_frames: "prop_cell sp g v gt = Inr g' \<Longrightarrow> frames_only g g'"
  unfolding prop_cell_def
  by (auto simp: rbind_eq_Inr
      dest!: apply_edges_frames send_and_recv_frames apply_nodes_frames
      intro: frames_only_trans)

lemma propagate_frames: "propagate sp g tp i = Inr g' \<Longrightarrow> frames_only g g'"
proof (induction sp g tp i rule: propagate.induct)
  case (1 sp g tp i)
  show ?case
  proof (cases "i < length tp")
    case False
    with "1.prems" show ?thesis by (subst (asm) propagate.simps) simp
  next
    case True
    with "1.prems" obtain g1 where
      st: "(if i mod 2 = 1 then prop_net sp g (tp ! i) False else prop_cell sp g (tp ! i) False) = Inr g1"
      and rest: "propagate sp g1 tp (i + 1) = Inr g'"
      by (subst (asm) propagate.simps) (auto simp: rbind_eq_Inr)
    from st have "frames_only g g1"
      by (auto split: if_splits dest: prop_net_frames prop_cell_frames)
    moreover from "1.IH" [OF True rest] have "frames_only g1 g'" .
    ultimately show ?thesis by (rule frames_only_trans)
  qed
qed


lemma local_scope_restores:
  assumes "\<And>r g'. body g = Inr (r, g') \<Longrightarrow> frames_only g g'"
  shows "snd (local_scope g body) = g"
proof (cases "body g")
  case (Inl e)
  then show ?thesis by (simp add: local_scope_def)
next
  case (Inr p)
  obtain r g' where p: "p = (r, g')" by (cases p)
  with Inr assms have "frames_only g g'" by simp
  then have "g'\<lparr>ndata := ndata g, edata := edata g\<rparr> = g" by (rule frames_only_restore)
  with Inr p show ?thesis by (simp add: local_scope_def)
qed

lemma NetConv_aggregate_frames: "NetConv_aggregate nc g nf = Inr g' \<Longrightarrow> frames_only g g'"
  unfolding NetConv_aggregate_def
  by (auto simp: rbind_eq_Inr
      dest!: set_ndata_frames update_all_frames apply_edges_frames)
    (blast intro: frames_only_trans)

lemma NetConv_body_frames: "NetConv_body nc ts nf g = Inr (r, g') \<Longrightarrow> frames_only g g'"
  unfolding NetConv_body_def
  by (auto simp: rbind_eq_Inr dest!: NetConv_aggregate_frames apply_nodes_frames
      intro: frames_only_trans)

lemma SignalProp_start_frames: "SignalProp_start sp ts nf g = Inr g' \<Longrightarrow> frames_only g g'"
  unfolding SignalProp_start_def
  by (auto simp: rbind_eq_Inr dest!: set_ndata_frames apply_nodes_frames)
    (blast intro: frames_only_trans)

lemma SignalProp_result_graph: "SignalProp_result g = Inr (r, g') \<Longrightarrow> g' = g"
  unfolding SignalProp_result_def by (auto simp: rbind_eq_Inr)

lemma SignalProp_body_frames:
  "SignalProp_body sp ts nf gt g = Inr (r, g') \<Longrightarrow> frames_only g g'"
  unfolding SignalProp_body_def
  by (auto simp: rbind_eq_Inr split: if_splits
      dest!: SignalProp_start_frames prop_net_frames prop_cell_frames propagate_frames
        SignalProp_result_graph)
    (blast intro: frames_only_trans)+

lemma AllConv_body_frames: "AllConv_body ac nf g = Inr (r, g') \<Longrightarrow> frames_only g g'"
  unfolding AllConv_body_def
  by (auto simp: rbind_eq_Inr dest!: set_ndata_frames apply_edges_frames update_all_frames)
    (blast intro: frames_only_trans)

lemma AllConv_forward_snd: "snd (AllConv_forward ac g nf) = g"
  unfolding AllConv_forward_def by (rule local_scope_restores) (rule AllConv_body_frames)

lemma AllConv_forward_pair: "AllConv_forward ac g nf = (fst (AllConv_forward ac g nf), g)"
  by (metis AllConv_forward_snd prod.collapse)

lemma sbind_Inr [simp]: "sbind (Inr x, g) f = f x g"
  by (simp add: sbind_def)

lemma sbind_Inl [simp]: "sbind (Inl e, g) f = (Inl e, g)"
  by (simp add: sbind_def)

lemma sbind_same_graph:
  "sbind (m, g) (\<lambda>x g'. (f x, g')) = (rbind m f, g)"
  by (cases m) simp_all

lemma residual_layers_chain:
  "getitem (ndata g) ''nf'' = Inr nf0 \<Longrightarrow>
   residual_layers ls g x = (residual_chain ls g nf0 x, g)"
proof (induction ls arbitrary: x)
  case Nil
  show ?case by simp
next
  case (Cons l ls)
  show ?case
  proof (cases "cat1 [x, nf0]")
    case (Inl e)
    with Cons.prems show ?thesis by (simp add: residual_step_def)
  next
    case (Inr xin)
    note xin = this
    show ?thesis
    proof (cases "fst (AllConv_forward l g xin)")
      case (Inl e)
      with xin Cons.prems show ?thesis
        by (simp add: residual_step_def) (subst AllConv_forward_pair, simp)
    next
      case (Inr y)
      note y = this
      show ?thesis
      proof (cases "tadd y x")
        case (Inl e)
        with xin y Cons.prems show ?thesis
          by (simp add: residual_step_def) (subst AllConv_forward_pair, simp)
      next
        case (Inr x')
        with xin y Cons.prems Cons.IH [of x'] show ?thesis
          by (simp add: residual_step_def) (subst AllConv_forward_pair, simp)
      qed
    qed
  qed
qed

section \<open>The two modes of propagation\<close>

lemma fst_local_scope: "fst (local_scope g body) = returned (body g)"
  by (auto simp: local_scope_def returned_def split: sum.splits)





lemma propagate_levels: "propagate sp g tp i = run_levels sp g (levels_from i tp)"
proof (induction sp g tp i rule: propagate.induct)
  case (1 sp g tp i)
  show ?case
  proof (cases "i < length tp")
    case False
    then show ?thesis by (subst propagate.simps) (simp add: levels_from_def)
  next
    case True
    then have lv: "levels_from i tp = (i, tp ! i) # levels_from (i + 1) tp"
      by (simp add: levels_from_def upt_conv_Cons)
    have par: "(i mod 2 = 1) = odd i" by (simp add: odd_iff_mod_2_eq_one)
    show ?thesis
      apply (subst propagate.simps)
      apply (simp only: lv True if_True run_levels.simps par)
      apply (rule arg_cong [where f = "rbind _"])
      apply (rule ext)
      apply (rule "1.IH" [OF True])
      done
  qed
qed

lemma run_levels_append:
  "run_levels sp g (xs @ ys) = rbind (run_levels sp g xs) (\<lambda>g'. run_levels sp g' ys)"
proof (induction xs arbitrary: g)
  case Nil
  show ?case by simp
next
  case (Cons x xs)
  obtain i nodes where x: "x = (i, nodes)" by (cases x)
  show ?case
    by (cases "if odd i then prop_net sp g nodes False else prop_cell sp g nodes False")
      (simp_all add: x Cons.IH)
qed

lemma levels_from_tail: "levels_from 1 (l # tp) = levels_from 1 (l' # tp)"
  by (auto simp: levels_from_def nth_Cons')

lemma levels_from_zip: "levels_from 1 tp = zip [1..<length tp] (tl tp)"
  by (rule nth_equalityI) (auto simp: levels_from_def nth_tl)

section \<open>Rows of tensors and frames\<close>

lemma idx_lt: "r < n \<Longrightarrow> c < w \<Longrightarrow> r * w + c < n * (w::nat)"
proof -
  assume a: "r < n" "c < w"
  then have "r * w + c < r * w + w" by simp
  also have "\<dots> = Suc r * w" by simp
  also from a have "\<dots> \<le> n * w" by (intro mult_le_mono1) simp
  finally show ?thesis .
qed

lemma idx_div: "c < w \<Longrightarrow> (r * w + c) div w = (r::nat)"
  by simp

lemma idx_mod: "c < w \<Longrightarrow> (r * w + c) mod w = (c::nat)"
  by simp

lemma shape_mk [simp]: "shape (mk sh f) = sh"
  by (simp add: mk_def)

lemma elt_mk: "i < prod_list sh \<Longrightarrow> elt (mk sh f) i = f i"
  by (simp add: mk_def elt_def)

lemma row_sz_mk [simp]: "row_sz (mk sh f) = prod_list (tl sh)"
  by (simp add: row_sz_def)

lemma prod_list_hd_tl: "sh \<noteq> [] \<Longrightarrow> prod_list sh = hd sh * prod_list (tl sh)"
  by (cases sh) simp_all

lemma row_mk:
  "sh \<noteq> [] \<Longrightarrow> r < hd sh \<Longrightarrow>
   row (mk sh f) r = map (\<lambda>c. f (r * prod_list (tl sh) + c)) [0..<prod_list (tl sh)]"
  by (simp add: row_def elt_mk prod_list_hd_tl idx_lt)

lemma row_zeros: "r < n \<Longrightarrow> row (zeros [n, w]) r = replicate w 0"
  by (simp add: zeros_def row_mk map_replicate_const)

lemma index_of_None: "index_of x ys = None \<longleftrightarrow> x \<notin> set ys"
  by (induction ys) auto

lemma index_of_Some: "index_of x ys = Some k \<Longrightarrow> k < length ys \<and> ys ! k = x"
  by (induction ys arbitrary: k) (auto split: if_splits)

lemma index_of_mem: "x \<in> set ys \<Longrightarrow> \<exists>k. index_of x ys = Some k"
  using index_of_None [of x ys] by (cases "index_of x ys") auto

lemma shape_scatter_row [simp]: "shape (scatter_row t ids v) = shape t"
  by (simp add: scatter_row_def)

lemma row_sz_scatter_row [simp]: "row_sz (scatter_row t ids v) = row_sz t"
  by (simp add: row_sz_def)

lemma row_scatter_row_other:
  assumes "shape t \<noteq> []" "r < hd (shape t)" "r \<notin> set ids"
  shows "row (scatter_row t ids v) r = row t r"
proof -
  have "elt (scatter_row t ids v) (r * row_sz t + c) = elt t (r * row_sz t + c)"
    if "c < row_sz t" for c
  proof -
    from assms that have "r * row_sz t + c < prod_list (shape t)"
      by (simp add: prod_list_hd_tl row_sz_def idx_lt)
    moreover from assms(3) have "index_of r ids = None" by (simp add: index_of_None)
    ultimately show ?thesis using that
      by (simp add: scatter_row_def elt_mk)
  qed
  then show ?thesis by (simp add: row_def)
qed

lemma row_scatter_row_at:
  assumes "shape t \<noteq> []" "r < hd (shape t)" "index_of r ids = Some k" "row_sz v = row_sz t"
  shows "row (scatter_row t ids v) r = row v k"
proof -
  have "elt (scatter_row t ids v) (r * row_sz t + c) = elt v (k * row_sz t + c)"
    if "c < row_sz t" for c
  proof -
    from assms that have "r * row_sz t + c < prod_list (shape t)"
      by (simp add: prod_list_hd_tl row_sz_def idx_lt)
    then show ?thesis using that assms(3)
      by (simp add: scatter_row_def elt_mk)
  qed
  then show ?thesis using assms(4) by (simp add: row_def)
qed

lemma row_index_rows:
  "k < length ids \<Longrightarrow> row (index_rows t ids) k = row t (ids ! k)"
  by (simp add: index_rows_def row_def elt_mk idx_lt row_sz_def)

section \<open>Shapes\<close>

lemma shape_Tensor_map [simp]: "shape (Tensor s v) = s"
  by simp

lemma layer_forward_shape:
  "layer_forward l x = Inr y \<Longrightarrow>
   shape y = (case l of Linear i n w b \<Rightarrow> butlast (shape x) @ [n] | LeakyReLU s \<Rightarrow> shape x)"
  by (cases l) (auto split: if_splits)

lemma mlp_layers_shape:
  "mlp_forward (mlp_layers wt i sizes) x = Inr y \<Longrightarrow> 2 \<le> length sizes \<Longrightarrow>
   shape y = butlast (shape x) @ [last sizes]"
proof (induction wt i sizes arbitrary: x rule: mlp_layers.induct)
  case (1 wt i a b)
  then show ?case by (auto simp: rbind_eq_Inr split: if_splits)
next
  case (2 wt i a b c rest)
  from "2.prems"(1) obtain x1 x2 where
    l1: "layer_forward (Linear a b (W wt i) (B wt i)) x = Inr x1"
    and l2: "layer_forward (LeakyReLU 0.2) x1 = Inr x2"
    and r: "mlp_forward (mlp_layers wt (Suc i) (b # c # rest)) x2 = Inr y"
    by (auto simp: rbind_eq_Inr simp del: layer_forward.simps)
  from layer_forward_shape [OF l1] layer_forward_shape [OF l2]
  have "shape x2 = butlast (shape x) @ [b]" by simp
  with "2.IH" [OF r] show ?case by simp
qed simp_all

lemma MLP_shape:
  "mlp_forward (MLP sizes wt) x = Inr y \<Longrightarrow> 2 \<le> length sizes \<Longrightarrow>
   shape y = butlast (shape x) @ [last sizes]"
  unfolding MLP_def by (rule mlp_layers_shape)

lemma cat1_shape:
  assumes "cat1 ts = Inr y"
  shows "ts \<noteq> [] \<and> (\<forall>u \<in> set ts. 2 \<le> length (shape u))
         \<and> shape y = shape (hd ts) ! 0 # sum_list (map (\<lambda>u. shape u ! 1) ts) # drop 2 (shape (hd ts))"
  using assms by (cases ts) (auto simp: cat1_def Let_def split: if_splits)

lemma shape_narrow1 [simp]:
  "shape (narrow1 t off n) = shape t ! 0 # n # drop 2 (shape t)"
  by (simp add: narrow1_def Let_def)

lemma split1_three:
  assumes "split1 x [a, b, c] = Inr parts"
  shows "\<exists>k f1 f2. parts = [k, f1, f2]
           \<and> shape k = shape x ! 0 # a # drop 2 (shape x)
           \<and> shape f1 = shape x ! 0 # b # drop 2 (shape x)
           \<and> shape f2 = shape x ! 0 # c # drop 2 (shape x)"
  using assms by (auto simp: split1_def split: if_splits)

lemma shape_sigmoid [simp]: "shape (sigmoid t) = shape t"
  by (simp add: sigmoid_def)

lemma tmul_shape_col:
  "tmul a b = Inr y \<Longrightarrow> shape a = [n, w] \<Longrightarrow> shape b = [n, 1] \<Longrightarrow> shape y = [n, w]"
  by (auto simp: tmul_def bop_def broadcast_shapes_def split: option.splits if_splits)

lemma shape_index_rows [simp]: "shape (index_rows t ids) = length ids # tl (shape t)"
  by (simp add: index_rows_def)

lemma row_sz_index_rows [simp]: "row_sz (index_rows t ids) = row_sz t"
  by (simp add: row_sz_def)

lemma reduce_vals_Nil [simp]: "reduce_vals rf [] = 0"
  by (cases rf) simp_all

lemma shape_reduce_msgs [simp]: "shape (reduce_msgs rf dsts vs m) = length vs # tl (shape m)"
  by (simp add: reduce_msgs_def)

lemma row_reduce_msgs_isolated:
  assumes "r < length vs" "\<forall>k < length dsts. dsts ! k \<noteq> vs ! r"
  shows "row (reduce_msgs rf dsts vs m) r = replicate (row_sz m) 0"
proof -
  let ?w = "prod_list (tl (shape m))"
  from assms(2) have nil: "filter (\<lambda>k. dsts ! k = vs ! r) [0..<length dsts] = []"
    by (auto simp: filter_empty_conv)
  have "row (reduce_msgs rf dsts vs m) r =
          map (\<lambda>c. let v = vs ! ((r * ?w + c) div ?w); c' = (r * ?w + c) mod ?w in
                 reduce_vals rf (map (\<lambda>k. elt m (k * ?w + c'))
                                     (filter (\<lambda>k. dsts ! k = v) [0..<length dsts])))
              [0..<?w]"
    using assms(1) by (simp add: reduce_msgs_def row_mk row_sz_def)
  also have "\<dots> = map (\<lambda>c. 0) [0..<?w]"
    by (rule map_cong) (simp_all add: nil)
  finally show ?thesis by (simp add: map_replicate_const row_sz_def)
qed

section \<open>Which rows a stage writes\<close>

lemma keeps_refl [simp]: "keeps S k fr fr"
  by (simp add: keeps_def)

lemma keeps_trans: "keeps S1 k fr fr' \<Longrightarrow> keeps S2 k fr' fr'' \<Longrightarrow> keeps (S1 \<union> S2) k fr fr''"
  unfolding keeps_def by (metis UnI1 UnI2)

lemma keeps_mono: "keeps S k fr fr' \<Longrightarrow> S \<subseteq> S' \<Longrightarrow> keeps S' k fr fr'"
  unfolding keeps_def by (meson subsetD)

lemma keeps_same: "fr' k = fr k \<Longrightarrow> keeps S k fr fr'"
  by (simp add: keeps_def)

lemma update_rows_keeps:
  assumes "update_rows n fr ids k v = Inr fr'"
  shows "keeps (set ids) k' fr fr'"
proof (cases "k' = k")
  case False
  with assms have "fr' k' = fr k'"
    by (auto simp: update_rows_def Let_def split: if_splits)
  then show ?thesis by (rule keeps_same)
next
  case True
  show ?thesis
    unfolding keeps_def
  proof (intro allI impI)
    fix t assume t: "fr k' = Some t"
    with assms True have ok: "shape t \<noteq> []" and fr': "fr' = fr(k \<mapsto> scatter_row t ids v)"
      by (auto simp: update_rows_def Let_def split: if_splits)
    from ok fr' True
    show "\<exists>t'. fr' k' = Some t' \<and> shape t' = shape t
             \<and> (\<forall>r. r \<notin> set ids \<longrightarrow> r < hd (shape t) \<longrightarrow> row t' r = row t r)"
      by (simp add: row_scatter_row_other)
  qed
qed

lemma write_rows_keeps: "write_rows n fr ids kvs = Inr fr' \<Longrightarrow> keeps (set ids) k fr fr'"
proof (induction kvs arbitrary: fr)
  case Nil
  then show ?case by simp
next
  case (Cons kv kvs)
  obtain k0 v where kv: "kv = (k0, v)" by (cases kv)
  with Cons.prems obtain fr1 where
    a: "update_rows n fr ids k0 v = Inr fr1" and b: "write_rows n fr1 ids kvs = Inr fr'"
    by (auto simp: rbind_eq_Inr)
  from keeps_trans [OF update_rows_keeps [OF a] Cons.IH [OF b]] show ?case by simp
qed

lemma apply_nodes_keeps:
  "apply_nodes g f v = Inr g' \<Longrightarrow> keeps (set v) k (ndata g) (ndata g')"
  by (auto simp: apply_nodes_def rbind_eq_Inr split: if_splits dest: write_rows_keeps)

lemma apply_edges_ndata: "apply_edges g f es et = Inr g' \<Longrightarrow> ndata g' = ndata g"
  by (auto simp: apply_edges_def rbind_eq_Inr Let_def split: if_splits option.splits)

lemma pull_keeps: "pull g v mf rf et = Inr g' \<Longrightarrow> keeps (set v) k (ndata g) (ndata g')"
  by (auto simp: pull_def rbind_eq_Inr split: if_splits dest: update_rows_keeps)

lemma send_and_recv_other:
  "send_and_recv g es mf rf et = Inr g' \<Longrightarrow> k \<noteq> out_field rf \<Longrightarrow> ndata g' k = ndata g k"
  by (auto simp: send_and_recv_def rbind_eq_Inr update_rows_def Let_def split: if_splits)

lemma prop_net_keeps:
  "prop_net sp g nodes gt = Inr g' \<Longrightarrow> keeps (set nodes) k (ndata g) (ndata g')"
  unfolding prop_net_def by (rule pull_keeps)

lemma prop_cell_keeps:
  assumes "prop_cell sp g nodes gt = Inr g'"
  shows "keeps (set nodes) ''new_nf'' (ndata g) (ndata g')"
proof -
  from assms obtain es g1 g2 g3 where
    a: "apply_edges g (\<lambda>edges. edge_msg_cell sp edges gt) (Some es) (Some ''cell_out'') = Inr g1"
    and b: "send_and_recv g1 es (fn_copy_e ''efc1'' ''efc1'') (fn_sum ''efc1'' ''nfc1'')
              (Some ''cell_out'') = Inr g2"
    and c: "send_and_recv g2 es (fn_copy_e ''efc2'' ''efc2'') (fn_max ''efc2'' ''nfc2'')
              (Some ''cell_out'') = Inr g3"
    and d: "apply_nodes g3 (sp_node_reduce_o sp) nodes = Inr g'"
    unfolding prop_cell_def by (auto simp: rbind_eq_Inr)
  from apply_edges_ndata [OF a] send_and_recv_other [OF b, of "''new_nf''"]
    send_and_recv_other [OF c, of "''new_nf''"]
  have "ndata g3 ''new_nf'' = ndata g ''new_nf''" by simp
  then have "keeps {} ''new_nf'' (ndata g) (ndata g3)" by (rule keeps_same)
  from keeps_trans [OF this apply_nodes_keeps [OF d]] show ?thesis by simp
qed

lemma run_levels_keeps:
  "run_levels sp g lv = Inr g' \<Longrightarrow>
   keeps (\<Union>(i, nodes) \<in> set lv. set nodes) ''new_nf'' (ndata g) (ndata g')"
proof (induction lv arbitrary: g)
  case Nil
  then show ?case by simp
next
  case (Cons x lv)
  obtain i nodes where x: "x = (i, nodes)" by (cases x)
  with Cons.prems obtain g1 where
    a: "(if odd i then prop_net sp g nodes False else prop_cell sp g nodes False) = Inr g1"
    and b: "run_levels sp g1 lv = Inr g'"
    by (auto simp: rbind_eq_Inr)
  from a have "keeps (set nodes) ''new_nf'' (ndata g) (ndata g1)"
    by (auto split: if_splits dest: prop_net_keeps prop_cell_keeps)
  from keeps_trans [OF this Cons.IH [OF b]] show ?case by (simp add: x)
qed

lemma start_state:
  assumes "SignalProp_start sp ts nf g = Inr g1"
  shows "\<exists>t a. ndata g1 ''new_nf'' = Some t \<and> shape t = [num_nodes g, sp_out_nf sp]
           \<and> ndata g ''n_atslew'' = Some a
           \<and> (\<forall>u \<in> set (pi_nodes ts). u < num_nodes g)
           \<and> (\<forall>v < num_nodes g. row t v =
                 (if v \<in> set (pi_nodes ts) then row a v else replicate (sp_out_nf sp) 0))"
proof -
  let ?Z = "zeros [num_nodes g, sp_out_nf sp]"
  let ?g0 = "g\<lparr>ndata := (ndata g)(''nf'' \<mapsto> nf, ''new_nf'' \<mapsto> ?Z)\<rparr>"
  from assms have ap: "apply_nodes ?g0 node_skip_level_o (pi_nodes ts) = Inr g1"
    by (auto simp: SignalProp_start_def set_ndata_def set_column_def rbind_eq_Inr
        split: if_splits)
  then have inr: "\<forall>u \<in> set (pi_nodes ts). u < num_nodes g"
    by (auto simp: apply_nodes_def split: if_splits)
  from ap obtain a where a: "ndata g ''n_atslew'' = Some a"
    and upd: "update_rows (num_nodes g) (ndata ?g0) (pi_nodes ts) ''new_nf''
                (index_rows a (pi_nodes ts)) = Inr (ndata g1)"
    by (auto simp: apply_nodes_def node_skip_level_o_def getitem_def subframe_def rbind_eq_Inr
        split: if_splits option.splits)
  let ?v = "index_rows a (pi_nodes ts)"
  from upd have eq: "(ndata ?g0)(''new_nf'' \<mapsto> scatter_row ?Z (pi_nodes ts) ?v) = ndata g1"
    and w: "tl (shape ?v) = [sp_out_nf sp]"
    by (auto simp: update_rows_def Let_def zeros_def split: if_splits)
  have t: "ndata g1 ''new_nf'' = Some (scatter_row ?Z (pi_nodes ts) ?v)"
    unfolding eq [symmetric] by simp
  from w have rs: "row_sz ?v = row_sz ?Z" "row_sz a = sp_out_nf sp"
    by (simp_all add: row_sz_def zeros_def index_rows_def)
  have "row (scatter_row ?Z (pi_nodes ts) ?v) v =
          (if v \<in> set (pi_nodes ts) then row a v else replicate (sp_out_nf sp) 0)"
    if v: "v < num_nodes g" for v
  proof (cases "v \<in> set (pi_nodes ts)")
    case False
    with v have "row (scatter_row ?Z (pi_nodes ts) ?v) v = row ?Z v"
      by (intro row_scatter_row_other) (simp_all add: zeros_def)
    with v False show ?thesis by (simp add: row_zeros)
  next
    case True
    then obtain k where k: "index_of v (pi_nodes ts) = Some k" by (auto dest: index_of_mem)
    from index_of_Some [OF k] have kk: "k < length (pi_nodes ts)" "pi_nodes ts ! k = v" by auto
    have "row (scatter_row ?Z (pi_nodes ts) ?v) v = row ?v k"
      using v k rs by (intro row_scatter_row_at) (simp_all add: zeros_def)
    also have "\<dots> = row a v" using kk by (simp add: row_index_rows)
    finally show ?thesis using True by simp
  qed
  with t a inr show ?thesis by (simp add: zeros_def)
qed

lemma forward_rows:
  assumes fw: "SignalProp_forward sp g ts nf gt = (Inr (pred, delays), g')"
    and fr: "if gt then v \<notin> set (input_nodes ts) \<and> v \<notin> set (output_nodes_nonpi ts)
             else (\<forall>i. 1 \<le> i \<and> i < length (topo ts) \<longrightarrow> v \<notin> set (topo ts ! i))"
  shows "\<exists>a. ndata g ''n_atslew'' = Some a \<and> shape pred = [num_nodes g, sp_out_nf sp]
           \<and> (\<forall>u \<in> set (pi_nodes ts). u < num_nodes g)
           \<and> (v < num_nodes g \<longrightarrow>
                row pred v = (if v \<in> set (pi_nodes ts) then row a v
                              else replicate (sp_out_nf sp) 0))"
proof -
  from fw have "fst (SignalProp_forward sp g ts nf gt) = Inr (pred, delays)" by simp
  then have "returned (SignalProp_body sp ts nf gt g) = Inr (pred, delays)"
    by (simp add: SignalProp_forward_def fst_local_scope split: if_splits)
  then obtain g1 g2 where st: "SignalProp_start sp ts nf g = Inr g1"
    and run: "(if gt then rbind (prop_net sp g1 (input_nodes ts) gt)
                              (\<lambda>g. prop_cell sp g (output_nodes_nonpi ts) gt)
               else propagate sp g1 (topo ts) 1) = Inr g2"
    and res: "ndata g2 ''new_nf'' = Some pred"
    by (auto simp: returned_def SignalProp_body_def SignalProp_result_def rbind_eq_Inr
        getitem_def split: option.splits)
  from start_state [OF st] obtain t a where
    t: "ndata g1 ''new_nf'' = Some t" "shape t = [num_nodes g, sp_out_nf sp]"
    and a: "ndata g ''n_atslew'' = Some a"
    and inr: "\<forall>u \<in> set (pi_nodes ts). u < num_nodes g"
    and rows: "\<forall>v < num_nodes g. row t v =
                 (if v \<in> set (pi_nodes ts) then row a v else replicate (sp_out_nf sp) 0)"
    by blast
  have "\<exists>S. keeps S ''new_nf'' (ndata g1) (ndata g2) \<and> v \<notin> S"
  proof (cases gt)
    case True
    with run obtain gm where a1: "prop_net sp g1 (input_nodes ts) True = Inr gm"
      and a2: "prop_cell sp gm (output_nodes_nonpi ts) True = Inr g2"
      by (auto simp: rbind_eq_Inr)
    from keeps_trans [OF prop_net_keeps [OF a1] prop_cell_keeps [OF a2]] fr True
    show ?thesis by (intro exI [of _ "set (input_nodes ts) \<union> set (output_nodes_nonpi ts)"]) simp
  next
    case False
    with run have "run_levels sp g1 (levels_from 1 (topo ts)) = Inr g2"
      by (simp add: propagate_levels)
    from run_levels_keeps [OF this] fr False show ?thesis
      by (intro exI [of _ "\<Union>(i, nodes) \<in> set (levels_from 1 (topo ts)). set nodes"])
        (auto simp: levels_from_def)
  qed
  then obtain S where "keeps S ''new_nf'' (ndata g1) (ndata g2)" "v \<notin> S" by blast
  with t res have "shape pred = shape t" "v < num_nodes g \<longrightarrow> row pred v = row t v"
    by (auto simp: keeps_def)
  with t a inr rows show ?thesis by simp
qed

lemma forward_ex:
  "SignalProp_forward sp_ex g_ex ts_w nf_ex False
     = (Inr (Tensor [3, 1] [5, 0, 0], Tensor [1, 1] [0]), g_ex)"
  by (simp add: SignalProp_forward_def local_scope_def SignalProp_body_def SignalProp_start_def
      SignalProp_result_def propagate.simps prop_net_def pull_def ts_w_def
      set_ndata_def set_column_def g_ex_def nf_ex_def sp_ex_def SignalProp_init_def
      apply_nodes_def node_skip_level_o_def getitem_def subframe_def index_rows_def zeros_def
      mk_def update_rows_def scatter_row_def get_etype_def row_sz_def elt_def upt_conv_Cons)



section \<open>Aggregation in NetConv\<close>

lemma nc_edge_msg_o_shapes:
  assumes res: "nc_edge_msg_o (NetConv_init in_nf in_ef onf h1 h2 wts) eb = Inr res"
    and a: "src eb ''nf'' = Some a" "length (shape a) = 2"
  shows "\<exists>m1 m2. res = [(''efo1'', m1), (''efo2'', m2)]
           \<and> tl (shape m1) = [h1] \<and> tl (shape m2) = [h2]"
proof -
  let ?nc = "NetConv_init in_nf in_ef onf h1 h2 wts"
  from res a(1) obtain b c x y parts where
    x: "cat1 [a, b, c] = Inr x"
    and y: "mlp_forward (nc_MLP_msg_i2o ?nc) x = Inr y"
    and sp: "split1 y [1, h1, h2] = Inr parts"
    and rest: "(case parts of
       [k, f1, f2] \<Rightarrow>
         (let k = sigmoid k in
          rbind (tmul f1 k) (\<lambda>m1.
          rbind (tmul f2 k) (\<lambda>m2.
          Inr [(''efo1'', m1), (''efo2'', m2)])))
     | _ \<Rightarrow> Inl ValueError) = Inr res"
    unfolding nc_edge_msg_o_def
    by (auto simp: rbind_eq_Inr getitem_def NetConv_init_def split: option.splits)
  from cat1_shape [OF x] a(2) obtain s where sx: "shape x = [shape a ! 0, s]" by simp
  from y have y': "mlp_forward (MLP [in_nf * 2 + in_ef, 64, 64, 64, 1 + h1 + h2]
                                  (wts ''MLP_msg_i2o'')) x = Inr y"
    by (simp add: NetConv_init_def)
  from MLP_shape [OF y'] sx have sy: "shape y = [shape a ! 0, 1 + h1 + h2]" by simp
  from split1_three [OF sp] sy obtain k f1 f2 where
    p: "parts = [k, f1, f2]" and sk: "shape k = [shape a ! 0, 1]"
    and s1: "shape f1 = [shape a ! 0, h1]" and s2: "shape f2 = [shape a ! 0, h2]"
    by auto
  from rest p obtain m1 m2 where m1: "tmul f1 (sigmoid k) = Inr m1"
    and m2: "tmul f2 (sigmoid k) = Inr m2" and r: "res = [(''efo1'', m1), (''efo2'', m2)]"
    by (auto simp: Let_def rbind_eq_Inr)
  from tmul_shape_col [OF m1 s1] tmul_shape_col [OF m2 s2] sk r show ?thesis by simp
qed


lemma update_all_copy_e:
  assumes "update_all g (fn_copy_e e e') rf (Some et) = Inr g'" "msg_field rf = e'"
  shows "\<exists>m. edata g et e = Some m
           \<and> ndata g' = (ndata g)(out_field rf \<mapsto>
                 reduce_msgs rf (map (\<lambda>i. snd (elist g et ! i)) [0..<length (elist g et)])
                   [0..<num_nodes g] (index_rows m [0..<length (elist g et)]))
           \<and> edata g' = edata g \<and> num_nodes g' = num_nodes g \<and> elist g' = elist g"
  using assms
  by (auto simp: update_all_def message_passing_def messages_def edge_batch_of_def subframe_def
      getitem_def get_etype_def rbind_eq_Inr split: if_splits option.splits)

lemma apply_edges_all:
  assumes "apply_edges g f None (Some et) = Inr g'"
  shows "\<exists>res fr. f (edge_batch_of g et [0..<length (elist g et)]) = Inr res
           \<and> write_all (length (elist g et)) (edata g et) res = Inr fr
           \<and> g' = g\<lparr>edata := (edata g)(et := fr)\<rparr>"
  using assms
  by (auto simp: apply_edges_def get_etype_def rbind_eq_Inr Let_def split: if_splits)

lemma write_all_two:
  "write_all n fr [(k1, v1), (k2, v2)] = Inr fr' \<Longrightarrow> fr' = fr(k1 \<mapsto> v1, k2 \<mapsto> v2)"
  by (auto simp: rbind_eq_Inr set_column_def split: if_splits)

lemma isolated_aggregate:
  assumes agg: "NetConv_aggregate (NetConv_init in_nf in_ef onf h1 h2 wts) g nf = Inr s"
    and nf: "length (shape nf) = 2"
    and v: "v < num_nodes g"
    and iso: "\<forall>e \<in> set (elist g ''net_in''). snd e \<noteq> v"
  shows "\<exists>t1 t2. ndata s ''nfo1'' = Some t1 \<and> ndata s ''nfo2'' = Some t2
           \<and> hd (shape t1) = num_nodes g \<and> hd (shape t2) = num_nodes g
           \<and> row t1 v = replicate h1 0 \<and> row t2 v = replicate h2 0"
proof -
  let ?nc = "NetConv_init in_nf in_ef onf h1 h2 wts"
  from agg obtain g1 g2 g3 g4 where
    s1: "set_ndata g ''nf'' nf = Inr g1"
    and s2: "update_all g1 (UDF (nc_edge_msg_i ?nc)) (fn_sum ''efi'' ''new_nf'') (Some ''net_out'')
               = Inr g2"
    and s3: "apply_edges g2 (nc_edge_msg_o ?nc) None (Some ''net_in'') = Inr g3"
    and s4: "update_all g3 (fn_copy_e ''efo1'' ''efo1'') (fn_sum ''efo1'' ''nfo1'') (Some ''net_in'')
               = Inr g4"
    and s5: "update_all g4 (fn_copy_e ''efo2'' ''efo2'') (fn_max ''efo2'' ''nfo2'') (Some ''net_in'')
               = Inr s"
    unfolding NetConv_aggregate_def by (auto simp: rbind_eq_Inr)
  from s1 s2 have nf2: "ndata g2 ''nf'' = Some nf"
    by (auto simp: set_ndata_def set_column_def update_all_def rbind_eq_Inr split: if_splits)
  from frames_only_trans [OF set_ndata_frames [OF s1] update_all_frames [OF s2]]
  have st2: "num_nodes g2 = num_nodes g" "elist g2 = elist g"
    by (auto dest: frames_only_struct)
  let ?el = "elist g ''net_in''"
  let ?E = "length ?el"
  from apply_edges_all [OF s3] st2 obtain res fr where
    res: "nc_edge_msg_o ?nc (edge_batch_of g2 ''net_in'' [0..<?E]) = Inr res"
    and fr: "write_all ?E (edata g2 ''net_in'') res = Inr fr"
    and g3: "g3 = g2\<lparr>edata := (edata g2)(''net_in'' := fr)\<rparr>"
    by auto
  have "src (edge_batch_of g2 ''net_in'' [0..<?E]) ''nf''
          = Some (index_rows nf (map (\<lambda>e. fst (elist g2 ''net_in'' ! e)) [0..<?E]))"
    by (simp add: edge_batch_of_def subframe_def nf2)
  from nc_edge_msg_o_shapes [OF res this] nf obtain m1 m2 where
    r: "res = [(''efo1'', m1), (''efo2'', m2)]" and w1: "tl (shape m1) = [h1]"
    and w2: "tl (shape m2) = [h2]"
    by auto
  from write_all_two [OF fr [unfolded r]]
  have fr1: "fr ''efo1'' = Some m1" and fr2: "fr ''efo2'' = Some m2" by simp_all
  from g3 st2 have st3: "num_nodes g3 = num_nodes g" "elist g3 = elist g"
    "edata g3 ''net_in'' = fr"
    by simp_all
  let ?dsts = "map (\<lambda>i. snd (?el ! i)) [0..<?E]"
  let ?t1 = "reduce_msgs (fn_sum ''efo1'' ''nfo1'') ?dsts [0..<num_nodes g]
               (index_rows m1 [0..<?E])"
  let ?t2 = "reduce_msgs (fn_max ''efo2'' ''nfo2'') ?dsts [0..<num_nodes g]
               (index_rows m2 [0..<?E])"
  from update_all_copy_e [OF s4] st3 fr1
  have n4: "ndata g4 = (ndata g3)(''nfo1'' \<mapsto> ?t1)"
    and st4: "num_nodes g4 = num_nodes g" "elist g4 = elist g" "edata g4 = edata g3"
    by auto
  from update_all_copy_e [OF s5] st4 st3 fr2
  have n5: "ndata s = (ndata g4)(''nfo2'' \<mapsto> ?t2)"
    by auto
  from iso have d: "\<forall>k < length ?dsts. ?dsts ! k \<noteq> [0..<num_nodes g] ! v"
    using v by (auto simp: nth_mem)
  from v have "row ?t1 v = replicate (row_sz (index_rows m1 [0..<?E])) 0"
    by (intro row_reduce_msgs_isolated d) simp
  moreover from v have "row ?t2 v = replicate (row_sz (index_rows m2 [0..<?E])) 0"
    by (intro row_reduce_msgs_isolated d) simp
  ultimately have "row ?t1 v = replicate h1 0" "row ?t2 v = replicate h2 0"
    using w1 w2 by (simp_all add: row_sz_def)
  with n4 n5 show ?thesis by simp
qed

lemma aggregate_ex: "\<exists>s. NetConv_aggregate (NetConv_init 1 1 1 1 1 (\<lambda>_. w_zero)) g_ex nf_ex = Inr s"
  by (simp add: NetConv_aggregate_def NetConv_init_def g_ex_def nf_ex_def
      set_ndata_def set_column_def update_all_def get_etype_def message_passing_def messages_def
      edge_batch_of_def subframe_def getitem_def nc_edge_msg_i_def nc_edge_msg_o_def
      cat1_def Let_def MLP_def apply_edges_def split1_def tmul_def bop_def broadcast_shapes_def)


section \<open>The table lookup\<close>

lemma reshape_infer3:
  "reshape t [Infer, D a, D b] =
     (if a * b = 0 \<or> prod_list (shape t) mod (a * b) \<noteq> 0 then Inl RuntimeError
      else Inr (Tensor [prod_list (shape t) div (a * b), a, b] (vals t)))"
  by (simp add: reshape_def)

lemma reshape_infer4:
  "reshape t [Infer, D a, D b, D c] =
     (if a * (b * c) = 0 \<or> prod_list (shape t) mod (a * (b * c)) \<noteq> 0 then Inl RuntimeError
      else Inr (Tensor [prod_list (shape t) div (a * (b * c)), a, b, c] (vals t)))"
  by (simp add: reshape_def)

lemma reshape_fixed2:
  "reshape t [D a, D b] =
     (if a * b \<noteq> prod_list (shape t) then Inl RuntimeError else Inr (Tensor [a, b] (vals t)))"
  by (simp add: reshape_def)

lemma elt_Tensor [simp]: "elt (Tensor s v) i = v ! i"
  by (simp add: elt_def)

lemma vals_elt: "vals t ! i = elt t i"
  by (simp add: elt_def)

lemma broadcast_same1 [simp]: "broadcast_shapes [n] [n] = Some [n]"
  by (simp add: broadcast_shapes_def)

lemma broadcast_2: 
  "broadcast_shapes [t, Suc 0] [q, 4] =
     (if t = q \<or> q = 1 then Some [t, 4] else if t = 1 then Some [q, 4] else None)"
  by (simp add: broadcast_shapes_def)

lemma matmul_outer:
  assumes "shape x = [r, n, Suc 0]" "shape y = [r, Suc 0, n]"
  shows "matmul x y = Inr (mk [r, n, n]
           (\<lambda>i. elt x (bc_offset [r] [i div (n * n)] * n + (i mod (n * n)) div n)
               * elt y (bc_offset [r] [i div (n * n)] * n + i mod n)))"
  using assms by (simp add: matmul_def Let_def)

lemma matmul_dot:
  assumes "shape x = [t, Suc 0, Suc 0, m]" "shape y = [q, 4, m, Suc 0]"
  shows "matmul x y =
     (case broadcast_shapes [t, Suc 0] [q, 4] of
        None \<Rightarrow> Inl RuntimeError
      | Some bo \<Rightarrow> Inr (mk (bo @ [Suc 0, Suc 0])
          (\<lambda>i. sum_list (map (\<lambda>k. elt x (bc_offset [t, Suc 0] (unravel bo i) * m + k)
                                 * elt y (bc_offset [q, 4] (unravel bo i) * m + k)) [0..<m]))))"
  using assms by (simp add: matmul_def Let_def split: option.splits)


lemma shape_split_two:
  "length (shape t) \<ge> 2 \<Longrightarrow> shape t ! 1 = 2 \<Longrightarrow>
   split1 t [Suc 0, Suc 0] = Inr [narrow1 t 0 (Suc 0), narrow1 t (Suc 0) (Suc 0)]"
  by (simp add: split1_def)

lemma slice_cols_in_range:
  "shape t = [n, w] \<Longrightarrow> a + b \<le> w \<Longrightarrow> slice_cols t a (a + b) = Inr (narrow1 t a b)"
  by (simp add: slice_cols_def Let_def min_def max_def)


lemma mk_cong: "(\<And>i. i < prod_list sh \<Longrightarrow> f i = g i) \<Longrightarrow> mk sh f = mk sh g"
  by (simp add: mk_def)

lemma Tensor_vals_mk: "prod_list sh' = prod_list sh \<Longrightarrow> Tensor sh' (vals (mk sh f)) = mk sh' f"
  by (simp add: mk_def)

lemma bc_offset_single: "b < r \<Longrightarrow> bc_offset [r] [b] = b"
  by (simp add: bc_offset_def)

lemma div_mult_lt: "i < r * (n::nat) \<Longrightarrow> i div n < r"
  by (simp add: less_mult_imp_div_less)

lemma attention_matrix_eq:
  assumes a: "shape a = [R, 2 * sz]" and sz: "0 < sz"
  shows "matmul (Tensor [R, sz, Suc 0] (vals (narrow1 (Tensor [R, 2, sz] (vals a)) 0 (Suc 0))))
                (Tensor [R, Suc 0, sz] (vals (narrow1 (Tensor [R, 2, sz] (vals a)) (Suc 0) (Suc 0))))
         = Inr (attention_matrix sz a)"
proof -
  let ?a3 = "Tensor [R, 2, sz] (vals a)"
  have nx: "vals (narrow1 ?a3 0 (Suc 0)) ! j = elt a ((j div sz) * (2 * sz) + j mod sz)"
    if "j < R * sz" for j
    using that by (simp add: narrow1_def Let_def mk_def elt_def)
  have ny: "vals (narrow1 ?a3 (Suc 0) (Suc 0)) ! j = elt a ((j div sz) * (2 * sz) + sz + j mod sz)"
    if "j < R * sz" for j
    using that by (simp add: narrow1_def Let_def mk_def elt_def)
  let ?X = "Tensor [R, sz, Suc 0] (vals (narrow1 ?a3 0 (Suc 0)))"
  let ?Y = "Tensor [R, Suc 0, sz] (vals (narrow1 ?a3 (Suc 0) (Suc 0)))"
  let ?F = "\<lambda>i. elt ?X (bc_offset [R] [i div (sz * sz)] * sz + (i mod (sz * sz)) div sz)
               * elt ?Y (bc_offset [R] [i div (sz * sz)] * sz + i mod sz)"
  let ?G = "\<lambda>i. elt a ((i div (sz * sz)) * (2 * sz) + (i mod (sz * sz)) div sz)
               * elt a ((i div (sz * sz)) * (2 * sz) + sz + i mod sz)"
  have m: "matmul ?X ?Y = Inr (mk [R, sz, sz] ?F)"
    by (rule matmul_outer) simp_all
  have "mk [R, sz, sz] ?F = mk [R, sz, sz] ?G"
  proof (rule mk_cong)
    fix i assume "i < prod_list [R, sz, sz]"
    then have i: "i < R * (sz * sz)" by simp
    then have b: "i div (sz * sz) < R" by (rule div_mult_lt)
    from sz have x: "i mod (sz * sz) div sz < sz"
      by (simp add: less_mult_imp_div_less)
    from sz have y: "i mod sz < sz" by simp
    let ?b = "i div (sz * sz)"
    from b x have jx: "?b * sz + i mod (sz * sz) div sz < R * sz" by (rule idx_lt)
    from b y have jy: "?b * sz + i mod sz < R * sz" by (rule idx_lt)
    show "?F i = ?G i"
      using x y by (simp add: bc_offset_single [OF b] nx [OF jx] ny [OF jy])
  qed
  moreover have "attention_matrix sz a = mk [R, sz, sz] ?G"
    by (simp add: attention_matrix_def a)
  ultimately show ?thesis using m by simp
qed

lemma value_grids_eq:
  assumes ef: "shape ef = [E, Wd]" and sz: "0 < sp_in_cell_lut_sz sp"
  shows "Tensor [E * sp_in_cell_num_luts sp, Suc 0, Suc 0, sp_in_cell_lut_sz sp * sp_in_cell_lut_sz sp]
           (vals (narrow1 ef (axis_len sp) (tables_len sp)))
         = value_grids sp ef"
  using assms
  by (simp add: value_grids_def narrow1_def Let_def Tensor_vals_mk tables_len_def power2_eq_square
      mult.assoc)

lemma lut_lookup_form:
  assumes a: "shape a = [R, 2 * sp_in_cell_lut_sz sp]" and sz: "0 < sp_in_cell_lut_sz sp"
    and ef: "data edges ''ef'' = Some ef" "shape ef = [E, Wd]"
    and wd: "axis_len sp + tables_len sp \<le> Wd"
  shows "lut_lookup sp edges a =
     rbind (reshape (attention_matrix (sp_in_cell_lut_sz sp) a)
              [Infer, D 4, D (sp_in_cell_lut_sz sp ^ 2), D 1]) (\<lambda>a4.
     rbind (matmul (value_grids sp ef) a4) (\<lambda>r.
     reshape r [D (len edges), D (sp_in_cell_num_luts sp * sp_lut_dup sp)]))"
proof -
  let ?sz = "sp_in_cell_lut_sz sp"
  have e1: "reshape a [Infer, D 2, D ?sz] = Inr (Tensor [R, 2, ?sz] (vals a))"
    using a sz by (simp add: reshape_infer3)
  have e2: "split1 (Tensor [R, 2, ?sz] (vals a)) [1, 1]
              = Inr [narrow1 (Tensor [R, 2, ?sz] (vals a)) 0 (Suc 0),
                     narrow1 (Tensor [R, 2, ?sz] (vals a)) (Suc 0) (Suc 0)]"
    by (simp add: split1_def)
  have e3: "reshape (narrow1 (Tensor [R, 2, ?sz] (vals a)) 0 (Suc 0)) [Infer, D ?sz, D 1]
              = Inr (Tensor [R, ?sz, Suc 0] (vals (narrow1 (Tensor [R, 2, ?sz] (vals a)) 0 (Suc 0))))"
    using sz by (simp add: reshape_infer3)
  have e4: "reshape (narrow1 (Tensor [R, 2, ?sz] (vals a)) (Suc 0) (Suc 0)) [Infer, D 1, D ?sz]
              = Inr (Tensor [R, Suc 0, ?sz]
                      (vals (narrow1 (Tensor [R, 2, ?sz] (vals a)) (Suc 0) (Suc 0))))"
    using sz by (simp add: reshape_infer3)
  have e6: "slice_cols ef (axis_len sp) (axis_len sp + tables_len sp)
              = Inr (narrow1 ef (axis_len sp) (tables_len sp))"
    using ef(2) wd by (rule slice_cols_in_range)
  have e7: "reshape (narrow1 ef (axis_len sp) (tables_len sp)) [Infer, D 1, D 1, D (?sz ^ 2)]
              = Inr (value_grids sp ef)"
    using sz ef(2)
    by (simp add: reshape_infer4 value_grids_eq [OF ef(2) sz, symmetric] tables_len_def
        power2_eq_square)
  show ?thesis
    unfolding lut_lookup_def Let_def e1 rbind_Inr e2 list.case e3 e4
      attention_matrix_eq [OF a sz] getitem_def ef(1) option.case e6 e7
    by (rule refl)
qed

lemma shape_attention_matrix [simp]: "shape (attention_matrix sz a) = [hd (shape a), sz, sz]"
  by (simp add: attention_matrix_def)

lemma shape_value_grids [simp]:
  "shape (value_grids sp ef) =
     [hd (shape ef) * sp_in_cell_num_luts sp, 1, 1, sp_in_cell_lut_sz sp ^ 2]"
  by (simp add: value_grids_def)

lemma unravel_two: "unravel [b, 4] i = [i div 4, i mod 4]"
  by simp

lemma lin_index: "e < E \<Longrightarrow> l < L \<Longrightarrow> e * L + l < E * (L::nat)"
  by (rule idx_lt)

lemma lut_lookup_parts:
  assumes look: "lut_lookup sp edges a = Inr r"
    and a: "shape a = [R, 2 * sp_in_cell_lut_sz sp]" and sz: "0 < sp_in_cell_lut_sz sp"
    and ef: "data edges ''ef'' = Some ef" "shape ef = [E, Wd]"
    and wd: "axis_len sp + tables_len sp \<le> Wd"
  shows "\<exists>bo. R mod 4 = 0
           \<and> broadcast_shapes [E * sp_in_cell_num_luts sp, Suc 0] [R div 4, 4] = Some bo
           \<and> len edges * (sp_in_cell_num_luts sp * sp_lut_dup sp) = hd bo * 4
           \<and> r = Tensor [len edges, sp_in_cell_num_luts sp * sp_lut_dup sp]
                 (vals (mk (bo @ [Suc 0, Suc 0])
                    (\<lambda>i. sum_list (map (\<lambda>k.
                          elt (value_grids sp ef)
                              (bc_offset [E * sp_in_cell_num_luts sp, Suc 0] (unravel bo i)
                                 * (sp_in_cell_lut_sz sp * sp_in_cell_lut_sz sp) + k)
                        * elt (attention_matrix (sp_in_cell_lut_sz sp) a)
                              (bc_offset [R div 4, 4] (unravel bo i)
                                 * (sp_in_cell_lut_sz sp * sp_in_cell_lut_sz sp) + k))
                      [0..<sp_in_cell_lut_sz sp * sp_in_cell_lut_sz sp]))))"
proof -
  let ?sz = "sp_in_cell_lut_sz sp"
  let ?L = "sp_in_cell_num_luts sp"
  from look [unfolded lut_lookup_form [OF a sz ef wd]] obtain a4 M where
    r1: "reshape (attention_matrix ?sz a) [Infer, D 4, D (?sz ^ 2), D 1] = Inr a4"
    and r2: "matmul (value_grids sp ef) a4 = Inr M"
    and r3: "reshape M [D (len edges), D (?L * sp_lut_dup sp)] = Inr r"
    by (auto simp: rbind_eq_Inr)
  from r1 a sz have c4: "R mod 4 = 0"
    and a4: "a4 = Tensor [R div 4, 4, ?sz * ?sz, Suc 0] (vals (attention_matrix ?sz a))"
    by (auto simp: reshape_infer4 power2_eq_square split: if_splits)
  have sv: "shape (value_grids sp ef) = [E * ?L, Suc 0, Suc 0, ?sz * ?sz]"
    using ef(2) by (simp add: power2_eq_square)
  have s4: "shape a4 = [R div 4, 4, ?sz * ?sz, Suc 0]" by (simp add: a4)
  from r2 [unfolded matmul_dot [OF sv s4]] obtain bo where
    bo: "broadcast_shapes [E * ?L, Suc 0] [R div 4, 4] = Some bo"
    and M: "M = mk (bo @ [Suc 0, Suc 0])
          (\<lambda>i. sum_list (map (\<lambda>k. elt (value_grids sp ef)
                                     (bc_offset [E * ?L, Suc 0] (unravel bo i) * (?sz * ?sz) + k)
                                 * elt a4 (bc_offset [R div 4, 4] (unravel bo i) * (?sz * ?sz) + k))
                          [0..<?sz * ?sz]))"
    by (auto split: option.splits)
  from bo have bo2: "\<exists>b. bo = [b, 4]"
    by (auto simp: broadcast_2 split: if_splits)
  from r3 M bo2 have cnt: "len edges * (?L * sp_lut_dup sp) = hd bo * 4"
    and r: "r = Tensor [len edges, ?L * sp_lut_dup sp] (vals M)"
    by (auto simp: reshape_fixed2 split: if_splits)
  have "elt a4 j = elt (attention_matrix ?sz a) j" for j
    by (simp add: a4 elt_def)
  with c4 bo cnt r M show ?thesis by simp
qed


lemma split_index:
  assumes "l < L" "k < (n::nat)"
  shows "((e * L + l) * n + k) div (L * n) = e" "((e * L + l) * n + k) mod (L * n) = l * n + k"
proof -
  have eq: "(e * L + l) * n + k = e * (L * n) + (l * n + k)"
    by (simp add: algebra_simps)
  from assms have lt: "l * n + k < L * n" by (rule idx_lt)
  show "((e * L + l) * n + k) div (L * n) = e" unfolding eq by (rule idx_div [OF lt])
  show "((e * L + l) * n + k) mod (L * n) = l * n + k" unfolding eq by (rule idx_mod [OF lt])
qed

lemma mod_square: "(i * (s * s) + k) mod s = k mod (s::nat)"
proof -
  have "i * (s * s) + k = (i * s) * s + k" by simp
  then show ?thesis by (metis mod_mult_self3)
qed

lemma elt_value_grids:
  assumes ef: "shape ef = [E, Wd]" and idx: "e < E" "l < sp_in_cell_num_luts sp"
    and k: "k < sp_in_cell_lut_sz sp * sp_in_cell_lut_sz sp"
  shows "elt (value_grids sp ef)
           ((e * sp_in_cell_num_luts sp + l) * (sp_in_cell_lut_sz sp * sp_in_cell_lut_sz sp) + k)
         = elt ef (e * Wd + axis_len sp + l * (sp_in_cell_lut_sz sp * sp_in_cell_lut_sz sp) + k)"
proof -
  let ?L = "sp_in_cell_num_luts sp"
  let ?n = "sp_in_cell_lut_sz sp * sp_in_cell_lut_sz sp"
  from idx have "e * ?L + l < E * ?L" by (rule idx_lt)
  from idx_lt [OF this k] ef
  have "(e * ?L + l) * ?n + k
          < prod_list [hd (shape ef) * ?L, 1, 1, sp_in_cell_lut_sz sp ^ 2]"
    by (simp add: power2_eq_square)
  then show ?thesis
    unfolding value_grids_def
    by (simp only: elt_mk)
      (simp add: tables_len_def power2_eq_square split_index [OF idx(2) k] ef add.assoc)
qed

lemma elt_attention_matrix:
  assumes a: "shape a = [R, 2 * sz]" and i: "i < R" and k: "k < sz * sz"
  shows "elt (attention_matrix sz a) (i * (sz * sz) + k)
         = elt a (i * (2 * sz) + k div sz) * elt a (i * (2 * sz) + sz + k mod sz)"
proof -
  from idx_lt [OF i k] a have "i * (sz * sz) + k < prod_list [hd (shape a), sz, sz]" by simp
  then show ?thesis
    unfolding attention_matrix_def
    using k by (simp only: elt_mk) (simp add: idx_div [OF k] idx_mod [OF k] mod_square)
qed


lemma bc_offset_pair1_one: "t = Suc 0 \<Longrightarrow> bc_offset [t, Suc 0] [x, y] = 0"
  by (simp add: bc_offset_def)

lemma bc_offset_pair1_other: "t \<noteq> Suc 0 \<Longrightarrow> bc_offset [t, Suc 0] [x, y] = x"
  by (simp add: bc_offset_def)

lemma bc_offset_pair4_one: "q = Suc 0 \<Longrightarrow> bc_offset [q, 4] [x, y] = y"
  by (simp add: bc_offset_def)

lemma bc_offset_pair4_other: "q \<noteq> Suc 0 \<Longrightarrow> bc_offset [q, 4] [x, y] = x * 4 + y"
  by (simp add: bc_offset_def)

lemma lut_lookup_value:
  assumes look: "lut_lookup sp edges a = Inr r"
    and a: "shape a = [len edges * (sp_in_cell_num_luts sp * sp_lut_dup sp),
                       2 * sp_in_cell_lut_sz sp]"
    and sz: "0 < sp_in_cell_lut_sz sp"
    and ef: "data edges ''ef'' = Some ef" "shape ef = [len edges, Wd]"
    and wd: "axis_len sp + tables_len sp \<le> Wd"
    and idx: "e < len edges" "l < sp_in_cell_num_luts sp" "d < sp_lut_dup sp"
  shows "elt r (e * (sp_in_cell_num_luts sp * sp_lut_dup sp) + l * sp_lut_dup sp + d) =
     sum_list (map (\<lambda>k.
         elt ef (e * Wd + axis_len sp + l * (sp_in_cell_lut_sz sp * sp_in_cell_lut_sz sp) + k)
       * (elt a ((e * (sp_in_cell_num_luts sp * sp_lut_dup sp) + l * sp_lut_dup sp + d)
                   * (2 * sp_in_cell_lut_sz sp) + k div sp_in_cell_lut_sz sp)
        * elt a ((e * (sp_in_cell_num_luts sp * sp_lut_dup sp) + l * sp_lut_dup sp + d)
                   * (2 * sp_in_cell_lut_sz sp) + sp_in_cell_lut_sz sp
                   + k mod sp_in_cell_lut_sz sp)))
       [0..<sp_in_cell_lut_sz sp * sp_in_cell_lut_sz sp])"
proof -
  let ?sz = "sp_in_cell_lut_sz sp"
  let ?L = "sp_in_cell_num_luts sp"
  let ?Dp = "sp_lut_dup sp"
  let ?E = "len edges"
  let ?R = "?E * (?L * ?Dp)"
  let ?T = "?E * ?L"
  let ?Q = "?R div 4"
  let ?i = "e * (?L * ?Dp) + l * ?Dp + d"
  let ?p = "e * ?L + l"
  let ?n = "?sz * ?sz"
  let ?H = "\<lambda>bo i. sum_list (map (\<lambda>k.
                elt (value_grids sp ef) (bc_offset [?T, Suc 0] (unravel bo i) * ?n + k)
              * elt (attention_matrix ?sz a) (bc_offset [?Q, 4] (unravel bo i) * ?n + k))
              [0..<?n])"
  from lut_lookup_parts [OF look a sz ef wd] obtain bo where
    c4: "?R mod 4 = 0"
    and bo: "broadcast_shapes [?T, Suc 0] [?Q, 4] = Some bo"
    and cnt: "?R = hd bo * 4"
    and r: "r = Tensor [?E, ?L * ?Dp] (vals (mk (bo @ [Suc 0, Suc 0]) (?H bo)))"
    by (elim exE conjE) (rule that)
  from bo obtain b where b: "bo = [b, 4]"
    by (auto simp: broadcast_2 split: if_splits)
  from idx(2,3) have "l * ?Dp + d < ?L * ?Dp" by (rule idx_lt)
  from idx_lt [OF idx(1) this] have iR: "?i < ?R" by (simp add: add.assoc)
  from idx(1,2) have pT: "?p < ?T" by (rule idx_lt)
  from c4 have R4: "?R = 4 * ?Q" by presburger
  have ip: "?i = ?p * ?Dp + d" by (simp add: algebra_simps)
  have RT: "?R = ?T * ?Dp" by simp
  from r b cnt iR have "elt r ?i = ?H bo ?i"
    by (simp add: mk_def elt_def)
  also have "unravel bo ?i = [?i div 4, ?i mod 4]"
    by (simp add: b)
  finally have step: "elt r ?i = sum_list (map (\<lambda>k.
                elt (value_grids sp ef) (bc_offset [?T, Suc 0] [?i div 4, ?i mod 4] * ?n + k)
              * elt (attention_matrix ?sz a) (bc_offset [?Q, 4] [?i div 4, ?i mod 4] * ?n + k))
              [0..<?n])" .
  have oa: "bc_offset [?T, Suc 0] [?i div 4, ?i mod 4] = ?p"
  proof (cases "?T = Suc 0")
    case True
    with pT have "?p = 0" by (simp only: less_Suc0)
    then show ?thesis unfolding bc_offset_pair1_one [OF True] by (rule sym)
  next
    case False
    with bo b have "b = ?T" by (auto simp: broadcast_2 split: if_splits)
    with cnt b RT have "?T * ?Dp = ?T * 4" by simp
    with pT have "?Dp = 4" by auto
    with ip idx(3) have "?i div 4 = ?p" by simp
    then show ?thesis unfolding bc_offset_pair1_other [OF False] .
  qed
  have ob: "bc_offset [?Q, 4] [?i div 4, ?i mod 4] = ?i"
  proof (cases "?Q = Suc 0")
    case True
    with R4 iR have "?i < 4" by (simp only: mult_Suc_right mult_0_right add_0_right)
    then show ?thesis unfolding bc_offset_pair4_one [OF True] by (rule mod_less)
  next
    case False
    show ?thesis unfolding bc_offset_pair4_other [OF False] by (rule div_mult_mod_eq)
  qed
  have "elt (value_grids sp ef) (?p * ?n + k) * elt (attention_matrix ?sz a) (?i * ?n + k)
        = elt ef (e * Wd + axis_len sp + l * ?n + k)
          * (elt a (?i * (2 * ?sz) + k div ?sz) * elt a (?i * (2 * ?sz) + ?sz + k mod ?sz))"
    if "k < ?n" for k
    by (simp only: elt_value_grids [OF ef(2) idx(1,2) that] elt_attention_matrix [OF a iR that])
  then have "map (\<lambda>k. elt (value_grids sp ef) (?p * ?n + k)
                    * elt (attention_matrix ?sz a) (?i * ?n + k)) [0..<?n]
        = map (\<lambda>k. elt ef (e * Wd + axis_len sp + l * ?n + k)
          * (elt a (?i * (2 * ?sz) + k div ?sz) * elt a (?i * (2 * ?sz) + ?sz + k mod ?sz)))
          [0..<?n]"
    by (intro map_cong refl) simp
  with step show ?thesis unfolding oa ob by simp
qed

lemma onehot_index:
  assumes "x < s" "y < (s::nat)"
  shows "(k div s = x \<and> k mod s = y) \<longleftrightarrow> k = x * s + y"
proof
  assume h: "k div s = x \<and> k mod s = y"
  have "k div s * s + k mod s = k" by simp
  with h show "k = x * s + y" by auto
next
  assume "k = x * s + y"
  with assms show "k div s = x \<and> k mod s = y" by (simp add: idx_div idx_mod)
qed

lemma delta_sum_list:
  fixes g :: "nat \<Rightarrow> real"
  shows "c < n \<Longrightarrow> sum_list (map (\<lambda>k. if k = c then g k else 0) [0..<n]) = g c"
  by (simp add: interv_sum_list_conv_sum_set_nat)

lemma onehot_sum:
  fixes g :: "nat \<Rightarrow> real"
  assumes x: "x < s" and y: "y < s"
  shows "sum_list (map (\<lambda>k. g k * ((if k div s = x then 1 else 0) * (if k mod s = y then 1 else 0)))
           [0..<s * s]) = g (x * s + y)"
proof -
  have eq: "g k * ((if k div s = x then 1 else 0) * (if k mod s = y then 1 else 0))
          = (if k = x * s + y then g k else 0)" for k
  proof (cases "k div s = x \<and> k mod s = y")
    case True
    moreover from True have "k = x * s + y" using onehot_index [OF x y, of k] by blast
    ultimately show ?thesis by simp
  next
    case False
    moreover from False have "k \<noteq> x * s + y" using onehot_index [OF x y, of k] by blast
    ultimately show ?thesis by auto
  qed
  from x y have "x * s + y < s * s" by (rule idx_lt)
  then show ?thesis unfolding eq by (rule delta_sum_list)
qed

lemma reshape_infer2:
  "reshape t [Infer, D b] =
     (if b = 0 \<or> prod_list (shape t) mod b \<noteq> 0 then Inl RuntimeError
      else Inr (Tensor [prod_list (shape t) div b, b] (vals t)))"
  by (simp add: reshape_def)

lemma lut_attention_shape:
  assumes att: "lut_attention (SignalProp_init in_nf L sz onf ocef h1 h2 Dp wts) edges gt
                  = Inr (last_nf, a)"
    and ln: "shape last_nf = [E, w]"
  shows "shape a = [E * (L * Dp), 2 * sz]"
proof -
  let ?sp = "SignalProp_init in_nf L sz onf ocef h1 h2 Dp wts"
  from att obtain snf dnf q0 q1 q2 axis qa where
    q0: "cat1 [last_nf, snf, dnf] = Inr q0"
    and q1: "mlp_forward (sp_MLP_lut_query ?sp) q0 = Inr q1"
    and q2: "reshape q1 [Infer, D 2] = Inr q2"
    and qa: "cat1 [q2, axis] = Inr qa"
    and a: "mlp_forward (sp_MLP_lut_attention ?sp) qa = Inr a"
    unfolding lut_attention_def by (auto simp: rbind_eq_Inr split: if_splits)
  from cat1_shape [OF q0] ln obtain s where s0: "shape q0 = [E, s]" by simp
  from q1 have "mlp_forward (MLP [onf + 2 * in_nf, 64, 64, 64, L * Dp * 2] (wts ''MLP_lut_query'')) q0
                  = Inr q1"
    by (simp add: SignalProp_init_def)
  from MLP_shape [OF this] s0 have s1: "shape q1 = [E, L * Dp * 2]" by simp
  from q2 s1 have s2: "shape q2 = [E * (L * Dp), 2]"
    by (auto simp: reshape_infer2 mult.assoc split: if_splits)
  from cat1_shape [OF qa] s2 obtain s' where sa: "shape qa = [E * (L * Dp), s']" by simp
  from a have "mlp_forward (MLP [1 + 2 + sz * 2, 64, 64, 64, sz * 2] (wts ''MLP_lut_attention'')) qa
                 = Inr a"
    by (simp add: SignalProp_init_def)
  from MLP_shape [OF this] sa show ?thesis by (simp add: mult.commute)
qed

lemma lut_lookup_fails:
  assumes a: "shape a = [R, 2 * sp_in_cell_lut_sz sp]" and sz: "0 < sp_in_cell_lut_sz sp"
    and ef: "data edges ''ef'' = Some ef" "shape ef = [E, Wd]"
    and wd: "axis_len sp + tables_len sp \<le> Wd"
    and R: "R mod 4 \<noteq> 0"
  shows "lut_lookup sp edges a = Inl RuntimeError"
  unfolding lut_lookup_form [OF a sz ef wd]
  using a sz R by (simp add: reshape_infer4 power2_eq_square)

lemma lut_lookup_dup4:
  assumes a: "shape a = [len edges * (sp_in_cell_num_luts sp * 4), 2 * sp_in_cell_lut_sz sp]"
    and sz: "0 < sp_in_cell_lut_sz sp" and dup: "sp_lut_dup sp = 4"
    and ef: "data edges ''ef'' = Some ef" "shape ef = [len edges, Wd]"
    and wd: "axis_len sp + tables_len sp \<le> Wd"
  shows "\<exists>r. lut_lookup sp edges a = Inr r
           \<and> shape r = [len edges, sp_in_cell_num_luts sp * sp_lut_dup sp]"
proof -
  let ?sz = "sp_in_cell_lut_sz sp"
  let ?T = "len edges * sp_in_cell_num_luts sp"
  let ?A4 = "Tensor [?T, 4, ?sz * ?sz, Suc 0] (vals (attention_matrix ?sz a))"
  have r1: "reshape (attention_matrix ?sz a) [Infer, D 4, D (?sz ^ 2), D 1] = Inr ?A4"
    using a sz by (simp add: reshape_infer4 power2_eq_square mult.assoc)
  have sv: "shape (value_grids sp ef) = [?T, Suc 0, Suc 0, ?sz * ?sz]"
    using ef(2) by (simp add: power2_eq_square)
  have s4: "shape ?A4 = [?T, 4, ?sz * ?sz, Suc 0]" by simp
  have bs: "broadcast_shapes [?T, Suc 0] [?T, 4] = Some [?T, 4]"
    by (simp only: broadcast_2 simp_thms if_True)
  from matmul_dot [OF sv s4] obtain H where
    m: "matmul (value_grids sp ef) ?A4 = Inr (mk [?T, 4, Suc 0, Suc 0] H)"
    unfolding bs by simp
  have r3: "reshape (mk [?T, 4, Suc 0, Suc 0] H) [D (len edges), D (sp_in_cell_num_luts sp * 4)]
              = Inr (Tensor [len edges, sp_in_cell_num_luts sp * 4]
                      (vals (mk [?T, 4, Suc 0, Suc 0] H)))"
    by (simp add: reshape_fixed2 mult.assoc)
  show ?thesis
    unfolding lut_lookup_form [OF a sz ef wd] r1 rbind_Inr m dup r3 by simp
qed


lemmas att_eval = lut_attention_def SignalProp_init_def eb_one_def ef_one_def getitem_def
  cat1_def MLP_def reshape_infer2 slice_cols_def repeat_def axis_len_def Let_def

lemma att_hot:
  "\<exists>a. lut_attention sp_hot eb_one False = Inr (Tensor [1, 1] [5], a)
       \<and> (\<forall>j < 16. elt a j = (if j mod 4 = 0 \<or> j mod 4 = 3 then 1 else 0))"
  by (simp add: att_eval sp_hot_def w_hot_def elt_mk)

lemma att_dup2:
  "\<exists>a. lut_attention sp_dup2 eb_one False = Inr (Tensor [1, 1] [5], a) \<and> shape a = [2, 4]"
  by (simp add: att_eval sp_dup2_def w_zero_def)

section \<open>A primary input in a later level\<close>

lemma upt_3: "[0..<3] = [0, 1, 2]"
  by (simp add: upt_conv_Cons)

lemma start_pi_twice: "SignalProp_start sp_ex ts_pi_twice nf_ex g_ex = Inr g_pi_start"
  by (simp add: SignalProp_start_def ts_pi_twice_def g_pi_start_def
      set_ndata_def set_column_def g_ex_def nf_ex_def sp_ex_def SignalProp_init_def
      apply_nodes_def node_skip_level_o_def getitem_def subframe_def index_rows_def zeros_def
      mk_def update_rows_def scatter_row_def row_sz_def elt_def upt_3)

lemma msgs_pi_twice:
  "\<exists>M. edge_msg_net sp_ex (edge_batch_of g_pi_start ''net_out'' []) False = Inr [(''efn'', M)]
       \<and> shape M = [0, 1]"
  by (simp add: edge_msg_net_def edge_batch_of_def subframe_def g_pi_start_def g_ex_def nf_ex_def
      getitem_def cat1_def MLP_def sp_ex_def SignalProp_init_def Let_def)

lemma net_pi_twice: "prop_net sp_ex g_pi_start [0] False = Inr g_pi_net"
proof -
  from msgs_pi_twice obtain M where
    m: "edge_msg_net sp_ex (edge_batch_of g_pi_start ''net_out'' []) False = Inr [(''efn'', M)]"
    and s: "shape M = [0, 1]"
    by blast
  have ids: "in_edge_ids g_pi_start [0] ''net_out'' = []"
    by (simp add: in_edge_ids_def g_pi_start_def g_ex_def)
  have mp: "message_passing g_pi_start ''net_out'' [] [0]
              (UDF (\<lambda>edges. edge_msg_net sp_ex edges False)) (fn_sum ''efn'' ''new_nf'')
            = Inr (Tensor [Suc 0, Suc 0] [0])"
    by (simp add: message_passing_def messages_def m getitem_def s reduce_msgs_def mk_def row_sz_def)
  have et: "get_etype g_pi_start (Some ''net_out'') = Inr ''net_out''"
    by (simp add: get_etype_def g_pi_start_def g_ex_def)
  have nn: "num_nodes g_pi_start = 3" by (simp add: g_pi_start_def g_ex_def)
  have up: "update_rows 3 (ndata g_pi_start) [0] ''new_nf'' (Tensor [Suc 0, Suc 0] [0])
              = Inr (ndata g_pi_net)"
    by (simp add: update_rows_def g_pi_start_def g_pi_net_def scatter_row_def mk_def row_sz_def
        elt_def upt_3 fun_upd_twist)
  have g2: "g_pi_start\<lparr>ndata := ndata g_pi_net\<rparr> = g_pi_net"
    by (simp add: g_pi_start_def g_pi_net_def)
  show ?thesis
    by (simp add: prop_net_def pull_def et nn ids mp up g2)
qed

lemma forward_pi_twice:
  "SignalProp_forward sp_ex g_ex ts_pi_twice nf_ex False
     = (Inr (Tensor [3, 1] [0, 0, 0], Tensor [1, 1] [0]), g_ex)"
proof -
  have tp: "topo ts_pi_twice = [[0], [0]]" by (simp add: ts_pi_twice_def)
  have pr: "propagate sp_ex g_pi_start [[0], [0]] (Suc 0) = Inr g_pi_net"
    by (subst propagate.simps, simp add: net_pi_twice) (subst propagate.simps, simp)
  have res: "SignalProp_result g_pi_net
               = Inr ((Tensor [3, 1] [0, 0, 0], Tensor [1, 1] [0]), g_pi_net)"
    by (simp add: SignalProp_result_def getitem_def get_etype_def g_pi_net_def g_ex_def)
  have rst: "g_pi_net\<lparr>ndata := ndata g_ex, edata := edata g_ex\<rparr> = g_ex"
    by (simp add: g_pi_net_def)
  show ?thesis
    by (simp add: SignalProp_forward_def local_scope_def SignalProp_body_def start_pi_twice pr res
        rst tp)
qed

section \<open>What a level reads\<close>

text \<open>
  Replacing a column of the node frame commutes with every graph operation that neither
  reads nor writes the column. In the autoregressive mode this holds for the ground-truth
  column \<^verbatim>\<open>n_atslew\<close> in both stages, because the message functions read \<^verbatim>\<open>new_nf\<close>.
\<close>

lemma rbind_assoc: "rbind (rbind m f) k = rbind m (\<lambda>x. rbind (f x) k)"
  by (cases m) simp_all

lemma rbind_Inr_right: "rbind m Inr = m"
  by (cases m) simp_all

lemma with_col_simps [simp]:
  "num_nodes (with_col k y g) = num_nodes g"
  "etypes (with_col k y g) = etypes g"
  "elist (with_col k y g) = elist g"
  "elist (with_col k y g) et = elist g et"
  "edata (with_col k y g) = edata g"
  "edata (with_col k y g) et = edata g et"
  "ndata (with_col k y g) = (ndata g)(k := y)"
  by (simp_all add: with_col_def)

lemma with_col_ndata: "with_col k y (g\<lparr>ndata := fr\<rparr>) = g\<lparr>ndata := fr(k := y)\<rparr>"
  by (simp add: with_col_def)

lemma with_col_set_ndata: "(with_col k y g)\<lparr>ndata := fr\<rparr> = g\<lparr>ndata := fr\<rparr>"
  by (simp add: with_col_def)

lemma with_col_edata: "(with_col k y g)\<lparr>edata := E\<rparr> = with_col k y (g\<lparr>edata := E\<rparr>)"
  by (simp add: with_col_def)

lemma get_etype_with_col [simp]: "get_etype (with_col k y g) etype = get_etype g etype"
  by (simp add: get_etype_def split: option.splits)

lemma in_edge_ids_with_col [simp]: "in_edge_ids (with_col k y g) v et = in_edge_ids g v et"
  by (simp add: in_edge_ids_def)

lemma in_edges_with_col [simp]: "in_edges (with_col k y g) v etype = in_edges g v etype"
  by (simp add: in_edges_def cong: if_cong)

lemma edge_ids_with_col [simp]: "edge_ids (with_col k y g) uv etype = edge_ids g uv etype"
  by (simp add: edge_ids_def)

lemma edge_batch_of_fields:
  "src (edge_batch_of g et es) k =
     map_option (\<lambda>t. index_rows t (map (\<lambda>e. fst (elist g et ! e)) es)) (ndata g k)"
  "dst (edge_batch_of g et es) k =
     map_option (\<lambda>t. index_rows t (map (\<lambda>e. snd (elist g et ! e)) es)) (ndata g k)"
  "data (edge_batch_of g et es) = subframe (edata g et) es"
  "len (edge_batch_of g et es) = length es"
  by (simp_all add: edge_batch_of_def subframe_def)

lemma index_rows_cong:
  assumes "shape a = shape b" and "\<forall>u \<in> set ids. row a u = row b u"
  shows "index_rows a ids = index_rows b ids"
proof -
  have rs: "row_sz a = row_sz b" using assms(1) by (simp add: row_sz_def)
  have "elt a (ids ! (i div row_sz b) * row_sz b + i mod row_sz b)
        = elt b (ids ! (i div row_sz b) * row_sz b + i mod row_sz b)"
    if "i < prod_list (length ids # tl (shape b))" for i
  proof -
    from that have lt: "i < length ids * row_sz b" by (simp add: row_sz_def)
    then have pos: "0 < row_sz b" by (cases "row_sz b") auto
    from lt have d: "i div row_sz b < length ids"
      by (simp add: less_mult_imp_div_less)
    from pos have m: "i mod row_sz b < row_sz b" by simp
    from d have "row a (ids ! (i div row_sz b)) = row b (ids ! (i div row_sz b))"
      using assms(2) by simp
    then have "row a (ids ! (i div row_sz b)) ! (i mod row_sz b)
             = row b (ids ! (i div row_sz b)) ! (i mod row_sz b)" by simp
    with m show ?thesis by (simp add: row_def rs)
  qed
  then show ?thesis
    unfolding index_rows_def assms(1) rs by (intro mk_cong)
qed

lemma edge_msg_net_reads:
  assumes "src e1 ''new_nf'' = src e2 ''new_nf''" and "src e1 ''nf'' = src e2 ''nf''"
    and "dst e1 ''nf'' = dst e2 ''nf''"
  shows "edge_msg_net sp e1 False = edge_msg_net sp e2 False"
  using assms by (simp add: edge_msg_net_def getitem_def)

lemma edge_msg_cell_reads:
  assumes "src e1 ''new_nf'' = src e2 ''new_nf''" and "src e1 ''nf'' = src e2 ''nf''"
    and "dst e1 ''nf'' = dst e2 ''nf''" and "data e1 ''ef'' = data e2 ''ef''"
    and "len e1 = len e2"
  shows "edge_msg_cell sp e1 False = edge_msg_cell sp e2 False"
  using assms
  by (simp add: edge_msg_cell_def lut_attention_def lut_lookup_def cellarc_msg_def getitem_def)

lemma edge_msg_net_needs:
  "src edges ''new_nf'' = None \<Longrightarrow> edge_msg_net sp edges False = Inl (KeyError ''new_nf'')"
  by (simp add: edge_msg_net_def getitem_def)

lemma edge_msg_cell_needs:
  "src edges ''new_nf'' = None \<Longrightarrow> edge_msg_cell sp edges False = Inl (KeyError ''new_nf'')"
  by (simp add: edge_msg_cell_def lut_attention_def getitem_def)

lemma sp_node_reduce_o_reads:
  assumes "node_data n1 ''nf'' = node_data n2 ''nf''" and "node_data n1 ''nfc1'' = node_data n2 ''nfc1''"
    and "node_data n1 ''nfc2'' = node_data n2 ''nfc2''"
  shows "sp_node_reduce_o sp n1 = sp_node_reduce_o sp n2"
  using assms by (simp add: sp_node_reduce_o_def getitem_def)

lemma sp_node_reduce_o_dict:
  "sp_node_reduce_o sp n = Inr res \<Longrightarrow> \<exists>x. res = [(''new_nf'', x)]"
  by (auto simp: sp_node_reduce_o_def rbind_eq_Inr)

lemma update_rows_twist:
  "k' \<noteq> k \<Longrightarrow> update_rows n (fr(k' := y)) ids k v
                 = rbind (update_rows n fr ids k v) (\<lambda>fr. Inr (fr(k' := y)))"
  by (simp add: update_rows_def Let_def fun_upd_twist)

lemma message_passing_with_col:
  assumes "messages mf (edge_batch_of (with_col k y g) et es) = messages mf (edge_batch_of g et es)"
  shows "message_passing (with_col k y g) et es vs mf rf = message_passing g et es vs mf rf"
  by (simp add: message_passing_def assms cong: if_cong)

lemma messages_copy_e_with_col:
  "messages (fn_copy_e a b) (edge_batch_of (with_col k y g) et es)
     = messages (fn_copy_e a b) (edge_batch_of g et es)"
  by (simp add: messages_def edge_batch_of_fields)

lemma pull_with_col:
  assumes "messages mf (edge_batch_of (with_col k y g) et (in_edge_ids g v et))
             = messages mf (edge_batch_of g et (in_edge_ids g v et))"
    and "k \<noteq> out_field rf"
  shows "pull (with_col k y g) v mf rf (Some et)
           = rbind (pull g v mf rf (Some et)) (\<lambda>g'. Inr (with_col k y g'))"
proof (cases "get_etype g (Some et)")
  case (Inl e)
  then show ?thesis by (simp add: pull_def)
next
  case (Inr et')
  then have et': "et' = et" by (simp add: get_etype_def split: if_splits)
  show ?thesis
    by (cases "message_passing g et (in_edge_ids g v et) v mf rf")
       (simp_all add: pull_def Inr et' message_passing_with_col [OF assms(1)]
         update_rows_twist [OF assms(2)] with_col_set_ndata with_col_ndata rbind_assoc)
qed

lemma send_and_recv_with_col:
  assumes "k \<noteq> out_field rf"
  shows "send_and_recv (with_col k y g) es (fn_copy_e a b) rf etype
           = rbind (send_and_recv g es (fn_copy_e a b) rf etype) (\<lambda>g'. Inr (with_col k y g'))"
proof (cases "get_etype g etype")
  case (Inl e)
  then show ?thesis by (simp add: send_and_recv_def)
next
  case (Inr et)
  show ?thesis
    by (cases "message_passing g et es (remdups (map (\<lambda>e. snd (elist g et ! e)) es))
                  (fn_copy_e a b) rf")
       (simp_all add: send_and_recv_def Inr Let_def
         message_passing_with_col [OF messages_copy_e_with_col]
         update_rows_twist [OF assms] with_col_set_ndata with_col_ndata rbind_assoc)
qed

lemma apply_edges_with_col:
  assumes "func (edge_batch_of (with_col k y g) et es) = func (edge_batch_of g et es)"
  shows "apply_edges (with_col k y g) func (Some es) (Some et)
           = rbind (apply_edges g func (Some es) (Some et)) (\<lambda>g'. Inr (with_col k y g'))"
proof (cases "get_etype g (Some et)")
  case (Inl e)
  then show ?thesis by (simp add: apply_edges_def)
next
  case (Inr et')
  then have et': "et' = et" by (simp add: get_etype_def split: if_splits)
  show ?thesis
    by (cases "func (edge_batch_of g et es)")
       (simp_all add: apply_edges_def Inr et' Let_def assms with_col_edata rbind_assoc)
qed

lemma subframe_upd_other:
  "k' \<noteq> k \<Longrightarrow> subframe (fr(k := y)) ids k' = subframe fr ids k'"
  by (simp add: subframe_def)

lemma apply_nodes_with_col:
  assumes "func \<lparr>node_data = subframe ((ndata g)(k := y)) v\<rparr> = func \<lparr>node_data = subframe (ndata g) v\<rparr>"
    and "\<And>res. func \<lparr>node_data = subframe (ndata g) v\<rparr> = Inr res \<Longrightarrow> \<exists>x. res = [(c, x)]"
    and "k \<noteq> c"
  shows "apply_nodes (with_col k y g) func v
           = rbind (apply_nodes g func v) (\<lambda>g'. Inr (with_col k y g'))"
proof (cases "func \<lparr>node_data = subframe (ndata g) v\<rparr>")
  case (Inl e)
  then show ?thesis by (simp add: apply_nodes_def assms(1))
next
  case (Inr res)
  with assms(2) obtain x where res: "res = [(c, x)]" by blast
  show ?thesis
    by (cases "update_rows (num_nodes g) (ndata g) v c x")
       (simp_all add: apply_nodes_def assms(1) Inr res update_rows_twist [OF assms(3)]
         with_col_set_ndata with_col_ndata)
qed

lemma prop_net_truth:
  "prop_net sp (with_col ''n_atslew'' y g) nodes False
     = rbind (prop_net sp g nodes False) (\<lambda>g'. Inr (with_col ''n_atslew'' y g'))"
  unfolding prop_net_def
proof (rule pull_with_col)
  show "messages (UDF (\<lambda>edges. edge_msg_net sp edges False))
          (edge_batch_of (with_col ''n_atslew'' y g) ''net_out'' (in_edge_ids g nodes ''net_out''))
        = messages (UDF (\<lambda>edges. edge_msg_net sp edges False))
          (edge_batch_of g ''net_out'' (in_edge_ids g nodes ''net_out''))"
    unfolding messages_def msgfn.case
    by (rule edge_msg_net_reads) (simp_all add: edge_batch_of_fields)
qed simp

lemma prop_cell_truth:
  "prop_cell sp (with_col ''n_atslew'' y g) nodes False
     = rbind (prop_cell sp g nodes False) (\<lambda>g'. Inr (with_col ''n_atslew'' y g'))"
proof -
  let ?W = "with_col ''n_atslew'' y"
  have ae: "apply_edges (?W g) (\<lambda>edges. edge_msg_cell sp edges False) (Some es) (Some ''cell_out'')
            = rbind (apply_edges g (\<lambda>edges. edge_msg_cell sp edges False) (Some es)
                 (Some ''cell_out'')) (\<lambda>g'. Inr (?W g'))" for es g
    by (rule apply_edges_with_col, rule edge_msg_cell_reads)
       (simp_all add: edge_batch_of_fields)
  have sr1: "send_and_recv (?W g) es (fn_copy_e ''efc1'' ''efc1'') (fn_sum ''efc1'' ''nfc1'') etype
            = rbind (send_and_recv g es (fn_copy_e ''efc1'' ''efc1'') (fn_sum ''efc1'' ''nfc1'') etype)
                (\<lambda>g'. Inr (?W g'))" for g es etype
    by (rule send_and_recv_with_col) simp
  have sr2: "send_and_recv (?W g) es (fn_copy_e ''efc2'' ''efc2'') (fn_max ''efc2'' ''nfc2'') etype
            = rbind (send_and_recv g es (fn_copy_e ''efc2'' ''efc2'') (fn_max ''efc2'' ''nfc2'') etype)
                (\<lambda>g'. Inr (?W g'))" for g es etype
    by (rule send_and_recv_with_col) simp
  have an: "apply_nodes (?W g) (sp_node_reduce_o sp) nodes
            = rbind (apply_nodes g (sp_node_reduce_o sp) nodes) (\<lambda>g'. Inr (?W g'))" for g
  proof (rule apply_nodes_with_col [where c = "''new_nf''"])
    show "sp_node_reduce_o sp \<lparr>node_data = subframe ((ndata g)(''n_atslew'' := y)) nodes\<rparr>
          = sp_node_reduce_o sp \<lparr>node_data = subframe (ndata g) nodes\<rparr>"
      by (rule sp_node_reduce_o_reads) (simp_all add: subframe_upd_other)
  qed (simp_all add: sp_node_reduce_o_dict)
  show ?thesis
    unfolding prop_cell_def
    by (simp only: in_edges_with_col edge_ids_with_col ae sr1 sr2 an rbind_assoc rbind_Inr)
qed

lemma run_levels_truth:
  "run_levels sp (with_col ''n_atslew'' y g) lv
     = rbind (run_levels sp g lv) (\<lambda>g'. Inr (with_col ''n_atslew'' y g'))"
proof (induction lv arbitrary: g)
  case Nil
  show ?case by simp
next
  case (Cons l lv)
  obtain i nodes where l: "l = (i, nodes)" by (cases l)
  show ?case
    by (simp only: l run_levels.simps prop_net_truth prop_cell_truth rbind_assoc rbind_Inr Cons.IH
        if_distrib [of "\<lambda>m. rbind m _"] cong: if_cong)
qed

text \<open>
  The initialisation reads \<^verbatim>\<open>n_atslew\<close> at the rows of \<^verbatim>\<open>pi_nodes\<close> only, so the whole
  autoregressive pass depends on the ground truth of the primary inputs alone.
\<close>

lemma set_ndata_with_col:
  "k' \<noteq> k \<Longrightarrow> set_ndata (with_col k y g) k' t
                 = rbind (set_ndata g k' t) (\<lambda>g'. Inr (with_col k y g'))"
  by (simp add: set_ndata_def set_column_def with_col_set_ndata with_col_ndata fun_upd_twist)

lemma set_ndata_Inr:
  "set_ndata g k t = Inr g' \<Longrightarrow> g' = g\<lparr>ndata := (ndata g)(k \<mapsto> t)\<rparr>"
  by (auto simp: set_ndata_def set_column_def rbind_eq_Inr split: if_splits)

lemma node_skip_level_o_dict:
  "node_skip_level_o n = Inr res \<Longrightarrow> \<exists>x. res = [(''new_nf'', x)]"
  by (auto simp: node_skip_level_o_def rbind_eq_Inr)

lemma start_truth:
  assumes "ndata g ''n_atslew'' = Some a" and "agree_on (pi_nodes ts) a a'"
  shows "SignalProp_start sp ts nf (with_col ''n_atslew'' (Some a') g)
           = rbind (SignalProp_start sp ts nf g) (\<lambda>g'. Inr (with_col ''n_atslew'' (Some a') g'))"
proof -
  let ?W = "with_col ''n_atslew'' (Some a')"
  have ir: "index_rows a' (pi_nodes ts) = index_rows a (pi_nodes ts)"
    using assms(2) by (intro index_rows_cong) (simp_all add: agree_on_def)
  have an: "apply_nodes (?W g2) node_skip_level_o (pi_nodes ts)
            = rbind (apply_nodes g2 node_skip_level_o (pi_nodes ts)) (\<lambda>g'. Inr (?W g'))"
    if "ndata g2 ''n_atslew'' = Some a" for g2
  proof (rule apply_nodes_with_col [where c = "''new_nf''"])
    show "node_skip_level_o \<lparr>node_data = subframe ((ndata g2)(''n_atslew'' \<mapsto> a')) (pi_nodes ts)\<rparr>
          = node_skip_level_o \<lparr>node_data = subframe (ndata g2) (pi_nodes ts)\<rparr>"
      by (simp add: node_skip_level_o_def getitem_def subframe_def that ir)
  qed (simp_all add: node_skip_level_o_dict)
  show ?thesis
  proof (cases "set_ndata g ''nf'' nf")
    case (Inl e)
    then show ?thesis by (simp add: SignalProp_start_def set_ndata_with_col)
  next
    case g1: (Inr g1)
    have n1: "ndata g1 ''n_atslew'' = Some a"
      using set_ndata_Inr [OF g1] assms(1) by simp
    show ?thesis
    proof (cases "set_ndata g1 ''new_nf'' (zeros [num_nodes g1, sp_out_nf sp])")
      case (Inl e)
      then show ?thesis by (simp add: SignalProp_start_def set_ndata_with_col g1)
    next
      case g2: (Inr g2)
      have n2: "ndata g2 ''n_atslew'' = Some a"
        using set_ndata_Inr [OF g2] n1 by simp
      show ?thesis by (simp add: SignalProp_start_def set_ndata_with_col g1 g2 an [OF n2])
    qed
  qed
qed

lemma result_with_col:
  "k \<noteq> ''new_nf'' \<Longrightarrow> SignalProp_result (with_col k y g)
     = rbind (SignalProp_result g) (\<lambda>(r, g'). Inr (r, with_col k y g'))"
  by (simp add: SignalProp_result_def getitem_def rbind_assoc split: option.splits)

lemma returned_with_col:
  "returned (rbind m (\<lambda>(r, g'). Inr (r, f g'))) = returned m"
  by (cases m) (auto simp: returned_def)

lemma forward_truth:
  assumes "ndata g ''n_atslew'' = Some a" and "agree_on (pi_nodes ts) a a'"
  shows "fst (SignalProp_forward sp (with_col ''n_atslew'' (Some a') g) ts nf False)
           = fst (SignalProp_forward sp g ts nf False)"
proof -
  let ?W = "with_col ''n_atslew'' (Some a')"
  have "SignalProp_body sp ts nf False (?W g)
          = rbind (SignalProp_body sp ts nf False g) (\<lambda>(r, g'). Inr (r, ?W g'))"
    by (simp add: SignalProp_body_def start_truth [OF assms] propagate_levels run_levels_truth
        result_with_col rbind_assoc)
  then show ?thesis
    by (simp add: SignalProp_forward_def fst_local_scope returned_with_col)
qed

text \<open>
  A stage reads \<^verbatim>\<open>new_nf\<close> at the sources of the incoming edges of its frontier, in the
  graph as it is before the stage; two graphs that agree on these rows give the same
  messages, hence the same rows at the frontier and the same edge features.
\<close>

lemma in_edge_sources:
  "e \<in> set (in_edge_ids g nodes et) \<Longrightarrow> fst (elist g et ! e) \<in> set (in_sources g et nodes)"
  by (auto simp: in_edge_ids_def in_sources_def intro!: image_eqI [where x = "elist g et ! e"])

lemma edge_ids_of_sound:
  "edge_ids_of el ps = Inr es \<Longrightarrow> e \<in> set es \<Longrightarrow> e < length el \<and> el ! e \<in> set ps"
proof (induction ps arbitrary: es)
  case Nil
  then show ?case by simp
next
  case (Cons p ps)
  from Cons.prems(1) obtain e0 es' where
    i: "index_of p el = Some e0" and r: "edge_ids_of el ps = Inr es'" and es: "es = e0 # es'"
    by (auto simp: rbind_eq_Inr split: option.splits)
  show ?case
  proof (cases "e = e0")
    case True
    with index_of_Some [OF i] show ?thesis by simp
  next
    case False
    with Cons.prems(2) es have "e \<in> set es'" by simp
    from Cons.IH [OF r this] show ?thesis by simp
  qed
qed

lemma edge_ids_sources:
  assumes "in_edges g nodes (Some et) = Inr uv" and "edge_ids g uv (Some et) = Inr es"
    and "e \<in> set es"
  shows "fst (elist g et ! e) \<in> set (in_sources g et nodes)"
proof -
  from assms(1) have uv: "uv = map (\<lambda>e. elist g et ! e) (in_edge_ids g nodes et)"
    by (auto simp: in_edges_def get_etype_def rbind_eq_Inr split: if_splits)
  from assms(2) have "edge_ids_of (elist g et) uv = Inr es"
    by (auto simp: edge_ids_def get_etype_def rbind_eq_Inr split: if_splits)
  from edge_ids_of_sound [OF this assms(3)]
  have lt: "e < length (elist g et)" and mem: "elist g et ! e \<in> set uv" by simp_all
  from mem uv have "snd (elist g et ! e) \<in> set nodes"
    by (auto simp: in_edge_ids_def)
  with lt show ?thesis
    by (auto simp: in_sources_def intro!: image_eqI [where x = "elist g et ! e"])
qed

lemma src_rows_agree:
  assumes "agree_on (in_sources g et nodes) t1 t2"
    and "\<forall>e \<in> set es. fst (elist g et ! e) \<in> set (in_sources g et nodes)"
  shows "index_rows t2 (map (\<lambda>e. fst (elist g et ! e)) es)
         = index_rows t1 (map (\<lambda>e. fst (elist g et ! e)) es)"
  using assms by (intro index_rows_cong) (auto simp: agree_on_def)

lemma update_rows_agree:
  assumes "fr k = Some t1" and "shape t2 = shape t1" and "hd (shape t1) = n"
    and "\<forall>u \<in> set ids. u < n"
  shows "rel_sum (=) (\<lambda>f1 f2. \<exists>a b. f1 = fr(k \<mapsto> a) \<and> f2 = fr(k \<mapsto> b) \<and> agree_on ids a b)
           (update_rows n fr ids k v) (update_rows n (fr(k \<mapsto> t2)) ids k v)"
proof (cases "shape v = [] \<or> hd (shape v) \<noteq> length ids \<or> shape t1 = [] \<or> tl (shape t1) \<noteq> tl (shape v)")
  case True
  then show ?thesis using assms(1,2) by (auto simp: update_rows_def Let_def)
next
  case False
  then have rs: "row_sz v = row_sz t1" "row_sz v = row_sz t2"
    using assms(2) by (simp_all add: row_sz_def)
  have "row (scatter_row t1 ids v) u = row (scatter_row t2 ids v) u" if "u \<in> set ids" for u
  proof -
    from index_of_mem [OF that] obtain j where j: "index_of u ids = Some j" by blast
    from that assms(3,4) have lt: "u < hd (shape t1)" by simp
    have "row (scatter_row t1 ids v) u = row v j"
      using False lt j rs(1) by (intro row_scatter_row_at) simp_all
    moreover have "row (scatter_row t2 ids v) u = row v j"
      using False lt j rs(2) assms(2) by (intro row_scatter_row_at) simp_all
    ultimately show ?thesis by simp
  qed
  then have "agree_on ids (scatter_row t1 ids v) (scatter_row t2 ids v)"
    using assms(2) by (simp add: agree_on_def)
  with False assms(1,2) show ?thesis
    by (auto simp: update_rows_def Let_def)
qed

lemma write_same_stage:
  assumes "ndata g ''new_nf'' = Some t1" and "shape t2 = shape t1"
    and "hd (shape t1) = num_nodes g" and "\<forall>u \<in> set nodes. u < num_nodes g"
  shows "rel_sum (=) (same_stage nodes)
           (rbind (update_rows (num_nodes g) (ndata g) nodes ''new_nf'' x)
                  (\<lambda>fr. Inr (g\<lparr>ndata := fr\<rparr>)))
           (rbind (update_rows (num_nodes g) ((ndata g)(''new_nf'' \<mapsto> t2)) nodes ''new_nf'' x)
                  (\<lambda>fr. Inr (g\<lparr>ndata := fr\<rparr>)))"
  using update_rows_agree [where fr = "ndata g" and k = "''new_nf''" and v = x, OF assms]
  by (cases "update_rows (num_nodes g) (ndata g) nodes ''new_nf'' x";
      cases "update_rows (num_nodes g) ((ndata g)(''new_nf'' \<mapsto> t2)) nodes ''new_nf'' x")
     (auto simp: same_stage_def with_col_def)

lemma prop_net_sources:
  assumes "ndata g ''new_nf'' = Some t1" and "hd (shape t1) = num_nodes g"
    and "agree_on (in_sources g ''net_out'' nodes) t1 t2"
  shows "rel_sum (=) (same_stage nodes)
           (prop_net sp g nodes False)
           (prop_net sp (with_col ''new_nf'' (Some t2) g) nodes False)"
proof -
  let ?W = "with_col ''new_nf'' (Some t2)"
  let ?es = "in_edge_ids g nodes ''net_out''"
  let ?mf = "UDF (\<lambda>edges. edge_msg_net sp edges False)"
  have sh: "shape t2 = shape t1" using assms(3) by (simp add: agree_on_def)
  have ir: "index_rows t2 (map (\<lambda>e. fst (elist g ''net_out'' ! e)) ?es)
            = index_rows t1 (map (\<lambda>e. fst (elist g ''net_out'' ! e)) ?es)"
    using assms(3) by (rule src_rows_agree) (simp add: in_edge_sources)
  have "messages ?mf (edge_batch_of (?W g) ''net_out'' ?es)
        = messages ?mf (edge_batch_of g ''net_out'' ?es)"
    unfolding messages_def msgfn.case
    by (rule edge_msg_net_reads) (simp_all add: edge_batch_of_fields assms(1) ir)
  then have mp: "message_passing (?W g) ''net_out'' ?es nodes ?mf rf
                 = message_passing g ''net_out'' ?es nodes ?mf rf" for rf
    by (rule message_passing_with_col)
  show ?thesis
  proof (cases "get_etype g (Some ''net_out'')")
    case (Inl e)
    then show ?thesis by (simp add: prop_net_def pull_def)
  next
    case (Inr et)
    then have et: "et = ''net_out''" by (simp add: get_etype_def split: if_splits)
    show ?thesis
    proof (cases "nodes = []")
      case True
      then show ?thesis
        using assms(1) sh
        by (simp add: prop_net_def pull_def Inr same_stage_def agree_on_def)
    next
      case ne: False
      show ?thesis
      proof (cases "\<exists>u \<in> set nodes. u \<ge> num_nodes g")
        case True
        then show ?thesis using ne by (simp add: prop_net_def pull_def Inr)
      next
        case False
        then have rg: "\<forall>u \<in> set nodes. u < num_nodes g" by auto
        show ?thesis
        proof (cases "message_passing g ''net_out'' ?es nodes ?mf (fn_sum ''efn'' ''new_nf'')")
          case (Inl e)
          then show ?thesis using ne False by (simp add: prop_net_def pull_def Inr et mp)
        next
          case t: (Inr t)
          from write_same_stage [OF assms(1) sh assms(2) rg, of t]
          show ?thesis using ne False
            by (simp add: prop_net_def pull_def Inr et mp t with_col_set_ndata)
        qed
      qed
    qed
  qed
qed

lemma rel_sum_rbind_with_col:
  assumes "\<And>x. m = Inr x \<Longrightarrow> rel_sum (=) R (f x) (f' (F x))"
  shows "rel_sum (=) R (rbind m f) (rbind (rbind m (\<lambda>x. Inr (F x))) f')"
  using assms by (cases m) simp_all

lemma apply_nodes_sources:
  assumes "ndata g ''new_nf'' = Some t1" and "shape t2 = shape t1" and "hd (shape t1) = num_nodes g"
  shows "rel_sum (=) (same_stage nodes)
           (apply_nodes g (sp_node_reduce_o sp) nodes)
           (apply_nodes (with_col ''new_nf'' (Some t2) g) (sp_node_reduce_o sp) nodes)"
proof (cases "\<exists>u \<in> set nodes. u \<ge> num_nodes g")
  case True
  then show ?thesis by (simp add: apply_nodes_def)
next
  case False
  then have rg: "\<forall>u \<in> set nodes. u < num_nodes g" by auto
  have eq: "sp_node_reduce_o sp \<lparr>node_data = subframe ((ndata g)(''new_nf'' \<mapsto> t2)) nodes\<rparr>
            = sp_node_reduce_o sp \<lparr>node_data = subframe (ndata g) nodes\<rparr>"
    by (rule sp_node_reduce_o_reads) (simp_all add: subframe_upd_other)
  show ?thesis
  proof (cases "sp_node_reduce_o sp \<lparr>node_data = subframe (ndata g) nodes\<rparr>")
    case (Inl e)
    then show ?thesis using False by (simp add: apply_nodes_def eq)
  next
    case (Inr res)
    from sp_node_reduce_o_dict [OF this] obtain x where res: "res = [(''new_nf'', x)]" by blast
    from write_same_stage [OF assms rg, of x]
    show ?thesis using False
      by (simp add: apply_nodes_def eq Inr res with_col_set_ndata rbind_assoc rbind_Inr_right)
  qed
qed

lemma prop_cell_sources:
  assumes "ndata g ''new_nf'' = Some t1" and "hd (shape t1) = num_nodes g"
    and "agree_on (in_sources g ''cell_out'' nodes) t1 t2"
  shows "rel_sum (=) (same_stage nodes)
           (prop_cell sp g nodes False)
           (prop_cell sp (with_col ''new_nf'' (Some t2) g) nodes False)"
proof -
  let ?W = "with_col ''new_nf'' (Some t2)"
  let ?f = "\<lambda>edges. edge_msg_cell sp edges False"
  have sh: "shape t2 = shape t1" using assms(3) by (simp add: agree_on_def)
  have sr1: "send_and_recv (?W g) es (fn_copy_e ''efc1'' ''efc1'') (fn_sum ''efc1'' ''nfc1'') etype
            = rbind (send_and_recv g es (fn_copy_e ''efc1'' ''efc1'') (fn_sum ''efc1'' ''nfc1'') etype)
                (\<lambda>g'. Inr (?W g'))" for g es etype
    by (rule send_and_recv_with_col) simp
  have sr2: "send_and_recv (?W g) es (fn_copy_e ''efc2'' ''efc2'') (fn_max ''efc2'' ''nfc2'') etype
            = rbind (send_and_recv g es (fn_copy_e ''efc2'' ''efc2'') (fn_max ''efc2'' ''nfc2'') etype)
                (\<lambda>g'. Inr (?W g'))" for g es etype
    by (rule send_and_recv_with_col) simp
  show ?thesis
  proof (cases "in_edges g nodes (Some ''cell_out'')")
    case (Inl e)
    then show ?thesis by (simp add: prop_cell_def)
  next
    case uv: (Inr uv)
    show ?thesis
    proof (cases "edge_ids g uv (Some ''cell_out'')")
      case (Inl e)
      then show ?thesis by (simp add: prop_cell_def uv)
    next
      case es: (Inr es)
      have ir: "index_rows t2 (map (\<lambda>e. fst (elist g ''cell_out'' ! e)) es)
                = index_rows t1 (map (\<lambda>e. fst (elist g ''cell_out'' ! e)) es)"
        using assms(3) by (rule src_rows_agree) (simp add: edge_ids_sources [OF uv es])
      have "?f (edge_batch_of (?W g) ''cell_out'' es) = ?f (edge_batch_of g ''cell_out'' es)"
        by (rule edge_msg_cell_reads) (simp_all add: edge_batch_of_fields assms(1) ir)
      then have ae: "apply_edges (?W g) ?f (Some es) (Some ''cell_out'')
                     = rbind (apply_edges g ?f (Some es) (Some ''cell_out'')) (\<lambda>g'. Inr (?W g'))"
        by (rule apply_edges_with_col)
      have last: "rel_sum (=) (same_stage nodes)
                    (apply_nodes g3 (sp_node_reduce_o sp) nodes)
                    (apply_nodes (?W g3) (sp_node_reduce_o sp) nodes)"
        if g1: "apply_edges g ?f (Some es) (Some ''cell_out'') = Inr g1"
          and g2: "send_and_recv g1 es (fn_copy_e ''efc1'' ''efc1'') (fn_sum ''efc1'' ''nfc1'')
                     (Some ''cell_out'') = Inr g2"
          and g3: "send_and_recv g2 es (fn_copy_e ''efc2'' ''efc2'') (fn_max ''efc2'' ''nfc2'')
                     (Some ''cell_out'') = Inr g3"
        for g1 g2 g3
      proof -
        have "ndata g3 ''new_nf'' = ndata g ''new_nf''"
          using apply_edges_ndata [OF g1] send_and_recv_other [OF g2, of "''new_nf''"]
            send_and_recv_other [OF g3, of "''new_nf''"] by simp
        then have n3: "ndata g3 ''new_nf'' = Some t1" using assms(1) by simp
        have "num_nodes g3 = num_nodes g"
          using frames_only_struct [OF apply_edges_frames [OF g1]]
            frames_only_struct [OF send_and_recv_frames [OF g2]]
            frames_only_struct [OF send_and_recv_frames [OF g3]] by simp
        then have h3: "hd (shape t1) = num_nodes g3" using assms(2) by simp
        show ?thesis by (rule apply_nodes_sources [OF n3 sh h3])
      qed
      show ?thesis
        unfolding prop_cell_def
        apply (simp only: in_edges_with_col edge_ids_with_col uv es rbind_Inr ae)
        apply (rule rel_sum_rbind_with_col)
        apply (simp only: sr1)
        apply (rule rel_sum_rbind_with_col)
        apply (simp only: sr2)
        apply (rule rel_sum_rbind_with_col)
        apply (erule (2) last)
        done
    qed
  qed
qed

lemma level_sources:
  assumes "ndata g ''new_nf'' = Some t1" and "hd (shape t1) = num_nodes g"
    and "agree_on (in_sources g (if odd i then ''net_out'' else ''cell_out'') nodes) t1 t2"
  shows "rel_sum (=) (same_stage nodes)
           (run_levels sp g [(i, nodes)])
           (run_levels sp (with_col ''new_nf'' (Some t2) g) [(i, nodes)])"
proof (cases "odd i")
  case True
  with assms(3) have "agree_on (in_sources g ''net_out'' nodes) t1 t2" by simp
  from prop_net_sources [OF assms(1,2) this] True show ?thesis
    by (simp add: rbind_Inr_right)
next
  case False
  with assms(3) have "agree_on (in_sources g ''cell_out'' nodes) t1 t2" by simp
  from prop_cell_sources [OF assms(1,2) this] False show ?thesis
    by (simp add: rbind_Inr_right)
qed

section \<open>The claims\<close>

text \<open>
  C5. \<^verbatim>\<open>SignalProp.forward\<close> called with a schedule whose \<^verbatim>\<open>topo\<close> sequence has odd
  length fails with the assertion error and returns the graph as it was given: the
  assertion is checked before the local scope is entered, so nothing is computed and no
  output is produced. This holds for \<^verbatim>\<open>groundtruth=False\<close> and for
  \<^verbatim>\<open>groundtruth=True\<close> alike.
\<close>

theorem forward_odd_topo_fails:
  "odd (length (topo ts)) \<Longrightarrow>
   SignalProp_forward sp g ts nf groundtruth = (Inl AssertionError, g)"
  by (simp add: SignalProp_forward_def odd_iff_mod_2_eq_one)

theorem forward_odd_topo_fails_witness:
  "odd (length (topo ts_odd)) \<and>
   SignalProp_forward sp_ex g_ex ts_odd nf_ex False = (Inl AssertionError, g_ex)"
proof -
  have h: "odd (length (topo ts_odd))" by (simp add: ts_odd_def)
  show ?thesis using h forward_odd_topo_fails [OF h, of sp_ex g_ex nf_ex False] by simp
qed

text \<open>
  C8. \<^verbatim>\<open>NetConv.forward\<close> and \<^verbatim>\<open>SignalProp.forward\<close> return the graph with the node
  and edge feature frames it had before the call, whether the call returns a value or
  raises: every feature they write is written inside the local scope.
\<close>

theorem forward_frames_unchanged:
  "snd (NetConv_forward nc g ts nf) = g \<and> snd (SignalProp_forward sp g ts' nf' groundtruth) = g"
proof
  show "snd (NetConv_forward nc g ts nf) = g"
    unfolding NetConv_forward_def by (rule local_scope_restores) (rule NetConv_body_frames)
  show "snd (SignalProp_forward sp g ts' nf' groundtruth) = g"
    unfolding SignalProp_forward_def
    by (simp add: local_scope_restores SignalProp_body_frames)
qed

theorem forward_frames_unchanged_witness:
  "snd (NetConv_forward nc_ex g_ex ts_ex nf_ex) = g_ex \<and>
   snd (SignalProp_forward sp_ex g_ex ts_ex nf_ex False) = g_ex"
  using forward_frames_unchanged [of nc_ex g_ex ts_ex nf_ex sp_ex ts_ex nf_ex False] by simp

text \<open>
  C9. \<^verbatim>\<open>DeepGCNII\<close> constructed with \<^verbatim>\<open>n_layers = n\<close> holds \<open>n - 2\<close> intermediate layers
  (none for \<open>n\<close> up to 2). Its forward pass applies \<^verbatim>\<open>layer0\<close> to the node feature, then
  one residual step per intermediate layer, in order, each on the concatenation of the
  running feature and the original node feature and adding the running feature to the
  layer's output, then \<^verbatim>\<open>layern\<close>; the graph is returned as it was given. With \<open>n = 2\<close>
  the forward pass is \<^verbatim>\<open>layern\<close> applied to the output of \<^verbatim>\<open>layer0\<close>.
\<close>

theorem DeepGCNII_layers:
  "length (layers (DeepGCNII_init n out w0 wl wn)) = nat (n - 2) \<and>
   DeepGCNII_forward m g =
     (rbind (getitem (ndata g) ''nf'') (\<lambda>nf0.
      rbind (fst (AllConv_forward (layer0 m) g nf0)) (\<lambda>x.
      rbind (residual_chain (layers m) g nf0 x) (\<lambda>x.
      fst (AllConv_forward (layern m) g x)))), g) \<and>
   DeepGCNII_forward (DeepGCNII_init 2 out w0 wl wn) g =
     (rbind (getitem (ndata g) ''nf'') (\<lambda>nf0.
      rbind (fst (AllConv_forward (AllConv_init 10 16 12 10 10 w0) g nf0)) (\<lambda>x.
      fst (AllConv_forward (AllConv_init 16 out 12 10 10 wn) g x))), g)"
proof -
  have fwd: "DeepGCNII_forward m g =
     (rbind (getitem (ndata g) ''nf'') (\<lambda>nf0.
      rbind (fst (AllConv_forward (layer0 m) g nf0)) (\<lambda>x.
      rbind (residual_chain (layers m) g nf0 x) (\<lambda>x.
      fst (AllConv_forward (layern m) g x)))), g)" for m
  proof (cases "getitem (ndata g) ''nf''")
    case (Inl e)
    then show ?thesis by (simp add: DeepGCNII_forward_def)
  next
    case (Inr nf0)
    note nf0 = this
    show ?thesis
    proof (cases "fst (AllConv_forward (layer0 m) g nf0)")
      case (Inl e)
      with nf0 show ?thesis
        by (simp add: DeepGCNII_forward_def) (subst AllConv_forward_pair, simp)
    next
      case (Inr x)
      note x = this
      show ?thesis
      proof (cases "residual_chain (layers m) g nf0 x")
        case (Inl e)
        with nf0 x show ?thesis
          by (simp add: DeepGCNII_forward_def)
            (subst AllConv_forward_pair, simp add: residual_layers_chain [OF nf0])
      next
        case (Inr x')
        with nf0 x show ?thesis
          by (simp add: DeepGCNII_forward_def)
            (subst AllConv_forward_pair,
              simp add: residual_layers_chain [OF nf0] AllConv_forward_pair [symmetric])
      qed
    qed
  qed
  have len: "length (layers (DeepGCNII_init n out w0 wl wn)) = nat (n - 2)"
    by (simp add: DeepGCNII_init_def)
  have two: "DeepGCNII_forward (DeepGCNII_init 2 out w0 wl wn) g =
     (rbind (getitem (ndata g) ''nf'') (\<lambda>nf0.
      rbind (fst (AllConv_forward (AllConv_init 10 16 12 10 10 w0) g nf0)) (\<lambda>x.
      fst (AllConv_forward (AllConv_init 16 out 12 10 10 wn) g x))), g)"
    unfolding fwd by (simp add: DeepGCNII_init_def)
  from len fwd two show ?thesis by blast
qed

theorem DeepGCNII_layers_witness:
  "length (layers (DeepGCNII_init 60 8 (\<lambda>_. w_zero) (\<lambda>_ _. w_zero) (\<lambda>_. w_zero))) = 58"
  using DeepGCNII_layers [of 60 8 "\<lambda>_. w_zero" "\<lambda>_ _. w_zero" "\<lambda>_. w_zero"] by simp



text \<open>
  C1. With \<^verbatim>\<open>groundtruth=False\<close> and an even number of levels,
  \<^verbatim>\<open>SignalProp.forward\<close> is the initialisation followed by the levels of index 1 and
  higher, one at a time in index order, a level of odd index processed by \<^verbatim>\<open>prop_net\<close>
  and a level of even index by \<^verbatim>\<open>prop_cell\<close>, each stage applied to the graph that the
  levels before it produced (so the processing of the first \<open>k\<close> levels does not depend on
  the later ones); level 0 is not processed, and replacing it changes nothing.

  What the messages of a level read: in this mode \<^verbatim>\<open>edge_msg_net\<close> is determined by the
  source features \<^verbatim>\<open>new_nf\<close> and \<^verbatim>\<open>nf\<close> and the destination feature \<^verbatim>\<open>nf\<close>, and
  \<^verbatim>\<open>edge_msg_cell\<close> by these, the edge feature \<^verbatim>\<open>ef\<close> and the number of edges; both
  raise \<^verbatim>\<open>KeyError\<close> when the source has no \<^verbatim>\<open>new_nf\<close>. A level depends on the
  predictions only through the rows of \<^verbatim>\<open>new_nf\<close>, as the earlier levels left them, at the
  sources of the edges entering its frontier: a graph that holds another \<^verbatim>\<open>new_nf\<close> with
  the same rows there gives the same error or the same graph up to \<^verbatim>\<open>new_nf\<close>, with equal
  rows at the frontier. No level reads the ground truth: replacing \<^verbatim>\<open>n_atslew\<close> commutes
  with the levels, and the result of \<^verbatim>\<open>forward\<close> depends on \<^verbatim>\<open>n_atslew\<close> only through the
  rows of \<^verbatim>\<open>pi_nodes\<close>.
\<close>

theorem autoregressive_levels:
  "(even (length (topo ts)) \<longrightarrow>
      fst (SignalProp_forward sp g ts nf False) =
        returned (rbind (SignalProp_start sp ts nf g) (\<lambda>g.
                  rbind (run_levels sp g (levels_from 1 (topo ts)))
                  SignalProp_result)))
   \<and> levels_from 1 (topo ts) = zip [1..<length (topo ts)] (tl (topo ts))
   \<and> run_levels sp g (levels_from 1 (topo ts)) =
       rbind (run_levels sp g (take k (levels_from 1 (topo ts))))
             (\<lambda>g'. run_levels sp g' (drop k (levels_from 1 (topo ts))))
   \<and> fst (SignalProp_forward sp g (ts\<lparr>topo := l0 # rest\<rparr>) nf False)
       = fst (SignalProp_forward sp g (ts\<lparr>topo := l0' # rest\<rparr>) nf False)
   \<and> (src e1 ''new_nf'' = src e2 ''new_nf'' \<and> src e1 ''nf'' = src e2 ''nf''
        \<and> dst e1 ''nf'' = dst e2 ''nf'' \<longrightarrow>
      edge_msg_net sp e1 False = edge_msg_net sp e2 False)
   \<and> (src e1 ''new_nf'' = src e2 ''new_nf'' \<and> src e1 ''nf'' = src e2 ''nf''
        \<and> dst e1 ''nf'' = dst e2 ''nf'' \<and> data e1 ''ef'' = data e2 ''ef'' \<and> len e1 = len e2 \<longrightarrow>
      edge_msg_cell sp e1 False = edge_msg_cell sp e2 False)
   \<and> (src e1 ''new_nf'' = None \<longrightarrow>
      edge_msg_net sp e1 False = Inl (KeyError ''new_nf'')
      \<and> edge_msg_cell sp e1 False = Inl (KeyError ''new_nf''))
   \<and> (ndata g ''new_nf'' = Some t1 \<and> hd (shape t1) = num_nodes g
        \<and> agree_on (in_sources g (if odd i then ''net_out'' else ''cell_out'') nodes) t1 t2 \<longrightarrow>
      rel_sum (=) (same_stage nodes)
        (run_levels sp g [(i, nodes)])
        (run_levels sp (with_col ''new_nf'' (Some t2) g) [(i, nodes)]))
   \<and> run_levels sp (with_col ''n_atslew'' y g) lv
       = rbind (run_levels sp g lv) (\<lambda>g'. Inr (with_col ''n_atslew'' y g'))
   \<and> (ndata g ''n_atslew'' = Some a \<and> agree_on (pi_nodes ts) a a' \<longrightarrow>
      fst (SignalProp_forward sp (with_col ''n_atslew'' (Some a') g) ts nf False)
        = fst (SignalProp_forward sp g ts nf False))"
proof (intro conjI impI; (elim conjE)?)
  assume "even (length (topo ts))"
  then show "fst (SignalProp_forward sp g ts nf False) =
        returned (rbind (SignalProp_start sp ts nf g) (\<lambda>g.
                  rbind (run_levels sp g (levels_from 1 (topo ts)))
                  SignalProp_result))"
    by (simp add: SignalProp_forward_def fst_local_scope SignalProp_body_def
        even_iff_mod_2_eq_zero propagate_levels)
next
  show "levels_from 1 (topo ts) = zip [1..<length (topo ts)] (tl (topo ts))"
    by (rule levels_from_zip)
next
  show "run_levels sp g (levels_from 1 (topo ts)) =
       rbind (run_levels sp g (take k (levels_from 1 (topo ts))))
             (\<lambda>g'. run_levels sp g' (drop k (levels_from 1 (topo ts))))"
    by (simp add: run_levels_append [symmetric])
next
  show "fst (SignalProp_forward sp g (ts\<lparr>topo := l0 # rest\<rparr>) nf False)
       = fst (SignalProp_forward sp g (ts\<lparr>topo := l0' # rest\<rparr>) nf False)"
    by (simp add: SignalProp_forward_def fst_local_scope SignalProp_body_def
        SignalProp_start_def propagate_levels
        levels_from_tail [of l0 rest l0', unfolded One_nat_def])
next
  assume "src e1 ''new_nf'' = src e2 ''new_nf''" "src e1 ''nf'' = src e2 ''nf''"
    "dst e1 ''nf'' = dst e2 ''nf''"
  then show "edge_msg_net sp e1 False = edge_msg_net sp e2 False"
    by (rule edge_msg_net_reads)
next
  assume "src e1 ''new_nf'' = src e2 ''new_nf''" "src e1 ''nf'' = src e2 ''nf''"
    "dst e1 ''nf'' = dst e2 ''nf''" "data e1 ''ef'' = data e2 ''ef''" "len e1 = len e2"
  then show "edge_msg_cell sp e1 False = edge_msg_cell sp e2 False"
    by (rule edge_msg_cell_reads)
next
  assume "src e1 ''new_nf'' = None"
  then show "edge_msg_net sp e1 False = Inl (KeyError ''new_nf'')"
    by (rule edge_msg_net_needs)
next
  assume "src e1 ''new_nf'' = None"
  then show "edge_msg_cell sp e1 False = Inl (KeyError ''new_nf'')"
    by (rule edge_msg_cell_needs)
next
  assume "ndata g ''new_nf'' = Some t1" "hd (shape t1) = num_nodes g"
    "agree_on (in_sources g (if odd i then ''net_out'' else ''cell_out'') nodes) t1 t2"
  then show "rel_sum (=) (same_stage nodes)
        (run_levels sp g [(i, nodes)])
        (run_levels sp (with_col ''new_nf'' (Some t2) g) [(i, nodes)])"
    by (rule level_sources)
next
  show "run_levels sp (with_col ''n_atslew'' y g) lv
       = rbind (run_levels sp g lv) (\<lambda>g'. Inr (with_col ''n_atslew'' y g'))"
    by (rule run_levels_truth)
next
  assume "ndata g ''n_atslew'' = Some a" "agree_on (pi_nodes ts) a a'"
  then show "fst (SignalProp_forward sp (with_col ''n_atslew'' (Some a') g) ts nf False)
        = fst (SignalProp_forward sp g ts nf False)"
    by (rule forward_truth)
qed

theorem autoregressive_levels_witness:
  "even (length (topo ts_ex))
   \<and> fst (SignalProp_forward sp_ex g_ex ts_ex nf_ex False) =
       returned (rbind (SignalProp_start sp_ex ts_ex nf_ex g_ex) (\<lambda>g.
                 rbind (run_levels sp_ex g (levels_from 1 (topo ts_ex)))
                 SignalProp_result))
   \<and> src eb_one ''new_nf'' = src (eb_one\<lparr>src := (src eb_one)(''n_atslew'' \<mapsto> Tensor [1, 1] [9])\<rparr>) ''new_nf''
   \<and> edge_msg_net sp_ex eb_one False
       = edge_msg_net sp_ex (eb_one\<lparr>src := (src eb_one)(''n_atslew'' \<mapsto> Tensor [1, 1] [9])\<rparr>) False
   \<and> edge_msg_cell sp_ex eb_one False
       = edge_msg_cell sp_ex (eb_one\<lparr>src := (src eb_one)(''n_atslew'' \<mapsto> Tensor [1, 1] [9])\<rparr>) False
   \<and> src (eb_one\<lparr>src := Map.empty\<rparr>) ''new_nf'' = None
   \<and> edge_msg_net sp_ex (eb_one\<lparr>src := Map.empty\<rparr>) False = Inl (KeyError ''new_nf'')
   \<and> edge_msg_cell sp_ex (eb_one\<lparr>src := Map.empty\<rparr>) False = Inl (KeyError ''new_nf'')
   \<and> ndata g_pi_start ''new_nf'' = Some (Tensor [3, 1] [5, 0, 0])
   \<and> hd (shape (Tensor [3, 1] [5, 0, 0])) = num_nodes g_pi_start
   \<and> in_sources g_pi_start ''net_out'' [1] = [0]
   \<and> agree_on [0] (Tensor [3, 1] [5, 0, 0]) (Tensor [3, 1] [5, 8, 9])
   \<and> rel_sum (=) (same_stage [1])
        (run_levels sp_ex g_pi_start [(1, [1])])
        (run_levels sp_ex (with_col ''new_nf'' (Some (Tensor [3, 1] [5, 8, 9])) g_pi_start) [(1, [1])])
   \<and> in_sources g_pi_start ''cell_out'' [2] = [1]
   \<and> agree_on [1] (Tensor [3, 1] [5, 0, 0]) (Tensor [3, 1] [7, 0, 9])
   \<and> rel_sum (=) (same_stage [2])
        (run_levels sp_ex g_pi_start [(2, [2])])
        (run_levels sp_ex (with_col ''new_nf'' (Some (Tensor [3, 1] [7, 0, 9])) g_pi_start) [(2, [2])])
   \<and> ndata g_ex ''n_atslew'' = Some (Tensor [3, 1] [5, 6, 7])
   \<and> agree_on (pi_nodes ts_ex) (Tensor [3, 1] [5, 6, 7]) (Tensor [3, 1] [5, 1, 2])
   \<and> fst (SignalProp_forward sp_ex (with_col ''n_atslew'' (Some (Tensor [3, 1] [5, 1, 2])) g_ex)
            ts_ex nf_ex False)
       = fst (SignalProp_forward sp_ex g_ex ts_ex nf_ex False)"
proof -
  let ?e2 = "eb_one\<lparr>src := (src eb_one)(''n_atslew'' \<mapsto> Tensor [1, 1] [9])\<rparr>"
  let ?e0 = "eb_one\<lparr>src := Map.empty\<rparr>"
  let ?t1 = "Tensor [3, 1] [5, 0, 0]"
  let ?tn = "Tensor [3, 1] [5, 8, 9]"
  let ?tc = "Tensor [3, 1] [7, 0, 9]"
  let ?a = "Tensor [3, 1] [5, 6, 7]"
  let ?a' = "Tensor [3, 1] [5, 1, 2]"
  have ev: "even (length (topo ts_ex))" by (simp add: ts_ex_def)
  have e2: "src eb_one ''new_nf'' = src ?e2 ''new_nf''" "src eb_one ''nf'' = src ?e2 ''nf''"
    "dst eb_one ''nf'' = dst ?e2 ''nf''" "data eb_one ''ef'' = data ?e2 ''ef''"
    "len eb_one = len ?e2"
    by simp_all
  have e0: "src ?e0 ''new_nf'' = None" by simp
  have n1: "ndata g_pi_start ''new_nf'' = Some ?t1" by (simp add: g_pi_start_def)
  have h1: "hd (shape ?t1) = num_nodes g_pi_start" by (simp add: g_pi_start_def g_ex_def)
  have sn: "in_sources g_pi_start ''net_out'' [1] = [0]"
    by (simp add: in_sources_def g_pi_start_def g_ex_def)
  have sc: "in_sources g_pi_start ''cell_out'' [2] = [1]"
    by (simp add: in_sources_def g_pi_start_def g_ex_def)
  have an: "agree_on [0] ?t1 ?tn" by (simp add: agree_on_def row_def row_sz_def elt_def)
  have ac: "agree_on [1] ?t1 ?tc" by (simp add: agree_on_def row_def row_sz_def elt_def)
  have an': "agree_on (in_sources g_pi_start (if odd (1::nat) then ''net_out'' else ''cell_out'') [1])
               ?t1 ?tn"
    using an sn by simp
  have ac': "agree_on (in_sources g_pi_start (if odd (2::nat) then ''net_out'' else ''cell_out'') [2])
               ?t1 ?tc"
    using ac sc by simp
  have na: "ndata g_ex ''n_atslew'' = Some ?a" by (simp add: g_ex_def)
  have ap: "agree_on (pi_nodes ts_ex) ?a ?a'"
    by (simp add: agree_on_def ts_ex_def row_def row_sz_def elt_def)
  note A = autoregressive_levels [where ts = ts_ex and sp = sp_ex and g = g_ex and nf = nf_ex
      and ?e1.0 = eb_one and ?e2.0 = ?e2 and a = ?a and a' = ?a']
  note B = autoregressive_levels [where sp = sp_ex and ?e1.0 = ?e0]
  note C = autoregressive_levels [where sp = sp_ex and g = g_pi_start and ?t1.0 = ?t1
      and ?t2.0 = ?tn and i = 1 and nodes = "[1]"]
  note D = autoregressive_levels [where sp = sp_ex and g = g_pi_start and ?t1.0 = ?t1
      and ?t2.0 = ?tc and i = 2 and nodes = "[2]"]
  from A ev e2 na ap have
    "fst (SignalProp_forward sp_ex g_ex ts_ex nf_ex False) =
       returned (rbind (SignalProp_start sp_ex ts_ex nf_ex g_ex) (\<lambda>g.
                 rbind (run_levels sp_ex g (levels_from 1 (topo ts_ex)))
                 SignalProp_result))"
    "edge_msg_net sp_ex eb_one False = edge_msg_net sp_ex ?e2 False"
    "edge_msg_cell sp_ex eb_one False = edge_msg_cell sp_ex ?e2 False"
    "fst (SignalProp_forward sp_ex (with_col ''n_atslew'' (Some ?a') g_ex) ts_ex nf_ex False)
       = fst (SignalProp_forward sp_ex g_ex ts_ex nf_ex False)"
    by blast+
  moreover from B e0 have
    "edge_msg_net sp_ex ?e0 False = Inl (KeyError ''new_nf'')"
    "edge_msg_cell sp_ex ?e0 False = Inl (KeyError ''new_nf'')"
    by blast+
  moreover from C n1 h1 an' have
    "rel_sum (=) (same_stage [1])
        (run_levels sp_ex g_pi_start [(1, [1])])
        (run_levels sp_ex (with_col ''new_nf'' (Some ?tn) g_pi_start) [(1, [1])])"
    by blast
  moreover from D n1 h1 ac' have
    "rel_sum (=) (same_stage [2])
        (run_levels sp_ex g_pi_start [(2, [2])])
        (run_levels sp_ex (with_col ''new_nf'' (Some ?tc) g_pi_start) [(2, [2])])"
    by blast
  ultimately show ?thesis
    using ev e2(1) e0 n1 h1 sn sc an ac na ap by blast
qed

text \<open>
  C6. When \<^verbatim>\<open>SignalProp.forward\<close> returns, the prediction of a node of \<^verbatim>\<open>pi_nodes\<close> is
  that node's row of the ground-truth feature \<^verbatim>\<open>n_atslew\<close>, provided that no stage has the
  node in its frontier: with \<^verbatim>\<open>groundtruth=True\<close> the node is in neither \<^verbatim>\<open>input_nodes\<close>
  nor \<^verbatim>\<open>output_nodes_nonpi\<close>, with \<^verbatim>\<open>groundtruth=False\<close> it is in no level of index 1 or
  higher. Then the row copied by \<^verbatim>\<open>node_skip_level_o\<close> is written by no stage. The program
  does not check this condition of the schedule, and without it the statement fails, as
  the schedule after the next two theorems shows.
\<close>

theorem pi_nodes_ground_truth:
  assumes "SignalProp_forward sp g ts nf groundtruth = (Inr (pred, delays), g')"
    and "v \<in> set (pi_nodes ts)"
    and "if groundtruth then v \<notin> set (input_nodes ts) \<and> v \<notin> set (output_nodes_nonpi ts)
         else (\<forall>i. 1 \<le> i \<and> i < length (topo ts) \<longrightarrow> v \<notin> set (topo ts ! i))"
  shows "\<exists>a. ndata g ''n_atslew'' = Some a \<and> row pred v = row a v"
  using forward_rows [OF assms(1) assms(3)] assms(2) by auto

theorem pi_nodes_ground_truth_witness:
  "SignalProp_forward sp_ex g_ex ts_w nf_ex False
     = (Inr (Tensor [3, 1] [5, 0, 0], Tensor [1, 1] [0]), g_ex)
   \<and> 0 \<in> set (pi_nodes ts_w)
   \<and> 0 \<notin> set (concat (tl (topo ts_w)))
   \<and> (\<exists>a. ndata g_ex ''n_atslew'' = Some a \<and> row (Tensor [3, 1] [5, 0, 0]) 0 = row a 0)"
proof -
  have h2: "0 \<in> set (pi_nodes ts_w)" by (simp add: ts_w_def)
  have h3: "if False then 0 \<notin> set (input_nodes ts_w) \<and> 0 \<notin> set (output_nodes_nonpi ts_w)
            else (\<forall>i. 1 \<le> i \<and> i < length (topo ts_w) \<longrightarrow> 0 \<notin> set (topo ts_w ! i))"
    by (auto simp: ts_w_def less_Suc_eq)
  have h3': "0 \<notin> set (concat (tl (topo ts_w)))" by (simp add: ts_w_def)
  from pi_nodes_ground_truth [OF forward_ex h2 h3] forward_ex h2 h3' show ?thesis by blast
qed

text \<open>
  Without the condition on the schedule the statement of C6 is false: \<^verbatim>\<open>forward\<close> accepts
  a schedule whose level 1 holds the primary input 0 again; the net stage of that level
  then overwrites the copied row (node 0 has no incoming \<^verbatim>\<open>net_out\<close> edge, so the sum of
  its messages is 0), and the returned prediction of node 0 is 0 where \<^verbatim>\<open>n_atslew\<close> holds 5.
\<close>

theorem pi_node_overwritten:
  "SignalProp_forward sp_ex g_ex ts_pi_twice nf_ex False
     = (Inr (Tensor [3, 1] [0, 0, 0], Tensor [1, 1] [0]), g_ex)
   \<and> even (length (topo ts_pi_twice))
   \<and> 0 \<in> set (pi_nodes ts_pi_twice)
   \<and> ndata g_ex ''n_atslew'' = Some (Tensor [3, 1] [5, 6, 7])
   \<and> row (Tensor [3, 1] [0, 0, 0]) 0 = [0]
   \<and> row (Tensor [3, 1] [5, 6, 7]) 0 = [5]"
proof -
  have "ndata g_ex ''n_atslew'' = Some (Tensor [3, 1] [5, 6, 7])"
    by (simp add: g_ex_def)
  moreover have "even (length (topo ts_pi_twice)) \<and> 0 \<in> set (pi_nodes ts_pi_twice)"
    by (simp add: ts_pi_twice_def)
  moreover have "row (Tensor [3, 1] [0, 0, 0]) 0 = [0] \<and> row (Tensor [3, 1] [5, 6, 7]) 0 = [5]"
    by (simp add: row_def row_sz_def)
  ultimately show ?thesis
    using forward_pi_twice by blast
qed

text \<open>
  C10. When \<^verbatim>\<open>SignalProp.forward\<close> returns, a node that is not in \<^verbatim>\<open>pi_nodes\<close> and
  not in any processed frontier (\<^verbatim>\<open>input_nodes\<close> and \<^verbatim>\<open>output_nodes_nonpi\<close> with
  \<^verbatim>\<open>groundtruth=True\<close>, the levels of index 1 and higher otherwise) has the all-zeros
  vector of width \<^verbatim>\<open>out_nf\<close> as its prediction, and the prediction tensor has one row of
  this width per node.
\<close>

theorem untouched_nodes_zero:
  assumes "SignalProp_forward sp g ts nf groundtruth = (Inr (pred, delays), g')"
    and "v < num_nodes g"
    and "v \<notin> set (pi_nodes ts)"
    and "if groundtruth then v \<notin> set (input_nodes ts) \<and> v \<notin> set (output_nodes_nonpi ts)
         else (\<forall>i. 1 \<le> i \<and> i < length (topo ts) \<longrightarrow> v \<notin> set (topo ts ! i))"
  shows "row pred v = replicate (sp_out_nf sp) 0 \<and> shape pred = [num_nodes g, sp_out_nf sp]"
  using forward_rows [OF assms(1) assms(4)] assms(2) assms(3) by auto

theorem untouched_nodes_zero_witness:
  "SignalProp_forward sp_ex g_ex ts_w nf_ex False
     = (Inr (Tensor [3, 1] [5, 0, 0], Tensor [1, 1] [0]), g_ex)
   \<and> 1 < num_nodes g_ex
   \<and> 1 \<notin> set (pi_nodes ts_w)
   \<and> 1 \<notin> set (concat (tl (topo ts_w)))
   \<and> row (Tensor [3, 1] [5, 0, 0]) 1 = replicate (sp_out_nf sp_ex) 0"
proof -
  have h2: "1 < num_nodes g_ex" by (simp add: g_ex_def)
  have h3: "1 \<notin> set (pi_nodes ts_w)" by (simp add: ts_w_def)
  have h4: "\<forall>i. 1 \<le> i \<and> i < length (topo ts_w) \<longrightarrow> 1 \<notin> set (topo ts_w ! i)"
    by (auto simp: ts_w_def less_Suc_eq)
  then have h4': "if False then 1 \<notin> set (input_nodes ts_w) \<and> 1 \<notin> set (output_nodes_nonpi ts_w)
            else (\<forall>i. 1 \<le> i \<and> i < length (topo ts_w) \<longrightarrow> 1 \<notin> set (topo ts_w ! i))"
    by simp
  have h5: "1 \<notin> set (concat (tl (topo ts_w)))" by (simp add: ts_w_def)
  from untouched_nodes_zero [OF forward_ex h2 h3 h4'] forward_ex h2 h3 h5 show ?thesis by blast
qed

text \<open>
  C7. In \<^verbatim>\<open>NetConv.forward\<close>, when the aggregation steps have run (state \<open>s\<close>, just
  before \<^verbatim>\<open>apply_nodes\<close> calls the reduce function), a node without incoming
  \<^verbatim>\<open>net_in\<close> edge has the zero vector of width \<^verbatim>\<open>h1\<close> as its sum aggregate \<^verbatim>\<open>nfo1\<close>
  and the zero vector of width \<^verbatim>\<open>h2\<close> as its max aggregate \<^verbatim>\<open>nfo2\<close>, and these are
  the rows the node batch of \<^verbatim>\<open>output_nodes\<close> hands to \<^verbatim>\<open>node_reduce_o\<close> for it. The
  node feature \<^verbatim>\<open>nf\<close> is a matrix, one row per node. The zero is the value the built-in
  reducers of the graph library give a node without message.
\<close>

theorem isolated_drive_node:
  assumes "NetConv_aggregate (NetConv_init in_nf in_ef onf h1 h2 wts) g nf = Inr s"
    and "length (shape nf) = 2"
    and "v < num_nodes g"
    and "\<forall>e \<in> set (elist g ''net_in''). snd e \<noteq> v"
  shows "\<exists>t1 t2. ndata s ''nfo1'' = Some t1 \<and> ndata s ''nfo2'' = Some t2
           \<and> row t1 v = replicate h1 0 \<and> row t2 v = replicate h2 0
           \<and> (\<forall>k < length (output_nodes ts). output_nodes ts ! k = v \<longrightarrow>
                 (\<exists>b1 b2. subframe (ndata s) (output_nodes ts) ''nfo1'' = Some b1
                    \<and> subframe (ndata s) (output_nodes ts) ''nfo2'' = Some b2
                    \<and> row b1 k = replicate h1 0 \<and> row b2 k = replicate h2 0))"
proof -
  from isolated_aggregate [OF assms] obtain t1 t2 where
    t: "ndata s ''nfo1'' = Some t1" "ndata s ''nfo2'' = Some t2"
    and r: "row t1 v = replicate h1 0" "row t2 v = replicate h2 0"
    by blast
  have "\<exists>b1 b2. subframe (ndata s) (output_nodes ts) ''nfo1'' = Some b1
          \<and> subframe (ndata s) (output_nodes ts) ''nfo2'' = Some b2
          \<and> row b1 k = replicate h1 0 \<and> row b2 k = replicate h2 0"
    if "k < length (output_nodes ts)" "output_nodes ts ! k = v" for k
    using that t r by (simp add: subframe_def row_index_rows)
  with t r show ?thesis by blast
qed

theorem isolated_drive_node_witness:
  "\<exists>s. NetConv_aggregate (NetConv_init 1 1 1 1 1 (\<lambda>_. w_zero)) g_ex nf_ex = Inr s
     \<and> length (shape nf_ex) = 2 \<and> 2 < num_nodes g_ex
     \<and> (\<forall>e \<in> set (elist g_ex ''net_in''). snd e \<noteq> 2)
     \<and> (\<exists>t1 t2. ndata s ''nfo1'' = Some t1 \<and> ndata s ''nfo2'' = Some t2
           \<and> row t1 2 = replicate 1 0 \<and> row t2 2 = replicate 1 0)"
proof -
  from aggregate_ex obtain s where
    s: "NetConv_aggregate (NetConv_init 1 1 1 1 1 (\<lambda>_. w_zero)) g_ex nf_ex = Inr s" ..
  have h2: "length (shape nf_ex) = 2" by (simp add: nf_ex_def)
  have h3: "2 < num_nodes g_ex" by (simp add: g_ex_def)
  have h4: "\<forall>e \<in> set (elist g_ex ''net_in''). snd e \<noteq> 2" by (simp add: g_ex_def)
  from isolated_drive_node [OF s h2 h3 h4, of ts_ex] s h2 h3 h4 show ?thesis by blast
qed

text \<open>
  C3. In \<^verbatim>\<open>edge_msg_cell\<close>, let \<open>a\<close> be the output of the attention MLP and \<open>r\<close> the
  lookup results computed from it. For edge \<open>e\<close>, lookup table \<open>l\<close> and duplicate query
  \<open>d\<close>, the attention row is row \<open>(e * L + l) * lut_dup + d\<close> of \<open>a\<close>: its first \<open>sz\<close>
  entries are the x-axis attention vector, the next \<open>sz\<close> the y-axis one. If the first is
  one-hot at \<open>x\<close> and the second one-hot at \<open>y\<close>, the lookup result \<open>r[e, l * lut_dup + d]\<close>
  is exactly entry \<open>x * sz + y\<close> of the flattened value grid of table \<open>l\<close> in the edge
  feature of edge \<open>e\<close>. The prediction feature has one row per edge and the edge feature
  holds the axis block and the table block.
\<close>

theorem hard_lookup:
  assumes sp: "sp = SignalProp_init in_nf L sz onf ocef h1 h2 Dp wts"
    and att: "lut_attention sp edges groundtruth = Inr (last_nf, a)"
    and look: "lut_lookup sp edges a = Inr r"
    and ln: "shape last_nf = [len edges, w]"
    and ef: "data edges ''ef'' = Some ef" "shape ef = [len edges, Wd]"
    and wd: "axis_len sp + tables_len sp \<le> Wd"
    and idx: "e < len edges" "l < L" "d < Dp" "x < sz" "y < sz"
    and hx: "\<forall>k < sz. elt a (((e * L + l) * Dp + d) * (2 * sz) + k) = (if k = x then 1 else 0)"
    and hy: "\<forall>k < sz. elt a (((e * L + l) * Dp + d) * (2 * sz) + sz + k) = (if k = y then 1 else 0)"
  shows "elt r (e * (L * Dp) + l * Dp + d) = elt ef (e * Wd + axis_len sp + l * sz ^ 2 + (x * sz + y))"
proof -
  have f: "sp_in_cell_lut_sz sp = sz" "sp_in_cell_num_luts sp = L" "sp_lut_dup sp = Dp"
    by (simp_all add: sp SignalProp_init_def)
  from idx(4) have sz: "0 < sp_in_cell_lut_sz sp" by (simp add: f)
  from lut_attention_shape [OF att [unfolded sp] ln]
  have sa: "shape a = [len edges * (sp_in_cell_num_luts sp * sp_lut_dup sp),
                       2 * sp_in_cell_lut_sz sp]"
    by (simp add: f)
  let ?i = "e * (L * Dp) + l * Dp + d"
  have i: "?i = (e * L + l) * Dp + d" by (simp add: algebra_simps)
  let ?g = "\<lambda>k. elt ef (e * Wd + axis_len sp + l * (sz * sz) + k)"
  from lut_lookup_value [OF look sa sz ef wd] idx(1,2,3)
  have "elt r ?i = sum_list (map (\<lambda>k. ?g k
            * (elt a (?i * (2 * sz) + k div sz) * elt a (?i * (2 * sz) + sz + k mod sz)))
          [0..<sz * sz])"
    by (simp add: f)
  also have "\<dots> = sum_list (map (\<lambda>k. ?g k
            * ((if k div sz = x then 1 else 0) * (if k mod sz = y then 1 else 0)))
          [0..<sz * sz])"
  proof (rule arg_cong [where f = sum_list], rule map_cong [OF refl])
    fix k assume "k \<in> set [0..<sz * sz]"
    then have k: "k < sz * sz" by simp
    with idx(4) have "k div sz < sz" by (simp add: less_mult_imp_div_less)
    moreover from idx(4) have "k mod sz < sz" by simp
    ultimately show "?g k * (elt a (?i * (2 * sz) + k div sz) * elt a (?i * (2 * sz) + sz + k mod sz))
          = ?g k * ((if k div sz = x then 1 else 0) * (if k mod sz = y then 1 else 0))"
      using hx hy unfolding i by simp
  qed
  also have "\<dots> = ?g (x * sz + y)" using idx(4,5) by (rule onehot_sum)
  finally show ?thesis by (simp add: power2_eq_square add.assoc)
qed

theorem hard_lookup_witness:
  "\<exists>a r. lut_attention sp_hot eb_one False = Inr (Tensor [1, 1] [5], a)
     \<and> lut_lookup sp_hot eb_one a = Inr r
     \<and> (\<forall>k < 2. elt a (((0 * 1 + 0) * 4 + 2) * (2 * 2) + k) = (if k = 0 then 1 else 0))
     \<and> (\<forall>k < 2. elt a (((0 * 1 + 0) * 4 + 2) * (2 * 2) + 2 + k) = (if k = 1 then 1 else 0))
     \<and> elt r 2 = 20"
proof -
  from att_hot obtain a where
    att: "lut_attention sp_hot eb_one False = Inr (Tensor [1, 1] [5], a)"
    and v: "\<forall>j < 16. elt a j = (if j mod 4 = 0 \<or> j mod 4 = 3 then 1 else 0)"
    by blast
  have ln: "shape (Tensor [1, 1] [5]) = [len eb_one, 1]" by (simp add: eb_one_def)
  have ef: "data eb_one ''ef'' = Some ef_one" "shape ef_one = [len eb_one, 9]"
    by (simp_all add: eb_one_def ef_one_def)
  have wd: "axis_len sp_hot + tables_len sp_hot \<le> 9"
    by (simp add: axis_len_def tables_len_def sp_hot_def SignalProp_init_def)
  from lut_attention_shape [OF att [unfolded sp_hot_def] ln]
  have sa: "shape a = [len eb_one * (sp_in_cell_num_luts sp_hot * 4), 2 * sp_in_cell_lut_sz sp_hot]"
    by (simp add: sp_hot_def SignalProp_init_def)
  have sz: "0 < sp_in_cell_lut_sz sp_hot" and dup: "sp_lut_dup sp_hot = 4"
    by (simp_all add: sp_hot_def SignalProp_init_def)
  from lut_lookup_dup4 [OF sa sz dup ef wd] obtain r where
    look: "lut_lookup sp_hot eb_one a = Inr r"
    by blast
  have hx: "\<forall>k < 2. elt a (((0 * 1 + 0) * 4 + 2) * (2 * 2) + k) = (if k = 0 then 1 else 0)"
    using v by (auto simp: less_2_cases_iff)
  have hy: "\<forall>k < 2. elt a (((0 * 1 + 0) * 4 + 2) * (2 * 2) + 2 + k) = (if k = 1 then 1 else 0)"
    using v by (auto simp: less_2_cases_iff)
  have idx: "0 < len eb_one" "(0::nat) < 1" "(2::nat) < 4" "(0::nat) < 2" "(1::nat) < 2"
    by (simp_all add: eb_one_def)
  from hard_lookup [OF sp_hot_def att look ln ef wd idx hx hy]
  have "elt r 2 = 20"
    by (simp add: axis_len_def sp_hot_def SignalProp_init_def ef_one_def numeral_2_eq_2)
  with att look hx hy show ?thesis by blast
qed

text \<open>
  C4. The second operand of the lookup product is reshaped with the literal 4 where the
  number of duplicate queries \<^verbatim>\<open>lut_dup\<close> is meant. For a configuration with
  \<^verbatim>\<open>lut_dup = 2\<close>, one lookup table and one edge, \<^verbatim>\<open>edge_msg_cell\<close> raises a runtime
  error instead of producing two lookup results.
\<close>

theorem lut_dup_two_raises:
  "edge_msg_cell sp_dup2 eb_one False = Inl RuntimeError"
proof -
  from att_dup2 obtain a where
    att: "lut_attention sp_dup2 eb_one False = Inr (Tensor [1, 1] [5], a)"
    and sa: "shape a = [2, 4]"
    by blast
  have "lut_lookup sp_dup2 eb_one a = Inl RuntimeError"
  proof (rule lut_lookup_fails)
    show "shape a = [2, 2 * sp_in_cell_lut_sz sp_dup2]"
      by (simp add: sa sp_dup2_def SignalProp_init_def)
    show "0 < sp_in_cell_lut_sz sp_dup2" by (simp add: sp_dup2_def SignalProp_init_def)
    show "data eb_one ''ef'' = Some ef_one" by (simp add: eb_one_def)
    show "shape ef_one = [1, 9]" by (simp add: ef_one_def)
    show "axis_len sp_dup2 + tables_len sp_dup2 \<le> 9"
      by (simp add: axis_len_def tables_len_def sp_dup2_def SignalProp_init_def)
    show "(2::nat) mod 4 \<noteq> 0" by simp
  qed
  with att show ?thesis by (simp add: edge_msg_cell_def)
qed

end
